theory Spec2Isabelle
  imports Complex_Main "HOL-Library.Multiset"
begin

section \<open>JavaScript numbers\<close>

text \<open>
  The quantitative core is written in TypeScript; every quantity is a JavaScript number.
  A number is modelled as a real or one of the three special values of IEEE arithmetic.
  Arithmetic on finite values is exact: the operations of this section have no rounding and
  no overflow, and zero carries no sign (a division of a non-zero finite value by zero takes
  the sign of the dividend). The special values follow IEEE 754: \<open>0/0\<close>, \<open>Infinity - Infinity\<close>,
  \<open>0 * Infinity\<close>, the square root and the logarithm of a negative number are \<open>NaN\<close>,
  and every comparison with \<open>NaN\<close> is false. Two computations are not left exact,
  because there the rounding decides the result: the product whose floor selects an array
  index, and the Cholesky factorisation, where the sign of a pivot decides between a number
  and \<open>NaN\<close>. They use the double arithmetic of the next section.
\<close>

datatype jsnum = Num real | PInf | NInf | NaN

fun signed_inf :: "real \<Rightarrow> jsnum" where
  "signed_inf s = (if 0 < s then PInf else if s < 0 then NInf else NaN)"

fun jneg :: "jsnum \<Rightarrow> jsnum" where
  "jneg (Num a) = Num (- a)"
| "jneg PInf = NInf"
| "jneg NInf = PInf"
| "jneg NaN = NaN"

fun jadd :: "jsnum \<Rightarrow> jsnum \<Rightarrow> jsnum" where
  "jadd (Num a) (Num b) = Num (a + b)"
| "jadd NaN _ = NaN"
| "jadd _ NaN = NaN"
| "jadd PInf NInf = NaN"
| "jadd NInf PInf = NaN"
| "jadd PInf _ = PInf"
| "jadd _ PInf = PInf"
| "jadd NInf _ = NInf"
| "jadd _ NInf = NInf"

definition jsub :: "jsnum \<Rightarrow> jsnum \<Rightarrow> jsnum" where
  "jsub a b = jadd a (jneg b)"

fun jmul :: "jsnum \<Rightarrow> jsnum \<Rightarrow> jsnum" where
  "jmul (Num a) (Num b) = Num (a * b)"
| "jmul NaN _ = NaN"
| "jmul _ NaN = NaN"
| "jmul (Num a) PInf = signed_inf a"
| "jmul (Num a) NInf = signed_inf (- a)"
| "jmul PInf (Num b) = signed_inf b"
| "jmul NInf (Num b) = signed_inf (- b)"
| "jmul PInf PInf = PInf"
| "jmul PInf NInf = NInf"
| "jmul NInf PInf = NInf"
| "jmul NInf NInf = PInf"

fun jdiv :: "jsnum \<Rightarrow> jsnum \<Rightarrow> jsnum" where
  "jdiv (Num a) (Num b) = (if b = 0 then signed_inf a else Num (a / b))"
| "jdiv NaN _ = NaN"
| "jdiv _ NaN = NaN"
| "jdiv (Num a) PInf = Num 0"
| "jdiv (Num a) NInf = Num 0"
| "jdiv PInf (Num b) = (if 0 \<le> b then PInf else NInf)"
| "jdiv NInf (Num b) = (if 0 \<le> b then NInf else PInf)"
| "jdiv PInf PInf = NaN"
| "jdiv PInf NInf = NaN"
| "jdiv NInf PInf = NaN"
| "jdiv NInf NInf = NaN"

fun jsqrt :: "jsnum \<Rightarrow> jsnum" where
  "jsqrt (Num a) = (if a < 0 then NaN else Num (sqrt a))"
| "jsqrt PInf = PInf"
| "jsqrt NInf = NaN"
| "jsqrt NaN = NaN"

fun jexp :: "jsnum \<Rightarrow> jsnum" where
  "jexp (Num a) = Num (exp a)"
| "jexp PInf = PInf"
| "jexp NInf = Num 0"
| "jexp NaN = NaN"

fun jlog :: "jsnum \<Rightarrow> jsnum" where
  "jlog (Num a) = (if a < 0 then NaN else if a = 0 then NInf else Num (ln a))"
| "jlog PInf = PInf"
| "jlog NInf = NaN"
| "jlog NaN = NaN"

fun jcos :: "jsnum \<Rightarrow> jsnum" where
  "jcos (Num a) = Num (cos a)"
| "jcos _ = NaN"

fun jabs :: "jsnum \<Rightarrow> jsnum" where
  "jabs (Num a) = Num \<bar>a\<bar>"
| "jabs PInf = PInf"
| "jabs NInf = PInf"
| "jabs NaN = NaN"

fun jfloor :: "jsnum \<Rightarrow> jsnum" where
  "jfloor (Num a) = Num (of_int \<lfloor>a\<rfloor>)"
| "jfloor x = x"

text \<open>The comparisons \<open>a < b\<close> and \<open>a <= b\<close>; \<open>a > b\<close> is \<open>jlt b a\<close>.\<close>

fun jlt :: "jsnum \<Rightarrow> jsnum \<Rightarrow> bool" where
  "jlt (Num a) (Num b) = (a < b)"
| "jlt NaN _ = False"
| "jlt _ NaN = False"
| "jlt _ NInf = False"
| "jlt PInf _ = False"
| "jlt NInf _ = True"
| "jlt _ PInf = True"

fun jle :: "jsnum \<Rightarrow> jsnum \<Rightarrow> bool" where
  "jle (Num a) (Num b) = (a \<le> b)"
| "jle NaN _ = False"
| "jle _ NaN = False"
| "jle NInf _ = True"
| "jle _ PInf = True"
| "jle _ NInf = False"
| "jle PInf _ = False"

text \<open>\<open>Math.max\<close> and \<open>Math.min\<close> of two arguments: \<open>NaN\<close> if either is.\<close>

fun jmax2 :: "jsnum \<Rightarrow> jsnum \<Rightarrow> jsnum" where
  "jmax2 NaN _ = NaN"
| "jmax2 _ NaN = NaN"
| "jmax2 a b = (if jlt a b then b else a)"

fun jmin2 :: "jsnum \<Rightarrow> jsnum \<Rightarrow> jsnum" where
  "jmin2 NaN _ = NaN"
| "jmin2 _ NaN = NaN"
| "jmin2 a b = (if jlt b a then b else a)"

section \<open>Double arithmetic\<close>

text \<open>
  The rounding of a real to binary64, to nearest with ties to even. \<open>double_ulp x\<close> is the
  spacing of the doubles around \<open>x\<close>: \<open>2^(e-52)\<close> for \<open>2^e \<le> |x| < 2^(e+1)\<close>, and \<open>2^-1074\<close>
  below \<open>2^-1022\<close>. \<open>round_double x\<close> is the multiple of the spacing nearest to \<open>x\<close>, and an
  infinity when its magnitude reaches \<open>2^1024\<close>; \<open>double_of x\<close> is its value when finite.
  \<open>js_lit\<close> is the value of a decimal literal of the source. \<open>dadd\<close>, \<open>dsub\<close>, \<open>dmul\<close>,
  \<open>ddiv\<close> and \<open>dsqrt\<close> are \<open>+\<close>, \<open>-\<close>, \<open>*\<close>, \<open>/\<close> and \<open>Math.sqrt\<close> on doubles: the exact
  result, rounded.
\<close>

definition round_half_even :: "real \<Rightarrow> int" where
  "round_half_even q =
    (let f = \<lfloor>q\<rfloor>
     in if q - of_int f < 1 / 2 then f
        else if 1 / 2 < q - of_int f then f + 1
        else if even f then f else f + 1)"

definition double_ulp :: "real \<Rightarrow> real" where
  "double_ulp x = 2 powr (of_int (max \<lfloor>log 2 \<bar>x\<bar>\<rfloor> (- 1022)) - 52)"

definition round_double :: "real \<Rightarrow> jsnum" where
  "round_double x =
    (if x = 0 then Num 0
     else (let r = of_int (round_half_even (x / double_ulp x)) * double_ulp x
           in if 2 ^ 1024 \<le> \<bar>r\<bar> then signed_inf x else Num r))"

definition double_of :: "real \<Rightarrow> real" where
  "double_of x = (case round_double x of Num r \<Rightarrow> r | _ \<Rightarrow> 0)"

definition js_lit :: "real \<Rightarrow> jsnum" where
  "js_lit x = round_double x"

fun rnd :: "jsnum \<Rightarrow> jsnum" where
  "rnd (Num a) = round_double a"
| "rnd x = x"

definition dadd :: "jsnum \<Rightarrow> jsnum \<Rightarrow> jsnum" where
  "dadd a b = rnd (jadd a b)"

definition dsub :: "jsnum \<Rightarrow> jsnum \<Rightarrow> jsnum" where
  "dsub a b = rnd (jsub a b)"

definition dmul :: "jsnum \<Rightarrow> jsnum \<Rightarrow> jsnum" where
  "dmul a b = rnd (jmul a b)"

definition ddiv :: "jsnum \<Rightarrow> jsnum \<Rightarrow> jsnum" where
  "ddiv a b = rnd (jdiv a b)"

definition dsqrt :: "jsnum \<Rightarrow> jsnum" where
  "dsqrt a = rnd (jsqrt a)"

section \<open>Arrays\<close>

text \<open>
  An array is a list. \<open>js_index\<close> is the read \<open>xs[i]\<close> with a number as index: the element when
  \<open>i\<close> is an integer within range, and \<open>undefined\<close> (\<open>None\<close>) otherwise. An \<open>undefined\<close> used
  in arithmetic is \<open>NaN\<close> (\<open>undef_num\<close>). \<open>js_slice0 xs e\<close> is \<open>xs.slice(0, e)\<close>: the end is
  truncated to an integer, a negative end counts from the back, and both are clipped to the array.
\<close>

fun js_index :: "'a list \<Rightarrow> jsnum \<Rightarrow> 'a option" where
  "js_index xs (Num r) =
     (if 0 \<le> r \<and> r = of_int \<lfloor>r\<rfloor> \<and> nat \<lfloor>r\<rfloor> < length xs then Some (xs ! nat \<lfloor>r\<rfloor>) else None)"
| "js_index xs _ = None"

fun undef_num :: "jsnum option \<Rightarrow> jsnum" where
  "undef_num None = NaN"
| "undef_num (Some x) = x"

fun js_slice0 :: "'a list \<Rightarrow> jsnum \<Rightarrow> 'a list" where
  "js_slice0 xs (Num e) =
     (let k = (if e < 0 then \<lceil>e\<rceil> else \<lfloor>e\<rfloor>)
      in if k < 0 then take (nat (int (length xs) + k)) xs else take (nat k) xs)"
| "js_slice0 xs PInf = xs"
| "js_slice0 xs _ = []"

text \<open>
  \<open>xs.sort((a, b) => a - b)\<close>: the comparator is consistent on an array free of \<open>NaN\<close>, where the
  result is the ascending order whatever algorithm the engine uses; the model sorts by
  insertion. \<open>js_sum\<close> is \<open>xs.reduce((s, x) => s + x, 0)\<close>, \<open>js_max\<close> and \<open>js_min\<close> are
  \<open>Math.max(...xs)\<close> and \<open>Math.min(...xs)\<close> (\<open>-Infinity\<close> and \<open>Infinity\<close> on an empty array).
\<close>

fun js_insort :: "jsnum \<Rightarrow> jsnum list \<Rightarrow> jsnum list" where
  "js_insort x [] = [x]"
| "js_insort x (y # ys) = (if jlt (Num 0) (jsub x y) then y # js_insort x ys else x # y # ys)"

definition js_sort :: "jsnum list \<Rightarrow> jsnum list" where
  "js_sort xs = foldr js_insort xs []"

definition js_sum :: "jsnum list \<Rightarrow> jsnum" where
  "js_sum xs = foldl jadd (Num 0) xs"

definition js_max :: "jsnum list \<Rightarrow> jsnum" where
  "js_max xs = foldl jmax2 NInf xs"

definition js_min :: "jsnum list \<Rightarrow> jsnum" where
  "js_min xs = foldl jmin2 PInf xs"

definition js_length :: "'a list \<Rightarrow> jsnum" where
  "js_length xs = Num (real (length xs))"

section \<open>Random source\<close>

text \<open>
  \<open>Math.random()\<close> is the only source of randomness. The generator is an explicit tape: the
  finite list of the values it returns, in order; a function that draws returns the rest of
  the tape with its result, and \<open>None\<close> when the tape ends before the draw. By its contract
  the values lie in \<open>[0, 1)\<close> (\<open>valid_tape\<close>). \<open>draw_nonzero\<close> is the loop
  \<open>while (u === 0) u = Math.random()\<close> entered with \<open>u = 0\<close>.
\<close>

type_synonym rng = "real list"

fun math_random :: "rng \<Rightarrow> (jsnum \<times> rng) option" where
  "math_random [] = None"
| "math_random (u # us) = Some (Num u, us)"

fun draw_nonzero :: "rng \<Rightarrow> (jsnum \<times> rng) option" where
  "draw_nonzero [] = None"
| "draw_nonzero (u # us) = (if u = 0 then draw_nonzero us else Some (Num u, us))"

definition randomNormal :: "rng \<Rightarrow> (jsnum \<times> rng) option" where
  "randomNormal g =
    (case draw_nonzero g of None \<Rightarrow> None
     | Some (u, g1) \<Rightarrow>
        (case draw_nonzero g1 of None \<Rightarrow> None
         | Some (v, g2) \<Rightarrow>
             Some (jmul (jsqrt (jmul (Num (- 2)) (jlog u)))
                        (jcos (jmul (jmul (Num 2) (Num pi)) v)), g2)))"

section \<open>Single-asset simulation (\<open>runMonteCarloSimulation\<close>)\<close>

text \<open>
  The repository has two versions of \<open>runMonteCarloSimulation\<close>: the basic one of
  \<open>src/lib/monteCarlo.ts\<close> and the enhanced one, which adds a jump to the day's log-return
  whenever a further uniform draw is below 0.02. \<open>timeHorizon\<close> and \<open>numSimulations\<close> are loop
  bounds and are integers; a bound below 1 gives no iteration. \<open>simulate_days\<close> is the inner
  loop over the days (its counter is the number of days left), \<open>simulate_paths\<close> the outer
  loop over the simulations, \<open>summary_statistics\<close> the statistics computed from the sorted
  final prices.
\<close>

record SimulationParams =
  currentPrice :: jsnum
  expectedReturn :: jsnum
  volatility :: jsnum
  timeHorizon :: int
  numSimulations :: int

record Statistics =
  averageEndingPrice :: jsnum
  probabilityOfGain :: jsnum
  percentile5 :: "jsnum option"
  percentile95 :: "jsnum option"
  maxPrice :: jsnum
  minPrice :: jsnum

record SimulationResults =
  paths :: "jsnum list list"
  finalPrices :: "jsnum list"
  statistics :: Statistics

fun simulate_days :: "jsnum \<Rightarrow> jsnum \<Rightarrow> nat \<Rightarrow> jsnum \<Rightarrow> jsnum list \<Rightarrow> rng
    \<Rightarrow> ((jsnum list \<times> jsnum) \<times> rng) option" where
  "simulate_days drift diffusion 0 price path g = Some ((path, price), g)"
| "simulate_days drift diffusion (Suc n) price path g =
    (case randomNormal g of None \<Rightarrow> None
     | Some (randomShock, g') \<Rightarrow>
        (let priceChange = jadd drift (jmul diffusion randomShock);
             price' = jmul price (jexp priceChange)
         in simulate_days drift diffusion n price' (path @ [price']) g'))"

fun simulate_paths :: "jsnum \<Rightarrow> jsnum \<Rightarrow> jsnum \<Rightarrow> nat \<Rightarrow> nat \<Rightarrow> jsnum list list \<Rightarrow> jsnum list \<Rightarrow> rng
    \<Rightarrow> ((jsnum list list \<times> jsnum list) \<times> rng) option" where
  "simulate_paths c drift diffusion T 0 ps fs g = Some ((ps, fs), g)"
| "simulate_paths c drift diffusion T (Suc n) ps fs g =
    (case simulate_days drift diffusion T c [c] g of None \<Rightarrow> None
     | Some ((path, price), g') \<Rightarrow> simulate_paths c drift diffusion T n (ps @ [path]) (fs @ [price]) g')"

definition summary_statistics :: "jsnum list \<Rightarrow> jsnum \<Rightarrow> Statistics" where
  "summary_statistics fp c =
    \<lparr>averageEndingPrice = jdiv (js_sum fp) (js_length fp),
     probabilityOfGain = jdiv (js_length (filter (\<lambda>price. jlt c price) fp)) (js_length fp),
     percentile5 = js_index fp (jfloor (dmul (js_length fp) (js_lit 0.05))),
     percentile95 = js_index fp (jfloor (dmul (js_length fp) (js_lit 0.95))),
     maxPrice = js_max fp,
     minPrice = js_min fp\<rparr>"

definition runMonteCarloSimulation :: "SimulationParams \<Rightarrow> rng \<Rightarrow> (SimulationResults \<times> rng) option" where
  "runMonteCarloSimulation params g =
    (let c = currentPrice params;
         dt = jdiv (Num 1) (Num 252);
         drift = jmul (jsub (expectedReturn params)
                            (jmul (jmul (Num 0.5) (volatility params)) (volatility params))) dt;
         diffusion = jmul (volatility params) (jsqrt dt)
     in case simulate_paths c drift diffusion (nat (timeHorizon params)) (nat (numSimulations params)) [] [] g of
          None \<Rightarrow> None
        | Some ((ps, fs), g') \<Rightarrow>
            (let sorted = js_sort fs
             in Some (\<lparr>paths = ps, finalPrices = sorted, statistics = summary_statistics sorted c\<rparr>, g')))"

text \<open>The enhanced variant: the body of the day loop up to the final \<open>priceChange\<close>.\<close>

definition enhanced_priceChange :: "jsnum \<Rightarrow> jsnum \<Rightarrow> rng \<Rightarrow> (jsnum \<times> rng) option" where
  "enhanced_priceChange drift diffusion g =
    (let jumpIntensity = Num 0.02; jumpMean = Num (- 0.05); jumpStd = Num 0.1
     in case randomNormal g of None \<Rightarrow> None
        | Some (randomShock, g1) \<Rightarrow>
           (let priceChange = jadd drift (jmul diffusion randomShock)
            in case math_random g1 of None \<Rightarrow> None
               | Some (w, g2) \<Rightarrow>
                  (if jlt w jumpIntensity
                   then (case randomNormal g2 of None \<Rightarrow> None
                         | Some (z, g3) \<Rightarrow>
                            (let jumpSize = jadd jumpMean (jmul jumpStd z)
                             in Some (jadd priceChange jumpSize, g3)))
                   else Some (priceChange, g2))))"

fun simulate_days_enhanced :: "jsnum \<Rightarrow> jsnum \<Rightarrow> nat \<Rightarrow> jsnum \<Rightarrow> jsnum list \<Rightarrow> rng
    \<Rightarrow> ((jsnum list \<times> jsnum) \<times> rng) option" where
  "simulate_days_enhanced drift diffusion 0 price path g = Some ((path, price), g)"
| "simulate_days_enhanced drift diffusion (Suc n) price path g =
    (case enhanced_priceChange drift diffusion g of None \<Rightarrow> None
     | Some (priceChange, g') \<Rightarrow>
        (let price' = jmul price (jexp priceChange)
         in simulate_days_enhanced drift diffusion n price' (path @ [price']) g'))"

fun simulate_paths_enhanced :: "jsnum \<Rightarrow> jsnum \<Rightarrow> jsnum \<Rightarrow> nat \<Rightarrow> nat \<Rightarrow> jsnum list list \<Rightarrow> jsnum list
    \<Rightarrow> rng \<Rightarrow> ((jsnum list list \<times> jsnum list) \<times> rng) option" where
  "simulate_paths_enhanced c drift diffusion T 0 ps fs g = Some ((ps, fs), g)"
| "simulate_paths_enhanced c drift diffusion T (Suc n) ps fs g =
    (case simulate_days_enhanced drift diffusion T c [c] g of None \<Rightarrow> None
     | Some ((path, price), g') \<Rightarrow>
         simulate_paths_enhanced c drift diffusion T n (ps @ [path]) (fs @ [price]) g')"

definition runMonteCarloSimulation_enhanced :: "SimulationParams \<Rightarrow> rng \<Rightarrow> (SimulationResults \<times> rng) option" where
  "runMonteCarloSimulation_enhanced params g =
    (let c = currentPrice params;
         dt = jdiv (Num 1) (Num 252);
         drift = jmul (jsub (expectedReturn params)
                            (jmul (jmul (Num 0.5) (volatility params)) (volatility params))) dt;
         diffusion = jmul (volatility params) (jsqrt dt)
     in case simulate_paths_enhanced c drift diffusion (nat (timeHorizon params))
               (nat (numSimulations params)) [] [] g of
          None \<Rightarrow> None
        | Some ((ps, fs), g') \<Rightarrow>
            (let sorted = js_sort fs
             in Some (\<lparr>paths = ps, finalPrices = sorted, statistics = summary_statistics sorted c\<rparr>, g')))"

definition valid_tape :: "rng \<Rightarrow> bool" where
  "valid_tape g = (\<forall>u \<in> set g. 0 \<le> u \<and> u < 1)"

definition deterministic_example :: SimulationParams where
  "deterministic_example = \<lparr>currentPrice = Num 100, expectedReturn = Num 0, volatility = Num 0,
      timeHorizon = 10, numSimulations = 1\<rparr>"

definition jump_example :: SimulationParams where
  "jump_example = \<lparr>currentPrice = Num 100, expectedReturn = Num 0, volatility = Num 0,
      timeHorizon = 1, numSimulations = 1\<rparr>"

definition reorder_example :: SimulationParams where
  "reorder_example = \<lparr>currentPrice = Num 100, expectedReturn = Num 0.5, volatility = Num 1,
      timeHorizon = 1, numSimulations = 2\<rparr>"

section \<open>Risk metrics of a simulation (\<open>calculateRiskMetrics\<close>)\<close>

text \<open>
  \<open>Math.pow(x, n)\<close> and \<open>x ** n\<close> with a literal exponent \<open>n\<close>. A parameter with a default value
  (\<open>confidence = 0.05\<close>, \<open>riskFreeRate = 0.02\<close>, \<open>targetReturn = 0\<close>, \<open>periods = 252\<close>) is an
  explicit argument of the model.
\<close>

primrec jpow :: "jsnum \<Rightarrow> nat \<Rightarrow> jsnum" where
  "jpow x 0 = Num 1"
| "jpow x (Suc n) = jmul x (jpow x n)"

record RiskMetricsResult =
  valueAtRisk :: jsnum
  expectedShortfall :: jsnum
  sharpeRatio :: jsnum
  maxDrawdown :: jsnum

record RiskMetricsEnhanced = RiskMetricsResult +
  sortinoRatio :: jsnum
  returnVolatility :: jsnum
  skewness :: jsnum
  kurtosis :: jsnum

definition price_returns :: "jsnum list \<Rightarrow> jsnum \<Rightarrow> jsnum list" where
  "price_returns fp c = map (\<lambda>price. jdiv (jsub price c) c) fp"

definition js_mean :: "jsnum list \<Rightarrow> jsnum" where
  "js_mean xs = jdiv (js_sum xs) (js_length xs)"

text \<open>\<open>xs.reduce((sum, x) => sum + Math.pow(x - m, 2), 0)\<close>.\<close>

definition sum_sq_dev :: "jsnum list \<Rightarrow> jsnum \<Rightarrow> jsnum" where
  "sum_sq_dev xs m = foldl (\<lambda>sum x. jadd sum (jpow (jsub x m) 2)) (Num 0) xs"

text \<open>The version of \<open>src/lib/monteCarlo.ts\<close>.\<close>

definition calculateRiskMetrics :: "jsnum list \<Rightarrow> jsnum \<Rightarrow> jsnum \<Rightarrow> RiskMetricsResult" where
  "calculateRiskMetrics fp c confidence =
    (let sortedPrices = js_sort fp;
         returns = price_returns fp c;
         varIndex = jfloor (dmul (js_length sortedPrices) confidence);
         valueAtRisk' = jsub c (undef_num (js_index sortedPrices varIndex));
         worstReturns = js_slice0 returns (jadd varIndex (Num 1));
         expectedShortfall' = jdiv (js_sum worstReturns) (js_length worstReturns);
         averageReturn = js_mean returns;
         returnStd = jsqrt (jdiv (sum_sq_dev returns averageReturn) (js_length returns));
         sharpeRatio' = jdiv (jsub averageReturn (Num 0.03)) returnStd
     in \<lparr>valueAtRisk = valueAtRisk', expectedShortfall = expectedShortfall',
          sharpeRatio = sharpeRatio',
          maxDrawdown = jdiv (jsub c (js_min sortedPrices)) c\<rparr>)"

definition calculateSkewness :: "jsnum list \<Rightarrow> jsnum" where
  "calculateSkewness data =
    (let mean = js_mean data;
         variance = jdiv (sum_sq_dev data mean) (js_length data);
         std = jsqrt variance
     in jdiv (foldl (\<lambda>sum val. jadd sum (jpow (jdiv (jsub val mean) std) 3)) (Num 0) data)
             (js_length data))"

definition calculateKurtosis :: "jsnum list \<Rightarrow> jsnum" where
  "calculateKurtosis data =
    (let mean = js_mean data;
         variance = jdiv (sum_sq_dev data mean) (js_length data);
         std = jsqrt variance;
         kurtosis' = jdiv (foldl (\<lambda>sum val. jadd sum (jpow (jdiv (jsub val mean) std) 4)) (Num 0) data)
                          (js_length data)
     in jsub kurtosis' (Num 3))"

text \<open>The enhanced version, with the Sortino ratio and the higher moments.\<close>

definition calculateRiskMetrics_enhanced :: "jsnum list \<Rightarrow> jsnum \<Rightarrow> jsnum \<Rightarrow> RiskMetricsEnhanced" where
  "calculateRiskMetrics_enhanced fp c confidence =
    (let sortedPrices = js_sort fp;
         returns = price_returns fp c;
         varIndex = jfloor (dmul (js_length sortedPrices) confidence);
         valueAtRisk' = jsub c (undef_num (js_index sortedPrices varIndex));
         worstReturns = js_slice0 returns (jadd varIndex (Num 1));
         expectedShortfall' = jdiv (js_sum worstReturns) (js_length worstReturns);
         averageReturn = js_mean returns;
         returnStd = jsqrt (jdiv (sum_sq_dev returns averageReturn) (js_length returns));
         sharpeRatio' = jdiv (jsub averageReturn (Num 0.03)) returnStd;
         negativeReturns = filter (\<lambda>ret. jlt ret (Num 0)) returns;
         downsideStd = (if 0 < length negativeReturns
                        then jsqrt (jdiv (foldl (\<lambda>sum ret. jadd sum (jpow ret 2)) (Num 0) negativeReturns)
                                         (js_length negativeReturns))
                        else Num 0);
         sortinoRatio' = (if jlt (Num 0) downsideStd
                          then jdiv (jsub averageReturn (Num 0.03)) downsideStd else Num 0)
     in \<lparr>valueAtRisk = valueAtRisk', expectedShortfall = expectedShortfall',
          sharpeRatio = sharpeRatio',
          maxDrawdown = jdiv (jsub c (js_min sortedPrices)) c,
          sortinoRatio = sortinoRatio', returnVolatility = returnStd,
          skewness = calculateSkewness returns, kurtosis = calculateKurtosis returns\<rparr>)"

section \<open>Ratios of a return series (\<open>RiskManager\<close>)\<close>

definition calculateVolatility :: "jsnum list \<Rightarrow> jsnum \<Rightarrow> jsnum" where
  "calculateVolatility returns periods =
    (let mean = js_mean returns;
         variance = jdiv (sum_sq_dev returns mean) (jsub (js_length returns) (Num 1))
     in jsqrt (jmul variance periods))"

definition calculateSharpeRatio :: "jsnum list \<Rightarrow> jsnum \<Rightarrow> jsnum \<Rightarrow> jsnum" where
  "calculateSharpeRatio returns riskFreeRate' periods =
    (let meanReturn = jmul (js_mean returns) periods;
         volatility' = calculateVolatility returns periods
     in if jlt (Num 0) volatility' then jdiv (jsub meanReturn riskFreeRate') volatility' else Num 0)"

definition calculateSortino :: "jsnum list \<Rightarrow> jsnum \<Rightarrow> jsnum \<Rightarrow> jsnum" where
  "calculateSortino returns targetReturn periods =
    (let meanReturn = jmul (js_mean returns) periods;
         downsideReturns = filter (\<lambda>r. jlt r targetReturn) returns
     in if length downsideReturns = 0 then Num 0
        else
          (let downsideDeviation =
                 jsqrt (jmul (jdiv (foldl (\<lambda>acc ret. jadd acc (jpow (jsub ret targetReturn) 2)) (Num 0)
                                          downsideReturns)
                                   (js_length downsideReturns))
                             periods)
           in if jlt (Num 0) downsideDeviation
              then jdiv (jsub meanReturn targetReturn) downsideDeviation else Num 0))"

section \<open>Portfolio simulation (\<open>runPortfolioSimulation\<close>)\<close>

text \<open>
  The model starts after the asynchronous fetch of the market data: its input is
  \<open>assetData\<close>, the assets with the fetched price, expected return and volatility filled in.
  A run either returns, or throws the \<open>TypeError\<close> of a read through \<open>undefined\<close>, or needs more
  draws than the tape holds.
\<close>

datatype failure = TypeError | TapeExhausted

record Asset =
  ticker :: string
  assetName :: string
  weight :: jsnum
  assetPrice :: jsnum
  assetReturn :: jsnum
  assetVolatility :: jsnum

record PortfolioParams =
  assets :: "Asset list"
  pf_timeHorizon :: int
  pf_numSimulations :: int

record PortfolioStatistics =
  averageEndingValue :: jsnum
  pf_probabilityOfGain :: jsnum
  pf_percentile5 :: "jsnum option"
  pf_percentile95 :: "jsnum option"
  maxValue :: jsnum
  minValue :: jsnum
  pf_expectedReturn :: jsnum
  pf_volatility :: jsnum
  pf_sharpeRatio :: jsnum

record PortfolioRiskMetrics =
  var95 :: jsnum
  var99 :: jsnum
  pf_expectedShortfall :: jsnum
  pf_maxDrawdown :: jsnum

record PortfolioResults =
  pf_paths :: "jsnum list list"
  finalValues :: "jsnum list"
  initialValue :: jsnum
  assetPaths :: "string \<rightharpoonup> jsnum list list"
  pf_statistics :: PortfolioStatistics
  riskMetrics :: PortfolioRiskMetrics

subsection \<open>Correlation matrix\<close>

definition getSector :: "string \<Rightarrow> string" where
  "getSector t =
    (if t \<in> set [''AAPL'', ''MSFT'', ''GOOGL'', ''AMZN'', ''TSLA'', ''NVDA'', ''META''] then ''tech''
     else if t \<in> set [''JPM'', ''BAC'', ''WFC'', ''GS'', ''MS''] then ''finance''
     else if t \<in> set [''JNJ'', ''PFE'', ''UNH'', ''ABBV''] then ''healthcare''
     else if t \<in> set [''XOM'', ''CVX'', ''COP''] then ''energy''
     else ''tech'')"

definition sectorCorrelations :: "string \<rightharpoonup> (string \<rightharpoonup> jsnum)" where
  "sectorCorrelations = map_of
    [(''tech'', map_of [(''tech'', Num 1.0), (''finance'', js_lit 0.3), (''healthcare'', js_lit 0.2),
                        (''energy'', js_lit 0.1)]),
     (''finance'', map_of [(''tech'', js_lit 0.3), (''finance'', Num 1.0), (''healthcare'', js_lit 0.15),
                           (''energy'', js_lit 0.25)]),
     (''healthcare'', map_of [(''tech'', js_lit 0.2), (''finance'', js_lit 0.15), (''healthcare'', Num 1.0),
                              (''energy'', js_lit 0.1)]),
     (''energy'', map_of [(''tech'', js_lit 0.1), (''finance'', js_lit 0.25), (''healthcare'', js_lit 0.1),
                          (''energy'', Num 1.0)])]"

text \<open>\<open>v || d\<close> on a number that may be \<open>undefined\<close>: \<open>d\<close> when \<open>v\<close> is \<open>undefined\<close>, 0 or \<open>NaN\<close>.\<close>

definition or_default :: "jsnum option \<Rightarrow> jsnum \<Rightarrow> jsnum" where
  "or_default v d = (case v of None \<Rightarrow> d | Some x \<Rightarrow> if x = Num 0 \<or> x = NaN then d else x)"

definition calculateCorrelationMatrix :: "Asset list \<Rightarrow> jsnum list list" where
  "calculateCorrelationMatrix as =
    map (\<lambda>i. map (\<lambda>j. if i = j then Num 1.0
                       else or_default
                              (case sectorCorrelations (getSector (ticker (as ! i))) of
                                 None \<Rightarrow> None
                               | Some row \<Rightarrow> row (getSector (ticker (as ! j))))
                              (js_lit 0.3))
                  [0..<length as])
        [0..<length as]"

subsection \<open>Cholesky decomposition and correlated draws\<close>

text \<open>
  A read \<open>r[j]\<close> used as a number (\<open>NaN\<close> beyond the end of the row), and the read \<open>m[i][j]\<close>
  of a matrix; the loops below keep \<open>i\<close> within the rows. \<open>mat_set\<close> is the write
  \<open>L[i][j] = v\<close>. \<open>cholesky_entry\<close> is the body of the inner loop over \<open>j\<close>: the value it
  stores in \<open>L[i][j]\<close>, computed from the entries stored so far. The factorisation is computed
  in double arithmetic; \<open>x ** 2\<close> is the rounded product of \<open>x\<close> with itself.
\<close>

definition row_get :: "jsnum list \<Rightarrow> nat \<Rightarrow> jsnum" where
  "row_get r j = (if j < length r then r ! j else NaN)"

definition mat_get :: "jsnum list list \<Rightarrow> nat \<Rightarrow> nat \<Rightarrow> jsnum" where
  "mat_get m i j = (if i < length m then row_get (m ! i) j else NaN)"

definition mat_set :: "jsnum list list \<Rightarrow> nat \<Rightarrow> nat \<Rightarrow> jsnum \<Rightarrow> jsnum list list" where
  "mat_set L i j v = L[i := (L ! i)[j := v]]"

definition cholesky_entry :: "jsnum list list \<Rightarrow> jsnum list list \<Rightarrow> nat \<Rightarrow> nat \<Rightarrow> jsnum" where
  "cholesky_entry m L i j =
    (if i = j
     then dsqrt (dsub (mat_get m i i)
                      (foldl (\<lambda>sum k. dadd sum (dmul (mat_get L j k) (mat_get L j k))) (Num 0) [0..<j]))
     else ddiv (dsub (mat_get m i j)
                     (foldl (\<lambda>sum k. dadd sum (dmul (mat_get L i k) (mat_get L j k))) (Num 0) [0..<j]))
               (mat_get L j j))"

definition cholesky_row :: "jsnum list list \<Rightarrow> jsnum list list \<Rightarrow> nat \<Rightarrow> jsnum list list" where
  "cholesky_row m L i = foldl (\<lambda>L' j. mat_set L' i j (cholesky_entry m L' i j)) L [0..<Suc i]"

definition choleskyDecomposition :: "jsnum list list \<Rightarrow> jsnum list list" where
  "choleskyDecomposition m =
    (let n = length m
     in foldl (cholesky_row m) (replicate n (replicate n (Num 0))) [0..<n])"

text \<open>\<open>Array.from({ length: n }, () => randomNormal())\<close>.\<close>

fun draw_normals :: "nat \<Rightarrow> rng \<Rightarrow> (jsnum list \<times> rng) option" where
  "draw_normals 0 g = Some ([], g)"
| "draw_normals (Suc k) g =
    (case randomNormal g of None \<Rightarrow> None
     | Some (z, g') \<Rightarrow>
        (case draw_normals k g' of None \<Rightarrow> None
         | Some (zs, g'') \<Rightarrow> Some (z # zs, g'')))"

definition generateCorrelatedRandoms :: "nat \<Rightarrow> jsnum list list \<Rightarrow> rng
    \<Rightarrow> failure + (jsnum list \<times> rng)" where
  "generateCorrelatedRandoms n correlationMatrix g =
    (let L = choleskyDecomposition correlationMatrix
     in case draw_normals n g of None \<Rightarrow> Inl TapeExhausted
        | Some (uncorrelatedRandoms, g') \<Rightarrow>
            if length L < n then Inl TypeError
            else Inr (map (\<lambda>i. foldl (\<lambda>acc j. jadd acc (jmul (mat_get L i j) (row_get uncorrelatedRandoms j)))
                                      (Num 0) [0..<Suc i])
                          [0..<n], g'))"

subsection \<open>Maximum drawdown\<close>

definition path_drawdown :: "jsnum list \<Rightarrow> jsnum" where
  "path_drawdown path =
    snd (foldl (\<lambda>(peak, maxDD) value.
                  (let peak' = (if jlt peak value then value else peak);
                       drawdown = jdiv (jsub peak' value) peak'
                   in (peak', if jlt maxDD drawdown then drawdown else maxDD)))
               (row_get path 0, Num 0) path)"

definition calculateMaxDrawdown :: "jsnum list list \<Rightarrow> jsnum" where
  "calculateMaxDrawdown ps =
    foldl (\<lambda>maxDrawdown' path.
             (let maxDD = path_drawdown path
              in if jlt maxDrawdown' maxDD then maxDD else maxDrawdown'))
          (Num 0) ps"

subsection \<open>The simulation loops\<close>

text \<open>
  \<open>currentAssetPaths\<close> and \<open>assetPaths\<close> are objects keyed by ticker, modelled as maps: two
  assets with one ticker share one entry, as in the source. Every ticker read has been
  initialised, so the empty path returned by \<open>lookup_path\<close> for a missing key never arises.
  \<open>asset_step\<close> is the body of the \<open>forEach\<close> over the assets within a day,
  \<open>portfolio_days\<close> the loop over the days (with the day number and the number of days left),
  \<open>portfolio_paths\<close> the loop over the simulations.
\<close>

definition lookup_path :: "(string \<rightharpoonup> 'a list) \<Rightarrow> string \<Rightarrow> 'a list" where
  "lookup_path m t = (case m t of None \<Rightarrow> [] | Some p \<Rightarrow> p)"

definition asset_step :: "nat \<Rightarrow> jsnum list \<Rightarrow> (string \<rightharpoonup> jsnum list) \<times> jsnum \<Rightarrow> Asset \<times> nat
    \<Rightarrow> (string \<rightharpoonup> jsnum list) \<times> jsnum" where
  "asset_step day randomNumbers st ai =
    (case st of (currentAssetPaths, portfolioValue) \<Rightarrow>
     case ai of (asset, index) \<Rightarrow>
      (let dt = jdiv (Num 1) (Num 252);
           drift = jmul (jsub (assetReturn asset) (jmul (Num 0.5) (jpow (assetVolatility asset) 2))) dt;
           diffusion = jmul (jmul (assetVolatility asset) (jsqrt dt)) (row_get randomNumbers index);
           previousPrice = row_get (lookup_path currentAssetPaths (ticker asset)) (day - 1);
           newPrice = jmul previousPrice (jexp (jadd drift diffusion))
       in (currentAssetPaths(ticker asset \<mapsto> lookup_path currentAssetPaths (ticker asset) @ [newPrice]),
           jadd portfolioValue (jmul newPrice (weight asset)))))"

fun portfolio_days :: "Asset list \<Rightarrow> jsnum list list \<Rightarrow> nat \<Rightarrow> nat \<Rightarrow> (string \<rightharpoonup> jsnum list)
    \<Rightarrow> jsnum list \<Rightarrow> rng \<Rightarrow> failure + (((string \<rightharpoonup> jsnum list) \<times> jsnum list) \<times> rng)" where
  "portfolio_days assetData correlations day 0 currentAssetPaths portfolioPath g =
     Inr ((currentAssetPaths, portfolioPath), g)"
| "portfolio_days assetData correlations day (Suc k) currentAssetPaths portfolioPath g =
    (case generateCorrelatedRandoms (length assetData) correlations g of
       Inl e \<Rightarrow> Inl e
     | Inr (randomNumbers, g') \<Rightarrow>
        (case foldl (asset_step day randomNumbers) (currentAssetPaths, Num 0)
                    (zip assetData [0..<length assetData]) of
           (currentAssetPaths', portfolioValue) \<Rightarrow>
             portfolio_days assetData correlations (Suc day) k currentAssetPaths'
               (portfolioPath @ [portfolioValue]) g'))"

fun portfolio_paths :: "Asset list \<Rightarrow> jsnum list list \<Rightarrow> jsnum \<Rightarrow> nat \<Rightarrow> nat \<Rightarrow> jsnum list list
    \<Rightarrow> jsnum list \<Rightarrow> (string \<rightharpoonup> jsnum list list) \<Rightarrow> rng
    \<Rightarrow> failure + ((jsnum list list \<times> jsnum list \<times> (string \<rightharpoonup> jsnum list list)) \<times> rng)" where
  "portfolio_paths assetData correlations v0 T 0 ps fv ap g = Inr ((ps, fv, ap), g)"
| "portfolio_paths assetData correlations v0 T (Suc n) ps fv ap g =
    (let currentAssetPaths = foldl (\<lambda>m asset. m(ticker asset \<mapsto> [assetPrice asset])) Map.empty assetData
     in case portfolio_days assetData correlations 1 T currentAssetPaths [v0] g of
          Inl e \<Rightarrow> Inl e
        | Inr ((currentAssetPaths', portfolioPath), g') \<Rightarrow>
            portfolio_paths assetData correlations v0 T n
              (ps @ [portfolioPath]) (fv @ [last portfolioPath])
              (foldl (\<lambda>m asset. m(ticker asset \<mapsto>
                         lookup_path m (ticker asset) @ [lookup_path currentAssetPaths' (ticker asset)]))
                     ap assetData)
              g')"

subsection \<open>Statistics and result\<close>

definition portfolio_results :: "jsnum list list \<Rightarrow> jsnum list \<Rightarrow> jsnum
    \<Rightarrow> (string \<rightharpoonup> jsnum list list) \<Rightarrow> PortfolioResults" where
  "portfolio_results portfolioPaths fv v0 ap =
    (let sortedFinalValues = js_sort fv;
         averageEndingValue' = js_mean fv;
         returns = price_returns fv v0;
         averageReturn = js_mean returns;
         returnStd = jsqrt (jdiv (sum_sq_dev returns averageReturn) (js_length returns));
         statistics' =
           \<lparr>averageEndingValue = averageEndingValue',
            pf_probabilityOfGain = jdiv (js_length (filter (\<lambda>val. jlt v0 val) fv)) (js_length fv),
            pf_percentile5 = js_index sortedFinalValues (jfloor (dmul (js_lit 0.05) (js_length fv))),
            pf_percentile95 = js_index sortedFinalValues (jfloor (dmul (js_lit 0.95) (js_length fv))),
            maxValue = js_max fv,
            minValue = js_min fv,
            pf_expectedReturn = jmul averageReturn (Num 252),
            pf_volatility = jmul returnStd (jsqrt (Num 252)),
            pf_sharpeRatio = jdiv (jmul averageReturn (Num 252)) (jmul returnStd (jsqrt (Num 252)))\<rparr>;
         riskMetrics' =
           \<lparr>var95 = jsub v0 (undef_num (js_index sortedFinalValues (jfloor (dmul (js_lit 0.05) (js_length fv))))),
            var99 = jsub v0 (undef_num (js_index sortedFinalValues (jfloor (dmul (js_lit 0.01) (js_length fv))))),
            pf_expectedShortfall =
              jsub v0 (jdiv (js_sum (js_slice0 sortedFinalValues (jfloor (dmul (js_lit 0.05) (js_length fv)))))
                            (jfloor (dmul (js_lit 0.05) (js_length fv)))),
            pf_maxDrawdown = calculateMaxDrawdown portfolioPaths\<rparr>
     in \<lparr>pf_paths = portfolioPaths, finalValues = fv, initialValue = v0, assetPaths = ap,
          pf_statistics = statistics', riskMetrics = riskMetrics'\<rparr>)"

text \<open>The local \<open>initialValue\<close>: the weighted sum of the fetched prices.\<close>

definition portfolio_value :: "Asset list \<Rightarrow> jsnum" where
  "portfolio_value assetData =
     foldl (\<lambda>sum asset. jadd sum (jmul (assetPrice asset) (weight asset))) (Num 0) assetData"

definition runPortfolioSimulation :: "PortfolioParams \<Rightarrow> rng \<Rightarrow> failure + (PortfolioResults \<times> rng)" where
  "runPortfolioSimulation params g =
    (let assetData = assets params;
         v0 = portfolio_value assetData;
         correlations = calculateCorrelationMatrix assetData;
         assetPaths0 = foldl (\<lambda>m asset. m(ticker asset \<mapsto> [])) Map.empty assetData
     in case portfolio_paths assetData correlations v0 (nat (pf_timeHorizon params))
               (nat (pf_numSimulations params)) [] [] assetPaths0 g of
          Inl e \<Rightarrow> Inl e
        | Inr ((ps, fv, ap), g') \<Rightarrow> Inr (portfolio_results ps fv v0 ap, g'))"

subsection \<open>Notions used to state the properties\<close>

text \<open>
  \<open>percentile_index n p\<close> is the index \<open>Math.floor(n * p)\<close> for an array of \<open>n\<close> elements and a
  double \<open>p\<close>: the floor of the product rounded to a double.
\<close>

definition percentile_index :: "nat \<Rightarrow> real \<Rightarrow> nat" where
  "percentile_index n p = nat \<lfloor>double_of (real n * p)\<rfloor>"


definition chol_inv :: "jsnum list list \<Rightarrow> nat \<Rightarrow> jsnum list list \<Rightarrow> nat \<Rightarrow> nat \<Rightarrow> bool" where
  "chol_inv m n L i j =
    (length L = n \<and> (\<forall>r \<in> set L. length r = n)
     \<and> (\<forall>a b. b \<le> a \<and> (a < i \<or> (a = i \<and> b < j)) \<longrightarrow> mat_get L a b = cholesky_entry m L a b))"

section \<open>Concrete inputs used below\<close>

definition invalid_example :: SimulationParams where
  "invalid_example = \<lparr>currentPrice = Num (- 5), expectedReturn = Num 0.1, volatility = Num 0.2,
      timeHorizon = 0, numSimulations = 1\<rparr>"

definition no_days_example :: SimulationParams where
  "no_days_example = \<lparr>currentPrice = Num 100, expectedReturn = Num 0.1, volatility = Num 0.2,
      timeHorizon = - 3, numSimulations = 2\<rparr>"

definition negative_price_example :: SimulationParams where
  "negative_price_example = \<lparr>currentPrice = Num (- 5), expectedReturn = Num 0.1, volatility = Num 0.2,
      timeHorizon = 1, numSimulations = 1\<rparr>"

definition no_days_portfolio :: PortfolioParams where
  "no_days_portfolio =
     \<lparr>assets = [\<lparr>ticker = ''AAPL'', assetName = ''Apple'', weight = Num 1, assetPrice = Num 175.25,
                  assetReturn = Num 0.12, assetVolatility = Num 0.25\<rparr>],
      pf_timeHorizon = 0, pf_numSimulations = 2\<rparr>"

definition three_tech_assets :: "Asset list" where
  "three_tech_assets =
    [\<lparr>ticker = ''AAPL'', assetName = ''Apple'', weight = Num 0.4, assetPrice = Num 175.25,
      assetReturn = Num 0.12, assetVolatility = Num 0.25\<rparr>,
     \<lparr>ticker = ''MSFT'', assetName = ''Microsoft'', weight = Num 0.3, assetPrice = Num 378.5,
      assetReturn = Num 0.11, assetVolatility = Num 0.28\<rparr>,
     \<lparr>ticker = ''GOOGL'', assetName = ''Alphabet'', weight = Num 0.3, assetPrice = Num 142.3,
      assetReturn = Num 0.13, assetVolatility = Num 0.3\<rparr>]"

definition tech_portfolio :: PortfolioParams where
  "tech_portfolio = \<lparr>assets = three_tech_assets, pf_timeHorizon = 1, pf_numSimulations = 1\<rparr>"

definition two_runs_portfolio :: PortfolioParams where
  "two_runs_portfolio =
     \<lparr>assets = [\<lparr>ticker = ''AAPL'', assetName = ''Apple'', weight = Num 1, assetPrice = Num 175.25,
                  assetReturn = Num 0.12, assetVolatility = Num 0.25\<rparr>],
      pf_timeHorizon = 1, pf_numSimulations = 2\<rparr>"

definition fifty_prices :: "real list" where
  "fifty_prices = map real [1..<51]"



section \<open>Options pricing (\<open>OptionsCalculator\<close>)\<close>

text \<open>\<open>dividendYield\<close> is an optional field; when it is absent the destructuring default 0 applies.\<close>

record OptionParameters =
  spot :: jsnum
  strike :: jsnum
  timeToExpiry :: jsnum
  riskFreeRate :: jsnum
  opt_volatility :: jsnum
  dividendYield :: "jsnum option"

record OptionPrice =
  call :: jsnum
  put :: jsnum

record GreeksResult =
  delta :: jsnum
  gamma :: jsnum
  theta :: jsnum
  vega :: jsnum
  rho :: jsnum

datatype optionType = Call | Put

definition normCDF :: "jsnum \<Rightarrow> jsnum" where
  "normCDF x0 =
    (let a1 = Num 0.254829592;
         a2 = Num (- 0.284496736);
         a3 = Num 1.421413741;
         a4 = Num (- 1.453152027);
         a5 = Num 1.061405429;
         p = Num 0.3275911;
         sign = (if jlt x0 (Num 0) then Num (- 1) else Num 1);
         x = jdiv (jabs x0) (jsqrt (Num 2));
         t = jdiv (Num 1) (jadd (Num 1) (jmul p x));
         y = jsub (Num 1)
               (jmul (jmul (jadd (jmul (jadd (jmul (jadd (jmul (jadd (jmul a5 t) a4) t) a3) t) a2) t) a1) t)
                     (jexp (jmul (jneg x) x)))
     in jmul (Num 0.5) (jadd (Num 1) (jmul sign y)))"

definition normPDF :: "jsnum \<Rightarrow> jsnum" where
  "normPDF x = jdiv (jexp (jmul (jmul (Num (- 0.5)) x) x)) (jsqrt (jmul (Num 2) (Num pi)))"

definition yield_or_default :: "OptionParameters \<Rightarrow> jsnum" where
  "yield_or_default params = (case dividendYield params of None \<Rightarrow> Num 0 | Some q \<Rightarrow> q)"

text \<open>The local \<open>d1\<close> and \<open>d2\<close>, computed alike by \<open>blackScholes\<close> and \<open>calculateGreeks\<close>.\<close>

definition bs_d1 :: "OptionParameters \<Rightarrow> jsnum" where
  "bs_d1 params =
    jdiv (jadd (jlog (jdiv (spot params) (strike params)))
               (jmul (jadd (jsub (riskFreeRate params) (yield_or_default params))
                           (jmul (jmul (Num 0.5) (opt_volatility params)) (opt_volatility params)))
                     (timeToExpiry params)))
         (jmul (opt_volatility params) (jsqrt (timeToExpiry params)))"

definition bs_d2 :: "OptionParameters \<Rightarrow> jsnum" where
  "bs_d2 params = jsub (bs_d1 params) (jmul (opt_volatility params) (jsqrt (timeToExpiry params)))"

text \<open>The locals \<open>callPrice\<close> and \<open>putPrice\<close> of \<open>blackScholes\<close>, before the clamp at 0.\<close>

definition callPrice :: "OptionParameters \<Rightarrow> jsnum" where
  "callPrice params =
    jsub (jmul (jmul (spot params) (jexp (jmul (jneg (yield_or_default params)) (timeToExpiry params))))
               (normCDF (bs_d1 params)))
         (jmul (jmul (strike params) (jexp (jmul (jneg (riskFreeRate params)) (timeToExpiry params))))
               (normCDF (bs_d2 params)))"

definition putPrice :: "OptionParameters \<Rightarrow> jsnum" where
  "putPrice params =
    jsub (jmul (jmul (strike params) (jexp (jmul (jneg (riskFreeRate params)) (timeToExpiry params))))
               (normCDF (jneg (bs_d2 params))))
         (jmul (jmul (spot params) (jexp (jmul (jneg (yield_or_default params)) (timeToExpiry params))))
               (normCDF (jneg (bs_d1 params))))"

definition blackScholes :: "OptionParameters \<Rightarrow> OptionPrice" where
  "blackScholes params =
    (if jle (timeToExpiry params) (Num 0)
     then \<lparr>call = jmax2 (jsub (spot params) (strike params)) (Num 0),
           put = jmax2 (jsub (strike params) (spot params)) (Num 0)\<rparr>
     else \<lparr>call = jmax2 (callPrice params) (Num 0), put = jmax2 (putPrice params) (Num 0)\<rparr>)"

definition calculateGreeks :: "OptionParameters \<Rightarrow> optionType \<Rightarrow> GreeksResult" where
  "calculateGreeks params ot =
    (if jle (timeToExpiry params) (Num 0)
     then \<lparr>delta = Num 0, gamma = Num 0, theta = Num 0, vega = Num 0, rho = Num 0\<rparr>
     else
      (let S = spot params; K = strike params; T = timeToExpiry params;
           r = riskFreeRate params; v = opt_volatility params; q = yield_or_default params;
           d1 = bs_d1 params; d2 = bs_d2 params;
           nd1 = normCDF d1; nMinusd1 = normCDF (jneg d1);
           nd2 = normCDF d2; nMinusd2 = normCDF (jneg d2);
           pdf1 = normPDF d1;
           eq = jexp (jmul (jneg q) T);
           er = jexp (jmul (jneg r) T);
           delta' = (case ot of Call \<Rightarrow> jmul eq nd1 | Put \<Rightarrow> jmul (jneg eq) nMinusd1);
           gamma' = jdiv (jmul eq pdf1) (jmul (jmul S v) (jsqrt T));
           term1 = jdiv (jmul (jmul (jmul (jneg S) pdf1) v) eq) (jmul (Num 2) (jsqrt T));
           term2 = jmul (jmul r K) er;
           term3 = jmul (jmul q S) eq;
           theta0 = (case ot of
                       Call \<Rightarrow> jadd (jsub term1 (jmul term2 nd2)) (jmul term3 nd1)
                     | Put \<Rightarrow> jsub (jadd term1 (jmul term2 nMinusd2)) (jmul term3 nMinusd1));
           theta' = jdiv theta0 (Num 365);
           vega' = jdiv (jmul (jmul (jmul S eq) pdf1) (jsqrt T)) (Num 100);
           rho' = (case ot of
                     Call \<Rightarrow> jdiv (jmul (jmul (jmul K T) er) nd2) (Num 100)
                   | Put \<Rightarrow> jdiv (jmul (jmul (jmul (jneg K) T) er) nMinusd2) (Num 100))
       in \<lparr>delta = delta', gamma = gamma', theta = theta', vega = vega', rho = rho'\<rparr>))"

text \<open>
  On a finite argument \<open>normCDF\<close> is a real function: \<open>cdf_poly\<close> is the polynomial in \<open>t\<close>,
  \<open>cdf_y\<close> the local \<open>y\<close>, and \<open>cdf_val\<close> the value returned.
\<close>

definition cdf_poly :: "real \<Rightarrow> real" where
  "cdf_poly t = ((((1.061405429 * t + (- 1.453152027)) * t + 1.421413741) * t + (- 0.284496736)) * t
                  + 0.254829592) * t"

definition cdf_y :: "real \<Rightarrow> real" where
  "cdf_y d = 1 - cdf_poly (1 / (1 + 0.3275911 * (\<bar>d\<bar> / sqrt 2)))
                 * exp (- (\<bar>d\<bar> / sqrt 2) * (\<bar>d\<bar> / sqrt 2))"

definition cdf_val :: "real \<Rightarrow> real" where
  "cdf_val d = 0.5 * (1 + (if d < 0 then - 1 else 1) * cdf_y d)"

text \<open>Two concrete parameter sets used below.\<close>

definition parity_example :: OptionParameters where
  "parity_example = \<lparr>spot = Num 1, strike = Num 1, timeToExpiry = Num 2, riskFreeRate = Num 0,
      opt_volatility = Num 2, dividendYield = None\<rparr>"

definition parity_failure :: OptionParameters where
  "parity_failure = \<lparr>spot = Num 1000000, strike = Num 1000000, timeToExpiry = Num 2,
      riskFreeRate = Num 0, opt_volatility = Num 1, dividendYield = Some (Num 0.5)\<rparr>"

section \<open>Properties of the double arithmetic\<close>

lemma round_half_even_error: "\<bar>of_int (round_half_even q) - q\<bar> \<le> 1 / 2"
  unfolding round_half_even_def Let_def by (auto; linarith)

lemma round_half_even_nonneg: "0 \<le> q \<Longrightarrow> 0 \<le> round_half_even q"
  unfolding round_half_even_def Let_def by (auto; linarith)


lemma double_ulp_pos: "0 < double_ulp x"
  unfolding double_ulp_def by simp

lemma double_ulp_normal:
  assumes "2 powr of_int e \<le> \<bar>x\<bar>" and "\<bar>x\<bar> < 2 powr (of_int e + 1)" and "- 1022 \<le> e"
  shows "double_ulp x = 2 powr (of_int e - 52)"
proof -
  have pos: "0 < \<bar>x\<bar>" using assms(1) by (smt (verit) powr_gt_zero)
  have "\<lfloor>log 2 \<bar>x\<bar>\<rfloor> = e"
    using floor_log_eq_powr_iff [of "\<bar>x\<bar>" 2 e] pos assms by simp
  then show ?thesis unfolding double_ulp_def using assms(3) by simp
qed

text \<open>The value of \<open>round_double\<close> on a number of known binary exponent.\<close>

lemma round_double_normal:
  assumes "2 powr of_int e \<le> \<bar>x\<bar>" and "\<bar>x\<bar> < 2 powr (of_int e + 1)" and "- 1022 \<le> e" and "e \<le> 1022"
  shows "round_double x = Num (of_int (round_half_even (x / 2 powr (of_int e - 52))) * 2 powr (of_int e - 52))"
proof -
  define u :: real where "u = 2 powr (of_int e - 52)"
  have u: "double_ulp x = u" unfolding u_def using double_ulp_normal [OF assms(1,2,3)] .
  have upos: "0 < u" unfolding u_def by simp
  have x0: "x \<noteq> 0" using assms(1) by (smt (verit) powr_gt_zero)
  define n where "n = round_half_even (x / u)"
  have "\<bar>of_int n - x / u\<bar> \<le> 1 / 2" unfolding n_def by (rule round_half_even_error)
  then have "\<bar>of_int n * u - x\<bar> \<le> u / 2"
    using upos by (simp add: field_simps abs_le_iff)
  then have "\<bar>of_int n * u\<bar> \<le> \<bar>x\<bar> + u / 2" by linarith
  also have "\<dots> < 2 powr (of_int e + 1) + u / 2" using assms(2) by simp
  also have "\<dots> \<le> 2 powr 1023 + 2 powr 1023"
  proof -
    have "2 powr (of_int e + 1) \<le> (2::real) powr 1023" using assms(4) by (intro powr_mono) auto
    moreover have "u \<le> 2 powr 1023" unfolding u_def using assms(4) by (intro powr_mono) auto
    ultimately show ?thesis using upos by linarith
  qed
  also have "\<dots> = 2 ^ 1024"
  proof -
    have "(2::real) powr 1023 = 2 ^ 1023" by (simp add: powr_numeral)
    then show ?thesis by simp
  qed
  finally have "\<not> 2 ^ 1024 \<le> \<bar>real_of_int n * u\<bar>" by simp
  then show ?thesis unfolding round_double_def Let_def u n_def [symmetric] u_def [symmetric] using x0 by simp
qed


lemma double_of_normal:
  assumes "2 powr of_int e \<le> \<bar>x\<bar>" and "\<bar>x\<bar> < 2 powr (of_int e + 1)" and "- 1022 \<le> e" and "e \<le> 1022"
  shows "double_of x = of_int (round_half_even (x / 2 powr (of_int e - 52))) * 2 powr (of_int e - 52)"
  using round_double_normal [OF assms] by (simp add: double_of_def)

text \<open>A non-negative real below \<open>2^1023\<close> rounds to a finite non-negative double, within half a spacing.\<close>

lemma round_double_finite:
  assumes "0 \<le> x" and "x < 2 ^ 1023"
  shows "round_double x = Num (double_of x)" and "0 \<le> double_of x"
    and "\<bar>double_of x - x\<bar> \<le> double_ulp x / 2"
proof -
  have "round_double x = Num (double_of x) \<and> 0 \<le> double_of x \<and> \<bar>double_of x - x\<bar> \<le> double_ulp x / 2"
  proof (cases "x = 0")
    case True
    then show ?thesis using double_ulp_pos [of 0] by (simp add: round_double_def double_of_def)
  next
    case False
    then have xpos: "0 < x" using assms(1) by simp
    define u where "u = double_ulp x"
    have upos: "0 < u" unfolding u_def by (rule double_ulp_pos)
    define n where "n = round_half_even (x / u)"
    have nn: "0 \<le> n" unfolding n_def using xpos upos by (intro round_half_even_nonneg) simp
    have "\<bar>of_int n - x / u\<bar> \<le> 1 / 2" unfolding n_def by (rule round_half_even_error)
    then have err: "\<bar>of_int n * u - x\<bar> \<le> u / 2"
      using upos by (simp add: field_simps abs_le_iff)
    have "x < 2 powr 1023" using assms(2) by (simp add: powr_numeral)
    then have "log 2 x < 1023" using log_less_iff [of 2 x 1023] xpos by simp
    then have "\<lfloor>log 2 \<bar>x\<bar>\<rfloor> \<le> 1022" using xpos by (simp add: floor_le_iff)
    then have "u \<le> 2 powr (1022 - 52)"
      unfolding u_def double_ulp_def by (intro powr_mono) auto
    also have "\<dots> = 2 ^ 970" by (simp add: powr_numeral)
    finally have ule: "u \<le> 2 ^ 970" .
    define A :: real where "A = 2 ^ 1023"
    define B :: real where "B = 2 ^ 970"
    have "B \<le> A" unfolding A_def B_def by (intro power_increasing) auto
    moreover have "u \<le> B" "x < A" using ule assms(2) unfolding A_def B_def by simp_all
    moreover have "0 < A" unfolding A_def by simp
    ultimately have "\<bar>of_int n * u\<bar> < A + A" using err upos xpos by linarith
    moreover have "A + A = 2 ^ 1024" unfolding A_def by simp
    ultimately have "\<not> 2 ^ 1024 \<le> \<bar>real_of_int n * u\<bar>" by simp
    then have r: "round_double x = Num (of_int n * u)"
      unfolding round_double_def Let_def u_def [symmetric] n_def [symmetric] using False by simp
    have "0 \<le> of_int n * u" using nn upos by simp
    then show ?thesis using r err by (simp add: double_of_def u_def)
  qed
  then show "round_double x = Num (double_of x)" and "0 \<le> double_of x"
    and "\<bar>double_of x - x\<bar> \<le> double_ulp x / 2" by simp_all
qed

lemma double_ulp_le:
  assumes "0 < x"
  shows "double_ulp x \<le> x / 2 ^ 52 \<or> (double_ulp x = 2 powr (- 1074) \<and> x < 2 powr (- 1022))"
proof (cases "- 1022 \<le> \<lfloor>log 2 x\<rfloor>")
  case True
  define e where "e = \<lfloor>log 2 x\<rfloor>"
  have e: "2 powr of_int e \<le> x"
    using floor_log_eq_powr_iff [of x 2 e] assms unfolding e_def by simp
  have "double_ulp x = 2 powr (of_int e - 52)"
    unfolding double_ulp_def e_def using True assms by simp
  also have "\<dots> = 2 powr of_int e / 2 ^ 52" by (simp add: powr_diff powr_numeral)
  also have "\<dots> \<le> x / 2 ^ 52" using e by (simp add: divide_right_mono)
  finally show ?thesis by simp
next
  case False
  then have lt: "\<lfloor>log 2 x\<rfloor> < - 1022" by simp
  then have "double_ulp x = 2 powr (- 1074)"
    unfolding double_ulp_def using assms by (simp add: max_def)
  moreover have "log 2 x < - 1022" using lt by (simp add: floor_less_iff)
  then have "x < 2 powr (- 1022)" using log_less_iff [of 2 x "- 1022"] assms by simp
  ultimately show ?thesis by simp
qed

lemma double_of_error:
  assumes "2 powr (- 1022) \<le> x" and "x < 2 ^ 1023"
  shows "\<bar>double_of x - x\<bar> \<le> x / 2 ^ 53"
proof -
  have xpos: "0 < x" using assms(1) by (smt (verit) powr_gt_zero)
  from double_ulp_le [OF xpos] assms(1) have "double_ulp x \<le> x / 2 ^ 52" by auto
  then have "double_ulp x / 2 \<le> x / 2 ^ 53" by simp
  moreover have "\<bar>double_of x - x\<bar> \<le> double_ulp x / 2"
    using round_double_finite(3) [of x] xpos assms(2) by simp
  ultimately show ?thesis by linarith
qed

lemma double_of_floor:
  assumes "2 powr (- 1022) \<le> x" and "x < 2 ^ 1023"
    and "of_int k \<le> x - x / 2 ^ 53" and "x + x / 2 ^ 53 < of_int k + 1"
  shows "\<lfloor>double_of x\<rfloor> = k"
proof -
  have "\<bar>double_of x - x\<bar> \<le> x / 2 ^ 53" using assms(1,2) by (rule double_of_error)
  then have "of_int k \<le> double_of x" "double_of x < of_int k + 1" using assms(3,4) by linarith+
  then show ?thesis by (simp add: floor_eq_iff)
qed

lemma round_double_1: "round_double 1 = Num 1"
  using round_double_normal [of 0 1] by (simp add: powr_minus powr_numeral round_half_even_def)



text \<open>The doubles below 1 end at \<open>1 - 2^-53\<close>.\<close>

lemma double_below_one:
  assumes "double_of c = c" and "c < 1"
  shows "c \<le> 1 - 1 / 2 ^ 53"
proof (cases "c < 1 / 2")
  case True
  then show ?thesis by simp
next
  case False
  then have "2 powr of_int (- 1) \<le> \<bar>c\<bar>" "\<bar>c\<bar> < 2 powr (of_int (- 1) + 1)"
    using assms(2) by (simp_all add: powr_minus)
  from double_of_normal [OF this] obtain n :: int where "double_of c = of_int n * 2 powr (- 53)"
    by auto
  then have c: "c = of_int n / 2 ^ 53" using assms(1) by (simp add: powr_minus powr_numeral field_simps)
  then have "real_of_int n < 2 ^ 53" using assms(2) by (simp add: field_simps)
  then have "n < 2 ^ 53" by simp
  then have "n \<le> 2 ^ 53 - 1" by simp
  then have "real_of_int n \<le> 2 ^ 53 - 1" by simp
  then show ?thesis unfolding c by (simp add: field_simps)
qed

text \<open>
  The index \<open>floor (n * p)\<close> computed in doubles, for an array of \<open>n\<close> elements and a double
  \<open>p\<close> in \<open>[0, 1)\<close>, lies within the array.
\<close>

lemma double_index_less:
  assumes "0 \<le> p" and "p \<le> 1 - 1 / 2 ^ 53" and "0 < n" and "n < 2 ^ 32"
  shows "0 \<le> \<lfloor>double_of (real n * p)\<rfloor>" and "nat \<lfloor>double_of (real n * p)\<rfloor> < n"
proof -
  define x where "x = real n * p"
  have x0: "0 \<le> x" unfolding x_def using assms(1) by simp
  have rn: "real n < 2 ^ 32" using assms(4) by simp
  have xle: "x \<le> real n * (1 - 1 / 2 ^ 53)"
    unfolding x_def using assms(2) by (intro mult_left_mono) simp_all
  have "real n * (1 - 1 / 2 ^ 53) \<le> real n" by (simp add: field_simps)
  then have xn: "x \<le> real n" using xle by linarith
  have "(2::real) ^ 32 \<le> 2 ^ 1023" by (intro power_increasing) auto
  then have big: "x < 2 ^ 1023" using xn rn by linarith
  note f = round_double_finite [OF x0 big]
  show "0 \<le> \<lfloor>double_of (real n * p)\<rfloor>" using f(2) by (simp add: x_def)
  have "double_of x < real n"
  proof (cases "x = 0")
    case True
    then show ?thesis using assms(3) by (simp add: double_of_def round_double_def)
  next
    case False
    then have xpos: "0 < x" using x0 by simp
    from double_ulp_le [OF xpos] show ?thesis
    proof
      assume "double_ulp x \<le> x / 2 ^ 52"
      then have "double_ulp x / 2 \<le> x / 2 ^ 53" by simp
      then have "double_of x \<le> x + x / 2 ^ 53" using f(3) by linarith
      also have "\<dots> = x * (1 + 1 / 2 ^ 53)" by (simp add: algebra_simps)
      also have "\<dots> \<le> (real n * (1 - 1 / 2 ^ 53)) * (1 + 1 / 2 ^ 53)"
        using xle by (intro mult_right_mono) simp_all
      also have "\<dots> = real n * ((1 - 1 / 2 ^ 53) * (1 + 1 / 2 ^ 53))" by simp
      also have "\<dots> < real n * 1"
        using assms(3) by (intro mult_strict_left_mono) simp_all
      finally show ?thesis by simp
    next
      assume a: "double_ulp x = 2 powr (- 1074) \<and> x < 2 powr (- 1022)"
      have "(2::real) powr (- 1022) \<le> 2 powr (- 1)" by (intro powr_mono) auto
      then have "x < 1 / 2" using a by (simp add: powr_minus)
      moreover have "(2::real) powr (- 1074) \<le> 2 powr (- 1)" by (intro powr_mono) auto
      then have "double_ulp x \<le> 1 / 2" using a by (simp add: powr_minus)
      ultimately have "double_of x < 1" using f(3) by linarith
      then show ?thesis using assms(3) by linarith
    qed
  qed
  then have "\<lfloor>double_of x\<rfloor> < int n" by (simp add: floor_less_iff)
  then show "nat \<lfloor>double_of (real n * p)\<rfloor> < n" using assms(3) unfolding x_def by linarith
qed

lemma index_product:
  assumes "0 \<le> a" and "0 \<le> p" and "a * p < 2 ^ 1023"
  shows "jfloor (dmul (Num a) (Num p)) = Num (of_int \<lfloor>double_of (a * p)\<rfloor>)"
proof -
  have "0 \<le> a * p" using assms(1,2) by simp
  from round_double_finite(1) [OF this assms(3)] show ?thesis by (simp add: dmul_def)
qed

lemma js_index_double:
  assumes "0 \<le> p" and "p \<le> 1 - 1 / 2 ^ 53" and "ys \<noteq> []" and "length ys < 2 ^ 32"
  shows "js_index (map Num ys) (jfloor (dmul (js_length (map Num ys)) (Num p)))
           = Some (Num (ys ! nat \<lfloor>double_of (real (length ys) * p)\<rfloor>))"
    and "js_index (map Num ys) (jfloor (dmul (Num p) (js_length (map Num ys))))
           = Some (Num (ys ! nat \<lfloor>double_of (real (length ys) * p)\<rfloor>))"
proof -
  have n: "0 < length ys" using assms(3) by simp
  note i = double_index_less [OF assms(1,2) n assms(4)]
  have rn: "real (length ys) < 2 ^ 32" using assms(4) by simp
  have "real (length ys) * p \<le> real (length ys) * 1"
    using assms(2) by (intro mult_left_mono) simp_all
  moreover have "(2::real) ^ 32 \<le> 2 ^ 1023" by (intro power_increasing) auto
  ultimately have big: "real (length ys) * p < 2 ^ 1023" using rn by linarith
  have a: "jfloor (dmul (Num (real (length ys))) (Num p))
             = Num (of_int \<lfloor>double_of (real (length ys) * p)\<rfloor>)"
    using index_product [OF _ assms(1) big] by simp
  have b: "jfloor (dmul (Num p) (Num (real (length ys))))
             = Num (of_int \<lfloor>double_of (real (length ys) * p)\<rfloor>)"
    using a by (simp add: dmul_def mult.commute)
  show "js_index (map Num ys) (jfloor (dmul (js_length (map Num ys)) (Num p)))
           = Some (Num (ys ! nat \<lfloor>double_of (real (length ys) * p)\<rfloor>))"
    unfolding js_length_def length_map a using i by simp
  show "js_index (map Num ys) (jfloor (dmul (Num p) (js_length (map Num ys))))
           = Some (Num (ys ! nat \<lfloor>double_of (real (length ys) * p)\<rfloor>))"
    unfolding js_length_def length_map b using i by simp
qed

text \<open>The literals \<open>0.05\<close>, \<open>0.95\<close> and \<open>0.01\<close> of the source as doubles.\<close>

lemma literal_values:
  "double_of 0.05 = 3602879701896397 / 72057594037927936"
  "double_of 0.95 = 4278419646001971 / 4503599627370496"
  "double_of 0.01 = 5764607523034235 / 576460752303423488"
  using double_of_normal [of "- 5" "0.05"] double_of_normal [of "- 1" "0.95"]
    double_of_normal [of "- 7" "0.01"]
  by (simp_all add: powr_minus powr_numeral round_half_even_def Let_def)

lemma js_lit_finite: "0 \<le> x \<Longrightarrow> x < 2 ^ 1023 \<Longrightarrow> js_lit x = Num (double_of x)"
  unfolding js_lit_def by (rule round_double_finite(1))

lemma js_lit_values:
  "js_lit 0.05 = Num (double_of 0.05)" "js_lit 0.95 = Num (double_of 0.95)"
  "js_lit 0.01 = Num (double_of 0.01)"
  by (rule js_lit_finite; simp)+

lemma literal_bounds:
  "0 \<le> double_of 0.05 \<and> double_of 0.05 \<le> 1 - 1 / 2 ^ 53"
  "0 \<le> double_of 0.95 \<and> double_of 0.95 \<le> 1 - 1 / 2 ^ 53"
  "0 \<le> double_of 0.01 \<and> double_of 0.01 \<le> 1 - 1 / 2 ^ 53"
  unfolding literal_values by simp_all

section \<open>Properties of the single-asset simulation\<close>

lemma draw_nonzero_valid:
  assumes "draw_nonzero g = Some (x, g')" and "valid_tape g"
  shows "\<exists>u. x = Num u \<and> 0 < u \<and> u < 1 \<and> valid_tape g'"
  using assms
proof (induction g)
  case Nil
  then show ?case by simp
next
  case (Cons a g)
  show ?case
  proof (cases "a = 0")
    case True
    with Cons show ?thesis by (simp add: valid_tape_def)
  next
    case False
    with Cons.prems show ?thesis by (auto simp: valid_tape_def)
  qed
qed

lemma randomNormal_finite:
  assumes "randomNormal g = Some (z, g')" and "valid_tape g"
  shows "\<exists>r. z = Num r \<and> valid_tape g'"
proof -
  from assms(1) obtain u g1 v where 1: "draw_nonzero g = Some (u, g1)"
    and 2: "draw_nonzero g1 = Some (v, g')"
    and z: "z = jmul (jsqrt (jmul (Num (- 2)) (jlog u))) (jcos (jmul (jmul (Num 2) (Num pi)) v))"
    by (auto simp: randomNormal_def split: option.splits prod.splits)
  from draw_nonzero_valid [OF 1 assms(2)] obtain a where a: "u = Num a" "0 < a" "a < 1" "valid_tape g1"
    by blast
  from draw_nonzero_valid [OF 2 a(4)] obtain b where b: "v = Num b" "valid_tape g'"
    by blast
  have "ln a < 0" using a(2,3) by simp
  then have "\<not> (- 2 * ln a < 0)" by simp
  with a b z show ?thesis by simp
qed

lemma draw_nonzero_total:
  assumes "0 \<notin> set g" and "g \<noteq> []"
  shows "\<exists>x. draw_nonzero g = Some (x, tl g)"
  using assms by (cases g) auto

lemma randomNormal_total:
  assumes "0 \<notin> set g" and "2 \<le> length g"
  shows "\<exists>z. randomNormal g = Some (z, drop 2 g)"
proof -
  from assms obtain a b g2 where g: "g = a # b # g2"
    by (cases g; cases "tl g") auto
  with assms(1) show ?thesis by (simp add: randomNormal_def)
qed

lemma simulate_days_total:
  assumes "0 \<notin> set g" and "2 * n \<le> length g"
  shows "\<exists>r. simulate_days drift diffusion n price path g = Some (r, drop (2 * n) g)"
  using assms
proof (induction n arbitrary: price path g)
  case 0
  then show ?case by simp
next
  case (Suc n)
  from randomNormal_total [of g] Suc.prems obtain z where z: "randomNormal g = Some (z, drop 2 g)"
    by auto
  have "0 \<notin> set (drop 2 g)" using Suc.prems(1) by (meson in_set_dropD)
  moreover have "2 * n \<le> length (drop 2 g)" using Suc.prems(2) by simp
  ultimately obtain r where
    "simulate_days drift diffusion n (jmul price (jexp (jadd drift (jmul diffusion z))))
       (path @ [jmul price (jexp (jadd drift (jmul diffusion z)))]) (drop 2 g)
      = Some (r, drop (2 * n) (drop 2 g))"
    using Suc.IH by blast
  with z show ?case by (simp add: Let_def add.commute)
qed

lemma simulate_paths_total:
  assumes "0 \<notin> set g" and "2 * T * n \<le> length g"
  shows "\<exists>r. simulate_paths c drift diffusion T n ps fs g = Some (r, drop (2 * T * n) g)"
  using assms
proof (induction n arbitrary: ps fs g)
  case 0
  then show ?case by simp
next
  case (Suc n)
  have "2 * T \<le> length g" using Suc.prems(2) by (simp add: algebra_simps)
  from simulate_days_total [OF Suc.prems(1) this] obtain r where
    r: "simulate_days drift diffusion T c [c] g = Some (r, drop (2 * T) g)" by blast
  obtain path price where pp: "r = (path, price)" by (cases r)
  have "0 \<notin> set (drop (2 * T) g)" using Suc.prems(1) by (meson in_set_dropD)
  moreover have "2 * T * n \<le> length (drop (2 * T) g)" using Suc.prems(2) by (simp add: algebra_simps)
  ultimately obtain r' where
    "simulate_paths c drift diffusion T n (ps @ [path]) (fs @ [price]) (drop (2 * T) g)
       = Some (r', drop (2 * T * n) (drop (2 * T) g))"
    using Suc.IH by blast
  with r pp show ?case by (simp add: algebra_simps)
qed

lemma runMonteCarloSimulation_total:
  assumes "0 \<notin> set g"
    and "2 * nat (timeHorizon params) * nat (numSimulations params) \<le> length g"
  shows "\<exists>res. runMonteCarloSimulation params g
           = Some (res, drop (2 * nat (timeHorizon params) * nat (numSimulations params)) g)"
proof -
  obtain r where "simulate_paths (currentPrice params)
      (jmul (jsub (expectedReturn params) (jmul (jmul (Num 0.5) (volatility params)) (volatility params)))
            (jdiv (Num 1) (Num 252)))
      (jmul (volatility params) (jsqrt (jdiv (Num 1) (Num 252))))
      (nat (timeHorizon params)) (nat (numSimulations params)) [] [] g
     = Some (r, drop (2 * nat (timeHorizon params) * nat (numSimulations params)) g)"
    using simulate_paths_total [OF assms] by blast
  then show ?thesis
    by (cases r) (simp add: runMonteCarloSimulation_def Let_def)
qed

lemma js_insort_replicate: "js_insort x (replicate n x) = x # replicate n x"
  by (cases n; cases x) (simp_all add: jsub_def)

lemma js_sort_replicate: "js_sort (replicate n x) = replicate n x"
proof (induction n)
  case 0
  then show ?case by (simp add: js_sort_def)
next
  case (Suc n)
  then show ?case by (simp add: js_sort_def js_insort_replicate)
qed

lemma simulate_days_zero_vol:
  assumes "simulate_days (Num d) (Num 0) n (Num p) path g = Some ((path', price'), g')"
    and "valid_tape g"
  shows "path' = path @ map (\<lambda>k. Num (p * exp (d * real k))) [1..<Suc n]
         \<and> price' = Num (p * exp (d * real n)) \<and> valid_tape g'"
  using assms
proof (induction n arbitrary: p path g)
  case 0
  then show ?case by simp
next
  case (Suc n)
  from Suc.prems(1) obtain z g1 where z: "randomNormal g = Some (z, g1)"
    by (auto split: option.splits)
  from randomNormal_finite [OF z Suc.prems(2)] obtain r where r: "z = Num r" "valid_tape g1"
    by blast
  from Suc.prems(1) z r have
    "simulate_days (Num d) (Num 0) n (Num (p * exp d)) (path @ [Num (p * exp d)]) g1
       = Some ((path', price'), g')"
    by (simp add: Let_def)
  from Suc.IH [OF this r(2)] have
    ih: "path' = (path @ [Num (p * exp d)]) @ map (\<lambda>k. Num (p * exp d * exp (d * real k))) [1..<Suc n]"
        "price' = Num (p * exp d * exp (d * real n))" "valid_tape g'"
    by simp_all
  have e: "p * exp d * exp (d * real k) = p * exp (d * real (Suc k))" for k
    by (simp add: exp_add [symmetric] algebra_simps)
  have "[1..<Suc (Suc n)] = 1 # map Suc [1..<Suc n]"
    by (metis One_nat_def map_Suc_upt upt_conv_Cons zero_less_Suc Suc_less_eq)
  then have "map (\<lambda>k. Num (p * exp (d * real k))) [1..<Suc (Suc n)]
      = Num (p * exp d) # map (\<lambda>k. Num (p * exp (d * real (Suc k)))) [1..<Suc n]"
    by (simp add: comp_def)
  with ih e show ?case by simp
qed

lemma simulate_paths_zero_vol:
  assumes "simulate_paths (Num c) (Num d) (Num 0) T n ps fs g = Some ((ps', fs'), g')"
    and "valid_tape g"
  shows "ps' = ps @ replicate n (map (\<lambda>k. Num (c * exp (d * real k))) [0..<Suc T])
         \<and> fs' = fs @ replicate n (Num (c * exp (d * real T))) \<and> valid_tape g'"
  using assms
proof (induction n arbitrary: ps fs g)
  case 0
  then show ?case by simp
next
  case (Suc n)
  from Suc.prems(1) obtain path price g1 where
    d: "simulate_days (Num d) (Num 0) T (Num c) [Num c] g = Some ((path, price), g1)"
    by (auto split: option.splits)
  from simulate_days_zero_vol [OF d Suc.prems(2)] have
    p: "path = [Num c] @ map (\<lambda>k. Num (c * exp (d * real k))) [1..<Suc T]"
       "price = Num (c * exp (d * real T))" "valid_tape g1"
    by simp_all
  have "[0..<Suc T] = 0 # [1..<Suc T]" by (simp add: upt_conv_Cons)
  then have "map (\<lambda>k. Num (c * exp (d * real k))) [0..<Suc T]
       = Num c # map (\<lambda>k. Num (c * exp (d * real k))) [1..<Suc T]"
    by simp
  with p have path: "path = map (\<lambda>k. Num (c * exp (d * real k))) [0..<Suc T]" by simp
  from Suc.prems(1) d have
    "simulate_paths (Num c) (Num d) (Num 0) T n (ps @ [path]) (fs @ [price]) g1 = Some ((ps', fs'), g')"
    by simp
  from Suc.IH [OF this p(3)] path p(2) show ?case
    by (simp add: replicate_append_same)
qed

text \<open>
  C1 (amended). In the basic \<open>runMonteCarloSimulation\<close>, for finite \<open>currentPrice\<close> and
  \<open>expectedReturn\<close>, \<open>volatility = 0\<close> and draws in \<open>[0, 1)\<close>, every run that returns has every path
  equal to \<open>currentPrice * exp (drift * day)\<close> at every day, with
  \<open>drift = expectedReturn * (1 / 252)\<close>, and every final price equal to the last of them,
  whatever the draws; and the run does return when the tape holds two non-zero draws per
  simulated day. For the parameters \<open>{100, 0, 0, 10, 1}\<close> the final prices are \<open>[100]\<close>.
\<close>

theorem zero_volatility_deterministic:
  assumes "currentPrice params = Num c" and "expectedReturn params = Num m"
    and "volatility params = Num 0" and "valid_tape g"
  shows "(\<forall>res g'. runMonteCarloSimulation params g = Some (res, g') \<longrightarrow>
            paths res = replicate (nat (numSimulations params))
                          (map (\<lambda>day. Num (c * exp (m * (1 / 252) * real day)))
                               [0..<Suc (nat (timeHorizon params))])
            \<and> finalPrices res = replicate (nat (numSimulations params))
                          (Num (c * exp (m * (1 / 252) * real (nat (timeHorizon params))))))
       \<and> (0 \<notin> set g \<and> 2 * nat (timeHorizon params) * nat (numSimulations params) \<le> length g
            \<longrightarrow> runMonteCarloSimulation params g \<noteq> None)"
proof (intro conjI allI impI)
  fix res g'
  assume run: "runMonteCarloSimulation params g = Some (res, g')"
  then obtain ps fs where
    s: "simulate_paths (Num c) (Num (m * (1 / 252))) (Num 0) (nat (timeHorizon params))
          (nat (numSimulations params)) [] [] g = Some ((ps, fs), g')"
    and res: "res = \<lparr>paths = ps, finalPrices = js_sort fs,
                     statistics = summary_statistics (js_sort fs) (Num c)\<rparr>"
    using assms(1-3)
    by (auto simp: runMonteCarloSimulation_def Let_def jsub_def split: option.splits)
  from simulate_paths_zero_vol [OF s assms(4)] res
  show "paths res = replicate (nat (numSimulations params))
                          (map (\<lambda>day. Num (c * exp (m * (1 / 252) * real day)))
                               [0..<Suc (nat (timeHorizon params))])"
    by simp
  from simulate_paths_zero_vol [OF s assms(4)] res
  show "finalPrices res = replicate (nat (numSimulations params))
                          (Num (c * exp (m * (1 / 252) * real (nat (timeHorizon params)))))"
    by (simp add: js_sort_replicate)
next
  assume "0 \<notin> set g \<and> 2 * nat (timeHorizon params) * nat (numSimulations params) \<le> length g"
  then show "runMonteCarloSimulation params g \<noteq> None"
    using runMonteCarloSimulation_total [of g params] by auto
qed

theorem zero_volatility_deterministic_witness:
  "valid_tape (replicate 20 (1/2)) \<and> 0 \<notin> set (replicate 20 (1/2 :: real)) \<and>
   map_option (finalPrices \<circ> fst) (runMonteCarloSimulation deterministic_example (replicate 20 (1/2)))
     = Some [Num 100]"
proof -
  have v: "valid_tape (replicate 20 (1/2))" by (simp add: valid_tape_def)
  have p: "currentPrice deterministic_example = Num 100" "expectedReturn deterministic_example = Num 0"
    "volatility deterministic_example = Num 0"
    "nat (timeHorizon deterministic_example) = 10" "nat (numSimulations deterministic_example) = 1"
    by (simp_all add: deterministic_example_def)
  note t = zero_volatility_deterministic [OF p(1-3) v]
  have "runMonteCarloSimulation deterministic_example (replicate 20 (1/2)) \<noteq> None"
    using t by (simp add: p)
  then obtain res g' where r: "runMonteCarloSimulation deterministic_example (replicate 20 (1/2)) = Some (res, g')"
    by auto
  with t have "finalPrices res = [Num 100]" by (simp add: p)
  with r v show ?thesis by simp
qed

lemma jump_shock: "randomNormal (1/2 # 1/4 # g) = Some (Num 0, g)"
  by (simp add: randomNormal_def)

lemma first_shock: "\<exists>r. randomNormal (1/2 # 1/2 # g) = Some (Num r, g)"
proof -
  have "ln (1/2 :: real) < 0" by (rule ln_less_zero) simp_all
  then have "\<not> (- 2 * ln (1/2 :: real) < 0)" by simp
  then show ?thesis by (simp add: randomNormal_def del: ln_divide_pos ln_div)
qed

text \<open>
  C1 (as stated). The enhanced \<open>runMonteCarloSimulation\<close> is not deterministic at volatility 0:
  with \<open>{currentPrice: 100, expectedReturn: 0, volatility: 0, timeHorizon: 1, numSimulations: 1}\<close>
  and the draws \<open>1/2, 1/2\<close> (the shock), \<open>1/100\<close> (below the jump intensity 0.02) and
  \<open>1/2, 1/4\<close> (a jump shock of 0), the jump of \<open>-0.05\<close> applies and the final price is
  \<open>100 * exp (-0.05)\<close>, not \<open>100\<close>.
\<close>

theorem zero_volatility_jump_counterexample:
  "map_option (finalPrices \<circ> fst)
     (runMonteCarloSimulation_enhanced jump_example [1/2, 1/2, 1/100, 1/2, 1/4])
     = Some [Num (100 * exp (- (1/20)))]
   \<and> Num (100 * exp (- (1/20))) \<noteq> Num 100"
proof -
  obtain r where r: "randomNormal (1/2 # 1/2 # [1/100, 1/2, 1/4]) = Some (Num r, [1/100, 1/2, 1/4])"
    using first_shock by blast
  have a: "enhanced_priceChange (Num 0) (Num 0) [1/2, 1/2, 1/100, 1/2, 1/4] = Some (Num (- (1/20)), [])"
    by (simp add: enhanced_priceChange_def r jump_shock)
  have b: "simulate_days_enhanced (Num 0) (Num 0) (Suc 0) (Num 100) [Num 100] [1/2, 1/2, 1/100, 1/2, 1/4]
      = Some (([Num 100, Num (100 * exp (- (1/20)))], Num (100 * exp (- (1/20)))), [])"
    by (simp add: a Let_def)
  have c: "simulate_paths_enhanced (Num 100) (Num 0) (Num 0) (Suc 0) (Suc 0) [] [] [1/2, 1/2, 1/100, 1/2, 1/4]
      = Some (([[Num 100, Num (100 * exp (- (1/20)))]], [Num (100 * exp (- (1/20)))]), [])"
    by (simp add: b del: simulate_days_enhanced.simps)
  show ?thesis
    by (simp add: runMonteCarloSimulation_enhanced_def jump_example_def jsub_def js_sort_def c Let_def
             del: simulate_paths_enhanced.simps)
qed

subsection \<open>The returned final prices\<close>

lemma jle_trans: "jle a b \<Longrightarrow> jle b c \<Longrightarrow> jle a c"
  by (cases a; cases b; cases c) simp_all

lemma cmp_pos_iff: "x \<noteq> NaN \<Longrightarrow> y \<noteq> NaN \<Longrightarrow> jlt (Num 0) (jsub x y) = jlt y x"
  by (cases x; cases y) (simp_all add: jsub_def)

lemma not_jlt_iff: "x \<noteq> NaN \<Longrightarrow> y \<noteq> NaN \<Longrightarrow> (\<not> jlt y x) = jle x y"
  by (cases x; cases y) auto

lemma jlt_imp_jle: "jlt y x \<Longrightarrow> jle y x"
  by (cases x; cases y) auto

lemma set_js_insort: "set (js_insort x ys) = insert x (set ys)"
  by (induction ys) auto

lemma mset_js_insort: "mset (js_insort x ys) = add_mset x (mset ys)"
  by (induction ys) auto

lemma mset_js_sort: "mset (js_sort xs) = mset xs"
  by (induction xs) (simp_all add: js_sort_def mset_js_insort)

lemma sorted_js_insort:
  assumes "sorted_wrt jle ys" and "x \<noteq> NaN" and "NaN \<notin> set ys"
  shows "sorted_wrt jle (js_insort x ys)"
  using assms
proof (induction ys)
  case Nil
  then show ?case by simp
next
  case (Cons y ys)
  have yn: "y \<noteq> NaN" using Cons.prems(3) by auto
  show ?case
  proof (cases "jlt y x")
    case True
    then have "jlt (Num 0) (jsub x y)" using cmp_pos_iff [OF Cons.prems(2) yn] by simp
    moreover have "sorted_wrt jle (js_insort x ys)" using Cons by simp
    moreover have "\<forall>z \<in> set (js_insort x ys). jle y z"
      using Cons.prems(1) True by (auto simp: set_js_insort jlt_imp_jle)
    ultimately show ?thesis by simp
  next
    case False
    then have n: "\<not> jlt (Num 0) (jsub x y)" using cmp_pos_iff [OF Cons.prems(2) yn] by simp
    from False have xy: "jle x y" using not_jlt_iff [OF Cons.prems(2) yn] by simp
    have "\<forall>z \<in> set ys. jle x z"
      using Cons.prems(1) xy by (auto intro: jle_trans)
    with n xy Cons.prems(1) show ?thesis by simp
  qed
qed

lemma sorted_js_sort: "NaN \<notin> set xs \<Longrightarrow> sorted_wrt jle (js_sort xs)"
proof (induction xs)
  case Nil
  then show ?case by (simp add: js_sort_def)
next
  case (Cons x xs)
  have "NaN \<notin> set (js_sort xs)"
    using Cons.prems by (metis mset_js_sort set_mset_mset list.set_intros(2))
  moreover have "x \<noteq> NaN" using Cons.prems by auto
  moreover have "sorted_wrt jle (js_sort xs)" using Cons by simp
  ultimately have "sorted_wrt jle (js_insort x (js_sort xs))"
    by (intro sorted_js_insort)
  then show ?case by (simp add: js_sort_def)
qed

lemma js_insort_Num: "js_insort (Num x) (map Num ys) = map Num (insort x ys)"
  by (induction ys) (auto simp: jsub_def)

lemma js_sort_Num: "js_sort (map Num xs) = map Num (sort xs)"
  by (induction xs) (simp_all add: js_sort_def js_insort_Num)

lemma simulate_days_last:
  assumes "simulate_days drift diffusion n price path g = Some ((path', price'), g')"
    and "path \<noteq> []" and "last path = price"
  shows "path' \<noteq> [] \<and> last path' = price'"
  using assms
proof (induction n arbitrary: price path g)
  case 0
  then show ?case by auto
next
  case (Suc n)
  from Suc.prems(1) obtain z g1 where z: "randomNormal g = Some (z, g1)"
    by (auto split: option.splits)
  define p1 where "p1 = jmul price (jexp (jadd drift (jmul diffusion z)))"
  from Suc.prems(1) z have
    "simulate_days drift diffusion n p1 (path @ [p1]) g1 = Some ((path', price'), g')"
    by (simp add: Let_def p1_def)
  from Suc.IH [OF this] show ?case by simp
qed

lemma simulate_paths_last:
  assumes "simulate_paths c drift diffusion T n ps fs g = Some ((ps', fs'), g')"
    and "fs = map last ps"
  shows "fs' = map last ps'"
  using assms
proof (induction n arbitrary: ps fs g)
  case 0
  then show ?case by auto
next
  case (Suc n)
  from Suc.prems(1) obtain path price g1 where
    d: "simulate_days drift diffusion T c [c] g = Some ((path, price), g1)"
    and r: "simulate_paths c drift diffusion T n (ps @ [path]) (fs @ [price]) g1 = Some ((ps', fs'), g')"
    by (auto split: option.splits)
  from simulate_days_last [OF d] have "last path = price" by simp
  with Suc.prems(2) have "fs @ [price] = map last (ps @ [path])" by simp
  from Suc.IH [OF r this] show ?case .
qed

lemma simulate_days_finite:
  assumes "simulate_days (Num d) (Num s) n (Num p) path g = Some ((path', price'), g')"
    and "valid_tape g"
  shows "price' \<in> range Num \<and> valid_tape g'"
  using assms
proof (induction n arbitrary: p path g)
  case 0
  then show ?case by auto
next
  case (Suc n)
  from Suc.prems(1) obtain z g1 where z: "randomNormal g = Some (z, g1)"
    by (auto split: option.splits)
  from randomNormal_finite [OF z Suc.prems(2)] obtain r where r: "z = Num r" "valid_tape g1"
    by blast
  from Suc.prems(1) z r have
    "simulate_days (Num d) (Num s) n (Num (p * exp (d + s * r))) (path @ [Num (p * exp (d + s * r))]) g1
       = Some ((path', price'), g')"
    by (simp add: Let_def)
  from Suc.IH [OF this r(2)] show ?case .
qed

lemma simulate_paths_finite:
  assumes "simulate_paths (Num c) (Num d) (Num s) T n ps fs g = Some ((ps', fs'), g')"
    and "valid_tape g" and "set fs \<subseteq> range Num"
  shows "set fs' \<subseteq> range Num"
  using assms
proof (induction n arbitrary: ps fs g)
  case 0
  then show ?case by simp
next
  case (Suc n)
  from Suc.prems(1) obtain path price g1 where
    d: "simulate_days (Num d) (Num s) T (Num c) [Num c] g = Some ((path, price), g1)"
    and r: "simulate_paths (Num c) (Num d) (Num s) T n (ps @ [path]) (fs @ [price]) g1 = Some ((ps', fs'), g')"
    by (auto split: option.splits)
  from simulate_days_finite [OF d Suc.prems(2)] have f: "price \<in> range Num" "valid_tape g1"
    by simp_all
  with Suc.prems(3) have "set (fs @ [price]) \<subseteq> range Num" by simp
  from Suc.IH [OF r f(2) this] show ?case .
qed

lemma math_random_valid:
  assumes "math_random g = Some (w, g')" and "valid_tape g"
  shows "w \<in> range Num \<and> valid_tape g'"
  using assms by (cases g) (auto simp: valid_tape_def)

lemma enhanced_priceChange_finite:
  assumes "enhanced_priceChange (Num d) (Num s) g = Some (pc, g')" and "valid_tape g"
  shows "pc \<in> range Num \<and> valid_tape g'"
proof -
  from assms(1) obtain z g1 w g2 where z: "randomNormal g = Some (z, g1)"
    and w: "math_random g1 = Some (w, g2)"
    by (auto simp: enhanced_priceChange_def Let_def split: option.splits)
  from randomNormal_finite [OF z assms(2)] obtain r where r: "z = Num r" "valid_tape g1"
    by blast
  from math_random_valid [OF w r(2)] have g2: "valid_tape g2" by simp
  show ?thesis
  proof (cases "jlt w (Num 0.02)")
    case True
    with assms(1) z w obtain z' where z': "randomNormal g2 = Some (z', g')"
      and pc: "pc = jadd (jadd (Num d) (jmul (Num s) z)) (jadd (Num (- 0.05)) (jmul (Num 0.1) z'))"
      by (auto simp: enhanced_priceChange_def Let_def split: option.splits)
    from randomNormal_finite [OF z' g2] obtain r' where "z' = Num r'" "valid_tape g'"
      by blast
    with pc r show ?thesis by simp
  next
    case False
    with assms(1) z w have "pc = jadd (Num d) (jmul (Num s) z)" "g' = g2"
      by (auto simp: enhanced_priceChange_def Let_def split: option.splits)
    with r g2 show ?thesis by simp
  qed
qed

lemma simulate_days_enhanced_last:
  assumes "simulate_days_enhanced drift diffusion n price path g = Some ((path', price'), g')"
    and "path \<noteq> []" and "last path = price"
  shows "path' \<noteq> [] \<and> last path' = price'"
  using assms
proof (induction n arbitrary: price path g)
  case 0
  then show ?case by auto
next
  case (Suc n)
  from Suc.prems(1) obtain pc g1 where pc: "enhanced_priceChange drift diffusion g = Some (pc, g1)"
    by (auto split: option.splits)
  define p1 where "p1 = jmul price (jexp pc)"
  from Suc.prems(1) pc have
    "simulate_days_enhanced drift diffusion n p1 (path @ [p1]) g1 = Some ((path', price'), g')"
    by (simp add: Let_def p1_def)
  from Suc.IH [OF this] show ?case by simp
qed

lemma simulate_paths_enhanced_last:
  assumes "simulate_paths_enhanced c drift diffusion T n ps fs g = Some ((ps', fs'), g')"
    and "fs = map last ps"
  shows "fs' = map last ps'"
  using assms
proof (induction n arbitrary: ps fs g)
  case 0
  then show ?case by auto
next
  case (Suc n)
  from Suc.prems(1) obtain path price g1 where
    d: "simulate_days_enhanced drift diffusion T c [c] g = Some ((path, price), g1)"
    and r: "simulate_paths_enhanced c drift diffusion T n (ps @ [path]) (fs @ [price]) g1 = Some ((ps', fs'), g')"
    by (auto split: option.splits)
  from simulate_days_enhanced_last [OF d] have "last path = price" by simp
  with Suc.prems(2) have "fs @ [price] = map last (ps @ [path])" by simp
  from Suc.IH [OF r this] show ?case .
qed

lemma simulate_days_enhanced_finite:
  assumes "simulate_days_enhanced (Num d) (Num s) n (Num p) path g = Some ((path', price'), g')"
    and "valid_tape g"
  shows "price' \<in> range Num \<and> valid_tape g'"
  using assms
proof (induction n arbitrary: p path g)
  case 0
  then show ?case by auto
next
  case (Suc n)
  from Suc.prems(1) obtain pc g1 where pc: "enhanced_priceChange (Num d) (Num s) g = Some (pc, g1)"
    by (auto split: option.splits)
  from enhanced_priceChange_finite [OF pc Suc.prems(2)] obtain r where r: "pc = Num r" "valid_tape g1"
    by blast
  from Suc.prems(1) pc r have
    "simulate_days_enhanced (Num d) (Num s) n (Num (p * exp r)) (path @ [Num (p * exp r)]) g1
       = Some ((path', price'), g')"
    by (simp add: Let_def)
  from Suc.IH [OF this r(2)] show ?case .
qed

lemma simulate_paths_enhanced_finite:
  assumes "simulate_paths_enhanced (Num c) (Num d) (Num s) T n ps fs g = Some ((ps', fs'), g')"
    and "valid_tape g" and "set fs \<subseteq> range Num"
  shows "set fs' \<subseteq> range Num"
  using assms
proof (induction n arbitrary: ps fs g)
  case 0
  then show ?case by simp
next
  case (Suc n)
  from Suc.prems(1) obtain path price g1 where
    d: "simulate_days_enhanced (Num d) (Num s) T (Num c) [Num c] g = Some ((path, price), g1)"
    and r: "simulate_paths_enhanced (Num c) (Num d) (Num s) T n (ps @ [path]) (fs @ [price]) g1 = Some ((ps', fs'), g')"
    by (auto split: option.splits)
  from simulate_days_enhanced_finite [OF d Suc.prems(2)] have f: "price \<in> range Num" "valid_tape g1"
    by simp_all
  with Suc.prems(3) have "set (fs @ [price]) \<subseteq> range Num" by simp
  from Suc.IH [OF r f(2) this] show ?case .
qed

lemma finish_sorted:
  assumes "set fs \<subseteq> range Num" and "fs = map last ps"
  shows "sorted_wrt jle (js_sort fs) \<and> mset (js_sort fs) = mset (map last ps)"
proof -
  have "NaN \<notin> set fs" using assms(1) by auto
  then show ?thesis using assms(2) by (simp add: sorted_js_sort mset_js_sort)
qed

lemma drop_zero_free: "0 \<notin> set g \<Longrightarrow> 0 \<notin> set (drop k g)"
  by (meson in_set_dropD)

lemma math_random_total:
  assumes "g \<noteq> []"
  shows "\<exists>w. math_random g = Some (w, drop 1 g)"
  using assms by (cases g) simp_all

lemma enhanced_priceChange_total:
  assumes "0 \<notin> set g" and "5 \<le> length g"
  shows "\<exists>pc k. k \<le> 5 \<and> enhanced_priceChange drift diffusion g = Some (pc, drop k g)"
proof -
  from randomNormal_total [of g] assms obtain z where z: "randomNormal g = Some (z, drop 2 g)"
    by auto
  have "drop 2 g \<noteq> []" using assms(2) by simp
  from math_random_total [OF this] obtain w where "math_random (drop 2 g) = Some (w, drop 1 (drop 2 g))"
    by blast
  moreover have "drop 1 (drop 2 g) = drop 3 g" by (simp add: numeral_3_eq_3)
  ultimately have w: "math_random (drop 2 g) = Some (w, drop 3 g)" by simp
  show ?thesis
  proof (cases "jlt w (Num 0.02)")
    case True
    have "0 \<notin> set (drop 3 g)" by (rule drop_zero_free [OF assms(1)])
    moreover have "2 \<le> length (drop 3 g)" using assms(2) by simp
    ultimately obtain z' where "randomNormal (drop 3 g) = Some (z', drop 2 (drop 3 g))"
      using randomNormal_total by blast
    then have "randomNormal (drop 3 g) = Some (z', drop 5 g)" by simp
    with z w True have "enhanced_priceChange drift diffusion g
        = Some (jadd (jadd drift (jmul diffusion z)) (jadd (Num (- 0.05)) (jmul (Num 0.1) z')), drop 5 g)"
      by (simp add: enhanced_priceChange_def Let_def)
    then show ?thesis by (intro exI [of _ 5] exI) simp
  next
    case False
    with z w have "enhanced_priceChange drift diffusion g
        = Some (jadd drift (jmul diffusion z), drop 3 g)"
      by (simp add: enhanced_priceChange_def Let_def)
    then show ?thesis by (intro exI [of _ 3] exI) simp
  qed
qed

lemma simulate_days_enhanced_total:
  assumes "0 \<notin> set g" and "5 * n \<le> length g"
  shows "\<exists>r k. k \<le> 5 * n \<and> simulate_days_enhanced drift diffusion n price path g = Some (r, drop k g)"
  using assms
proof (induction n arbitrary: price path g)
  case 0
  then show ?case by (intro exI [of _ 0] exI) simp
next
  case (Suc n)
  have "5 \<le> length g" using Suc.prems(2) by simp
  from enhanced_priceChange_total [OF Suc.prems(1) this] obtain pc k where
    k: "k \<le> 5" and pc: "enhanced_priceChange drift diffusion g = Some (pc, drop k g)" by blast
  have "5 * n \<le> length (drop k g)" using Suc.prems(2) k by simp
  with Suc.IH [OF drop_zero_free [OF Suc.prems(1)]] obtain r k' where
    k': "k' \<le> 5 * n" and
    "simulate_days_enhanced drift diffusion n (jmul price (jexp pc)) (path @ [jmul price (jexp pc)]) (drop k g)
       = Some (r, drop k' (drop k g))" by blast
  with pc have "simulate_days_enhanced drift diffusion (Suc n) price path g = Some (r, drop (k' + k) g)"
    by (simp add: Let_def)
  moreover have "k' + k \<le> 5 * Suc n" using k k' by simp
  ultimately show ?case by blast
qed

lemma simulate_paths_enhanced_total:
  assumes "0 \<notin> set g" and "5 * T * n \<le> length g"
  shows "\<exists>r k. k \<le> 5 * T * n
           \<and> simulate_paths_enhanced c drift diffusion T n ps fs g = Some (r, drop k g)"
  using assms
proof (induction n arbitrary: ps fs g)
  case 0
  then show ?case by (intro exI [of _ 0] exI) simp
next
  case (Suc n)
  have "5 * T \<le> length g" using Suc.prems(2) by (simp add: algebra_simps)
  from simulate_days_enhanced_total [OF Suc.prems(1) this] obtain r k where
    k: "k \<le> 5 * T" and r: "simulate_days_enhanced drift diffusion T c [c] g = Some (r, drop k g)"
    by blast
  obtain path price where rp: "r = (path, price)" by (cases r)
  have "5 * T * n \<le> length (drop k g)" using Suc.prems(2) k by (simp add: algebra_simps)
  with Suc.IH [OF drop_zero_free [OF Suc.prems(1)]] obtain r' k' where
    k': "k' \<le> 5 * T * n" and
    "simulate_paths_enhanced c drift diffusion T n (ps @ [path]) (fs @ [price]) (drop k g)
       = Some (r', drop k' (drop k g))" by blast
  with r rp have "simulate_paths_enhanced c drift diffusion T (Suc n) ps fs g = Some (r', drop (k' + k) g)"
    by simp
  moreover have "k' + k \<le> 5 * T * Suc n" using k k' by (simp add: algebra_simps)
  ultimately show ?case by blast
qed

lemma runMonteCarloSimulation_enhanced_total:
  assumes "0 \<notin> set g"
    and "5 * nat (timeHorizon params) * nat (numSimulations params) \<le> length g"
  shows "runMonteCarloSimulation_enhanced params g \<noteq> None"
proof -
  obtain r k where "simulate_paths_enhanced (currentPrice params)
      (jmul (jsub (expectedReturn params) (jmul (jmul (Num 0.5) (volatility params)) (volatility params)))
            (jdiv (Num 1) (Num 252)))
      (jmul (volatility params) (jsqrt (jdiv (Num 1) (Num 252))))
      (nat (timeHorizon params)) (nat (numSimulations params)) [] [] g
     = Some (r, drop k g)"
    using simulate_paths_enhanced_total [OF assms] by blast
  then show ?thesis
    by (cases r) (simp add: runMonteCarloSimulation_enhanced_def Let_def)
qed

lemma simulate_days_shape:
  assumes "simulate_days drift diffusion n price path g = Some ((path', price'), g')"
  shows "\<exists>zs. path' = path @ zs \<and> length zs = n"
  using assms
proof (induction n arbitrary: price path g)
  case 0
  then show ?case by auto
next
  case (Suc n)
  from Suc.prems(1) obtain z g1 where z: "randomNormal g = Some (z, g1)"
    by (auto split: option.splits)
  define p1 where "p1 = jmul price (jexp (jadd drift (jmul diffusion z)))"
  from Suc.prems(1) z have
    "simulate_days drift diffusion n p1 (path @ [p1]) g1 = Some ((path', price'), g')"
    by (simp add: Let_def p1_def)
  from Suc.IH [OF this] obtain zs where "path' = (path @ [p1]) @ zs" "length zs = n" by blast
  then have "path' = path @ (p1 # zs) \<and> length (p1 # zs) = Suc n" by simp
  then show ?case by blast
qed

lemma simulate_days_enhanced_shape:
  assumes "simulate_days_enhanced drift diffusion n price path g = Some ((path', price'), g')"
  shows "\<exists>zs. path' = path @ zs \<and> length zs = n"
  using assms
proof (induction n arbitrary: price path g)
  case 0
  then show ?case by auto
next
  case (Suc n)
  from Suc.prems(1) obtain pc g1 where pc: "enhanced_priceChange drift diffusion g = Some (pc, g1)"
    by (auto split: option.splits)
  define p1 where "p1 = jmul price (jexp pc)"
  from Suc.prems(1) pc have
    "simulate_days_enhanced drift diffusion n p1 (path @ [p1]) g1 = Some ((path', price'), g')"
    by (simp add: Let_def p1_def)
  from Suc.IH [OF this] obtain zs where "path' = (path @ [p1]) @ zs" "length zs = n" by blast
  then have "path' = path @ (p1 # zs) \<and> length (p1 # zs) = Suc n" by simp
  then show ?case by blast
qed

lemma simulate_paths_shape:
  assumes "simulate_paths c drift diffusion T n ps fs g = Some ((ps', fs'), g')"
  shows "\<exists>qs. ps' = ps @ qs \<and> length qs = n \<and> (\<forall>p \<in> set qs. length p = Suc T \<and> hd p = c)"
  using assms
proof (induction n arbitrary: ps fs g)
  case 0
  then show ?case by auto
next
  case (Suc n)
  from Suc.prems(1) obtain path price g1 where
    d: "simulate_days drift diffusion T c [c] g = Some ((path, price), g1)"
    and r: "simulate_paths c drift diffusion T n (ps @ [path]) (fs @ [price]) g1 = Some ((ps', fs'), g')"
    by (auto split: option.splits)
  from simulate_days_shape [OF d] obtain zs where zs: "path = [c] @ zs" "length zs = T" by blast
  from Suc.IH [OF r] obtain qs where
    qs: "ps' = (ps @ [path]) @ qs" "length qs = n" "\<forall>p \<in> set qs. length p = Suc T \<and> hd p = c"
    by blast
  have "ps' = ps @ (path # qs) \<and> length (path # qs) = Suc n
          \<and> (\<forall>p \<in> set (path # qs). length p = Suc T \<and> hd p = c)"
    using qs zs by simp
  then show ?case by blast
qed

lemma simulate_paths_enhanced_shape:
  assumes "simulate_paths_enhanced c drift diffusion T n ps fs g = Some ((ps', fs'), g')"
  shows "\<exists>qs. ps' = ps @ qs \<and> length qs = n \<and> (\<forall>p \<in> set qs. length p = Suc T \<and> hd p = c)"
  using assms
proof (induction n arbitrary: ps fs g)
  case 0
  then show ?case by auto
next
  case (Suc n)
  from Suc.prems(1) obtain path price g1 where
    d: "simulate_days_enhanced drift diffusion T c [c] g = Some ((path, price), g1)"
    and r: "simulate_paths_enhanced c drift diffusion T n (ps @ [path]) (fs @ [price]) g1
              = Some ((ps', fs'), g')"
    by (auto split: option.splits)
  from simulate_days_enhanced_shape [OF d] obtain zs where zs: "path = [c] @ zs" "length zs = T"
    by blast
  from Suc.IH [OF r] obtain qs where
    qs: "ps' = (ps @ [path]) @ qs" "length qs = n" "\<forall>p \<in> set qs. length p = Suc T \<and> hd p = c"
    by blast
  have "ps' = ps @ (path # qs) \<and> length (path # qs) = Suc n
          \<and> (\<forall>p \<in> set (path # qs). length p = Suc T \<and> hd p = c)"
    using qs zs by simp
  then show ?case by blast
qed

lemma negative_shock: "\<exists>r<0. randomNormal (1/2 # 1/2 # g) = Some (Num r, g)"
proof -
  have "ln (1/2 :: real) < 0" by (rule ln_less_zero) simp_all
  then have p: "0 < - 2 * ln (1/2 :: real)" by simp
  then have n: "\<not> (- 2 * ln (1/2 :: real) < 0)" by simp
  have "randomNormal (1/2 # 1/2 # g) = Some (Num (sqrt (- 2 * ln (1/2)) * cos (2 * pi * (1/2))), g)"
    using n by (simp add: randomNormal_def del: ln_divide_pos ln_div)
  moreover have "sqrt (- 2 * ln (1/2)) * cos (2 * pi * (1/2)) < 0"
    using p by (simp del: ln_divide_pos ln_div)
  ultimately show ?thesis by blast
qed

text \<open>
  C10. For finite parameters and draws in \<open>[0, 1)\<close>, every run of \<open>runMonteCarloSimulation\<close>
  (basic or enhanced) that returns has one path per simulation, each starting at
  \<open>currentPrice\<close> and holding one price per day after it, and has its \<open>finalPrices\<close> in
  ascending order and a permutation of the last elements of the returned \<open>paths\<close>: the array is
  sorted in place before the statistics are taken, and the sorted array is the one returned.
  Both versions do return when the tape holds five non-zero draws per simulated day. The
  correspondence by index is lost: in the two runs of the witness below, one of each version,
  the two final prices differ and \<open>finalPrices[0]\<close> is the last element of \<open>paths[1]\<close>, not of
  \<open>paths[0]\<close>.
\<close>

theorem finalPrices_sorted_permutation:
  assumes "currentPrice params = Num c" and "expectedReturn params = Num m"
    and "volatility params = Num s" and "valid_tape g"
  shows "(\<forall>res g'. runMonteCarloSimulation params g = Some (res, g') \<longrightarrow>
            sorted_wrt jle (finalPrices res) \<and> mset (finalPrices res) = mset (map last (paths res))
            \<and> length (paths res) = nat (numSimulations params)
            \<and> (\<forall>p \<in> set (paths res). length p = Suc (nat (timeHorizon params)) \<and> hd p = Num c))
       \<and> (\<forall>res g'. runMonteCarloSimulation_enhanced params g = Some (res, g') \<longrightarrow>
            sorted_wrt jle (finalPrices res) \<and> mset (finalPrices res) = mset (map last (paths res))
            \<and> length (paths res) = nat (numSimulations params)
            \<and> (\<forall>p \<in> set (paths res). length p = Suc (nat (timeHorizon params)) \<and> hd p = Num c))
       \<and> (0 \<notin> set g \<and> 5 * nat (timeHorizon params) * nat (numSimulations params) \<le> length g \<longrightarrow>
            runMonteCarloSimulation params g \<noteq> None \<and> runMonteCarloSimulation_enhanced params g \<noteq> None)"
proof -
  have basic: "sorted_wrt jle (finalPrices res) \<and> mset (finalPrices res) = mset (map last (paths res))
            \<and> length (paths res) = nat (numSimulations params)
            \<and> (\<forall>p \<in> set (paths res). length p = Suc (nat (timeHorizon params)) \<and> hd p = Num c)"
    if "runMonteCarloSimulation params g = Some (res, g')" for res g'
  proof -
    from that obtain ps fs where
      s: "simulate_paths (Num c) (Num ((m - 0.5 * s * s) * (1 / 252))) (Num (s * sqrt (1 / 252)))
            (nat (timeHorizon params)) (nat (numSimulations params)) [] [] g = Some ((ps, fs), g')"
      and res: "paths res = ps" "finalPrices res = js_sort fs"
      using assms(1-3)
      by (auto simp: runMonteCarloSimulation_def Let_def jsub_def split: option.splits)
    from simulate_paths_shape [OF s] have
      "length ps = nat (numSimulations params)
       \<and> (\<forall>p \<in> set ps. length p = Suc (nat (timeHorizon params)) \<and> hd p = Num c)"
      by auto
    with simulate_paths_finite [OF s assms(4)] simulate_paths_last [OF s] res
    show ?thesis using finish_sorted [of fs ps] by simp
  qed
  have enhanced: "sorted_wrt jle (finalPrices res) \<and> mset (finalPrices res) = mset (map last (paths res))
            \<and> length (paths res) = nat (numSimulations params)
            \<and> (\<forall>p \<in> set (paths res). length p = Suc (nat (timeHorizon params)) \<and> hd p = Num c)"
    if "runMonteCarloSimulation_enhanced params g = Some (res, g')" for res g'
  proof -
    from that obtain ps fs where
      s: "simulate_paths_enhanced (Num c) (Num ((m - 0.5 * s * s) * (1 / 252))) (Num (s * sqrt (1 / 252)))
            (nat (timeHorizon params)) (nat (numSimulations params)) [] [] g = Some ((ps, fs), g')"
      and res: "paths res = ps" "finalPrices res = js_sort fs"
      using assms(1-3)
      by (auto simp: runMonteCarloSimulation_enhanced_def Let_def jsub_def split: option.splits)
    from simulate_paths_enhanced_shape [OF s] have
      "length ps = nat (numSimulations params)
       \<and> (\<forall>p \<in> set ps. length p = Suc (nat (timeHorizon params)) \<and> hd p = Num c)"
      by auto
    with simulate_paths_enhanced_finite [OF s assms(4)] simulate_paths_enhanced_last [OF s] res
    show ?thesis using finish_sorted [of fs ps] by simp
  qed
  have total: "runMonteCarloSimulation params g \<noteq> None \<and> runMonteCarloSimulation_enhanced params g \<noteq> None"
    if "0 \<notin> set g" "5 * nat (timeHorizon params) * nat (numSimulations params) \<le> length g"
  proof -
    have "2 * nat (timeHorizon params) * nat (numSimulations params)
            \<le> 5 * nat (timeHorizon params) * nat (numSimulations params)" by simp
    with that(2) have "2 * nat (timeHorizon params) * nat (numSimulations params) \<le> length g"
      by linarith
    from runMonteCarloSimulation_total [OF that(1) this] runMonteCarloSimulation_enhanced_total [OF that]
    show ?thesis by auto
  qed
  from basic enhanced total show ?thesis by blast
qed

theorem finalPrices_sorted_permutation_witness:
  "valid_tape [1/2, 1/4, 1/2, 1/2] \<and>
   (case runMonteCarloSimulation reorder_example [1/2, 1/4, 1/2, 1/2] of
      None \<Rightarrow> False
    | Some (res, g') \<Rightarrow>
        sorted_wrt jle (finalPrices res) \<and> mset (finalPrices res) = mset (map last (paths res))
        \<and> length (paths res) = 2 \<and> paths res ! 0 = [Num 100, Num 100]
        \<and> finalPrices res ! 1 = Num 100 \<and> jlt (finalPrices res ! 0) (Num 100)
        \<and> finalPrices res ! 0 = last (paths res ! 1) \<and> finalPrices res ! 0 \<noteq> last (paths res ! 0))
   \<and> valid_tape [1/2, 1/4, 1/2, 1/2, 1/2, 1/2] \<and>
   (case runMonteCarloSimulation_enhanced reorder_example [1/2, 1/4, 1/2, 1/2, 1/2, 1/2] of
      None \<Rightarrow> False
    | Some (res, g') \<Rightarrow>
        sorted_wrt jle (finalPrices res) \<and> mset (finalPrices res) = mset (map last (paths res))
        \<and> length (paths res) = 2 \<and> paths res ! 0 = [Num 100, Num 100]
        \<and> finalPrices res ! 1 = Num 100 \<and> jlt (finalPrices res ! 0) (Num 100)
        \<and> finalPrices res ! 0 = last (paths res ! 1) \<and> finalPrices res ! 0 \<noteq> last (paths res ! 0))
   \<and> valid_tape (replicate 10 (1/2)) \<and> 0 \<notin> set (replicate 10 (1/2 :: real))
   \<and> runMonteCarloSimulation reorder_example (replicate 10 (1/2)) \<noteq> None
   \<and> runMonteCarloSimulation_enhanced reorder_example (replicate 10 (1/2)) \<noteq> None"
proof -
  have v: "valid_tape [1/2, 1/4, 1/2, 1/2]" by (simp add: valid_tape_def)
  have ve: "valid_tape [1/2, 1/4, 1/2, 1/2, 1/2, 1/2]" by (simp add: valid_tape_def)
  obtain r where r: "r < 0" "randomNormal (1/2 # 1/2 # []) = Some (Num r, [])"
    using negative_shock by blast
  obtain r' where r': "r' < 0" "randomNormal (1/2 # 1/2 # [1/2]) = Some (Num r', [1/2])"
    using negative_shock by blast
  define lo where "lo = 100 * exp (sqrt (1 / 252) * r)"
  define lo' where "lo' = 100 * exp (sqrt (1 / 252) * r')"
  have "sqrt (1 / 252) * r < 0" using r(1) by (simp add: mult_pos_neg)
  then have lo: "lo < 100" by (simp add: lo_def)
  have "sqrt (1 / 252) * r' < 0" using r'(1) by (simp add: mult_pos_neg)
  then have lo': "lo' < 100" by (simp add: lo'_def)
  have d1: "simulate_days (Num 0) (Num (sqrt (1 / 252))) (Suc 0) (Num 100) [Num 100] [1/2, 1/4, 1/2, 1/2]
      = Some (([Num 100, Num 100], Num 100), [1/2, 1/2])"
    by (simp add: jump_shock Let_def)
  have d2: "simulate_days (Num 0) (Num (sqrt (1 / 252))) (Suc 0) (Num 100) [Num 100] [1/2, 1/2]
      = Some (([Num 100, Num lo], Num lo), [])"
    by (simp add: r(2) Let_def lo_def)
  have s: "simulate_paths (Num 100) (Num 0) (Num (sqrt (1 / 252))) (Suc 0) 2 [] []
      [1/2, 1/4, 1/2, 1/2] = Some (([[Num 100, Num 100], [Num 100, Num lo]], [Num 100, Num lo]), [])"
    by (simp add: numeral_2_eq_2 d1 d2 del: simulate_days.simps)
  have so: "js_sort [Num 100, Num lo] = [Num lo, Num 100]"
    using lo js_sort_Num [of "[100, lo]"] by simp
  have run: "runMonteCarloSimulation reorder_example [1/2, 1/4, 1/2, 1/2]
      = Some (\<lparr>paths = [[Num 100, Num 100], [Num 100, Num lo]], finalPrices = [Num lo, Num 100],
                statistics = summary_statistics [Num lo, Num 100] (Num 100)\<rparr>, [])"
    by (simp add: runMonteCarloSimulation_def reorder_example_def jsub_def Let_def s so
             del: simulate_paths.simps)
  have c1: "enhanced_priceChange (Num 0) (Num (sqrt (1 / 252))) [1/2, 1/4, 1/2, 1/2, 1/2, 1/2]
      = Some (Num 0, [1/2, 1/2, 1/2])"
    by (simp add: enhanced_priceChange_def jump_shock Let_def)
  have c2: "enhanced_priceChange (Num 0) (Num (sqrt (1 / 252))) [1/2, 1/2, 1/2]
      = Some (Num (sqrt (1 / 252) * r'), [])"
    by (simp add: enhanced_priceChange_def r'(2) Let_def)
  have e1: "simulate_days_enhanced (Num 0) (Num (sqrt (1 / 252))) (Suc 0) (Num 100) [Num 100]
      [1/2, 1/4, 1/2, 1/2, 1/2, 1/2] = Some (([Num 100, Num 100], Num 100), [1/2, 1/2, 1/2])"
    by (simp add: c1 Let_def)
  have e2: "simulate_days_enhanced (Num 0) (Num (sqrt (1 / 252))) (Suc 0) (Num 100) [Num 100]
      [1/2, 1/2, 1/2] = Some (([Num 100, Num lo'], Num lo'), [])"
    by (simp add: c2 Let_def lo'_def)
  have se: "simulate_paths_enhanced (Num 100) (Num 0) (Num (sqrt (1 / 252))) (Suc 0) 2 [] []
      [1/2, 1/4, 1/2, 1/2, 1/2, 1/2]
      = Some (([[Num 100, Num 100], [Num 100, Num lo']], [Num 100, Num lo']), [])"
    by (simp add: numeral_2_eq_2 e1 e2 del: simulate_days_enhanced.simps)
  have so': "js_sort [Num 100, Num lo'] = [Num lo', Num 100]"
    using lo' js_sort_Num [of "[100, lo']"] by simp
  have rune: "runMonteCarloSimulation_enhanced reorder_example [1/2, 1/4, 1/2, 1/2, 1/2, 1/2]
      = Some (\<lparr>paths = [[Num 100, Num 100], [Num 100, Num lo']], finalPrices = [Num lo', Num 100],
                statistics = summary_statistics [Num lo', Num 100] (Num 100)\<rparr>, [])"
    by (simp add: runMonteCarloSimulation_enhanced_def reorder_example_def jsub_def Let_def se so'
             del: simulate_paths_enhanced.simps)
  have p: "currentPrice reorder_example = Num 100" "expectedReturn reorder_example = Num 0.5"
    "volatility reorder_example = Num 1"
    by (simp_all add: reorder_example_def)
  define R where "R = \<lparr>paths = [[Num 100, Num 100], [Num 100, Num lo]], finalPrices = [Num lo, Num 100],
                statistics = summary_statistics [Num lo, Num 100] (Num 100)\<rparr>"
  define R' where "R' = \<lparr>paths = [[Num 100, Num 100], [Num 100, Num lo']], finalPrices = [Num lo', Num 100],
                statistics = summary_statistics [Num lo', Num 100] (Num 100)\<rparr>"
  have runR: "runMonteCarloSimulation reorder_example [1/2, 1/4, 1/2, 1/2] = Some (R, [])"
    unfolding R_def by (rule run)
  have runR': "runMonteCarloSimulation_enhanced reorder_example [1/2, 1/4, 1/2, 1/2, 1/2, 1/2] = Some (R', [])"
    unfolding R'_def by (rule rune)
  from finalPrices_sorted_permutation [OF p v] runR
  have t1: "sorted_wrt jle (finalPrices R) \<and> mset (finalPrices R) = mset (map last (paths R))"
    by blast
  from finalPrices_sorted_permutation [OF p ve] runR'
  have t2: "sorted_wrt jle (finalPrices R') \<and> mset (finalPrices R') = mset (map last (paths R'))"
    by blast
  have a: "case runMonteCarloSimulation reorder_example [1/2, 1/4, 1/2, 1/2] of
      None \<Rightarrow> False
    | Some (res, g') \<Rightarrow>
        sorted_wrt jle (finalPrices res) \<and> mset (finalPrices res) = mset (map last (paths res))
        \<and> length (paths res) = 2 \<and> paths res ! 0 = [Num 100, Num 100]
        \<and> finalPrices res ! 1 = Num 100 \<and> jlt (finalPrices res ! 0) (Num 100)
        \<and> finalPrices res ! 0 = last (paths res ! 1) \<and> finalPrices res ! 0 \<noteq> last (paths res ! 0)"
    unfolding runR using t1 lo by (simp add: R_def)
  have b: "case runMonteCarloSimulation_enhanced reorder_example [1/2, 1/4, 1/2, 1/2, 1/2, 1/2] of
      None \<Rightarrow> False
    | Some (res, g') \<Rightarrow>
        sorted_wrt jle (finalPrices res) \<and> mset (finalPrices res) = mset (map last (paths res))
        \<and> length (paths res) = 2 \<and> paths res ! 0 = [Num 100, Num 100]
        \<and> finalPrices res ! 1 = Num 100 \<and> jlt (finalPrices res ! 0) (Num 100)
        \<and> finalPrices res ! 0 = last (paths res ! 1) \<and> finalPrices res ! 0 \<noteq> last (paths res ! 0)"
    unfolding runR' using t2 lo' by (simp add: R'_def)
  have v2: "valid_tape (replicate 10 (1/2))" by (simp add: valid_tape_def)
  have z: "0 \<notin> set (replicate 10 (1/2 :: real))" by simp
  have n: "5 * nat (timeHorizon reorder_example) * nat (numSimulations reorder_example)
             \<le> length (replicate 10 (1/2 :: real))"
    by (simp add: reorder_example_def)
  from finalPrices_sorted_permutation [OF p v2] z n
  have t: "runMonteCarloSimulation reorder_example (replicate 10 (1/2)) \<noteq> None
         \<and> runMonteCarloSimulation_enhanced reorder_example (replicate 10 (1/2)) \<noteq> None"
    by blast
  from v a ve b v2 z t show ?thesis by blast
qed

section \<open>Properties of the Cholesky decomposition and of the correlated draws\<close>



lemma mat_get_mat_set:
  assumes "length L = n" and "\<forall>r \<in> set L. length r = n" and "i < n" and "j < n"
  shows "mat_get (mat_set L i j v) a b = (if a = i \<and> b = j then v else mat_get L a b)"
proof -
  have "length (L ! i) = n" using assms(1,2,3) by simp
  then show ?thesis using assms(1,3,4)
    by (auto simp: mat_get_def mat_set_def row_get_def nth_list_update)
qed

lemma mat_set_shape:
  assumes "length L = n" and "\<forall>r \<in> set L. length r = n" and "i < n"
  shows "length (mat_set L i j v) = n \<and> (\<forall>r \<in> set (mat_set L i j v). length r = n)"
proof -
  have "length (L ! i) = n" using assms by simp
  then have "length ((L ! i)[j := v]) = n" by simp
  moreover have "set (L[i := (L ! i)[j := v]]) \<subseteq> insert ((L ! i)[j := v]) (set L)"
    by (rule set_update_subset_insert)
  ultimately show ?thesis using assms(1,2) by (auto simp: mat_set_def)
qed

lemma cholesky_entry_frame:
  assumes "length L = n" and "\<forall>r \<in> set L. length r = n" and "i < n" and "j < n"
    and "\<forall>k<b. \<not> (a = i \<and> k = j) \<and> \<not> (b = i \<and> k = j)"
    and "a \<noteq> b \<longrightarrow> \<not> (b = i \<and> b = j)"
  shows "cholesky_entry m (mat_set L i j v) a b = cholesky_entry m L a b"
proof -
  note g = mat_get_mat_set [OF assms(1-4)]
  have d: "foldl (\<lambda>sum k. dadd sum (dmul (mat_get (mat_set L i j v) b k) (mat_get (mat_set L i j v) b k)))
             (Num 0) [0..<b]
         = foldl (\<lambda>sum k. dadd sum (dmul (mat_get L b k) (mat_get L b k))) (Num 0) [0..<b]"
    using assms(5) by (intro foldl_cong refl) (auto simp: g)
  have o: "foldl (\<lambda>sum k. dadd sum (dmul (mat_get (mat_set L i j v) a k) (mat_get (mat_set L i j v) b k)))
             (Num 0) [0..<b]
         = foldl (\<lambda>sum k. dadd sum (dmul (mat_get L a k) (mat_get L b k))) (Num 0) [0..<b]"
    using assms(5) by (intro foldl_cong refl) (auto simp: g)
  show ?thesis
  proof (cases "a = b")
    case True
    then show ?thesis by (simp add: cholesky_entry_def d)
  next
    case False
    with assms(6) have "mat_get (mat_set L i j v) b b = mat_get L b b" by (auto simp: g)
    with False show ?thesis by (simp add: cholesky_entry_def o)
  qed
qed

lemma chol_inv_step:
  assumes "chol_inv m n L i j" and "j \<le> i" and "i < n"
  shows "chol_inv m n (mat_set L i j (cholesky_entry m L i j)) i (Suc j)"
proof -
  define v where "v = cholesky_entry m L i j"
  define L' where "L' = mat_set L i j v"
  have sh: "length L = n" "\<forall>r \<in> set L. length r = n"
    using assms(1) by (simp_all add: chol_inv_def)
  have jn: "j < n" using assms(2,3) by simp
  note g = mat_get_mat_set [OF sh assms(3) jn, where v = v]
  have inv: "mat_get L a b = cholesky_entry m L a b" if "b \<le> a" "a < i \<or> (a = i \<and> b < j)" for a b
    using assms(1) that by (simp add: chol_inv_def)
  have "mat_get L' a b = cholesky_entry m L' a b" if h: "b \<le> a" "a < i \<or> (a = i \<and> b < Suc j)" for a b
  proof (cases "a = i \<and> b = j")
    case True
    have "cholesky_entry m L' i j = cholesky_entry m L i j"
      unfolding L'_def by (rule cholesky_entry_frame [OF sh assms(3) jn]) auto
    then have "cholesky_entry m L' i j = v" by (simp add: v_def)
    moreover have "mat_get L' i j = v" by (simp add: L'_def g)
    ultimately show ?thesis using True by simp
  next
    case False
    then have old: "a < i \<or> (a = i \<and> b < j)" using h(2) by auto
    have "cholesky_entry m L' a b = cholesky_entry m L a b"
      unfolding L'_def
    proof (rule cholesky_entry_frame [OF sh assms(3) jn])
      show "\<forall>k<b. \<not> (a = i \<and> k = j) \<and> \<not> (b = i \<and> k = j)"
        using old h(1) assms(2) by auto
      show "a \<noteq> b \<longrightarrow> \<not> (b = i \<and> b = j)"
        using old h(1) by auto
    qed
    moreover have "mat_get L' a b = mat_get L a b" using False by (auto simp: L'_def g)
    ultimately show ?thesis using inv [OF h(1) old] by simp
  qed
  moreover have "length L' = n \<and> (\<forall>r \<in> set L'. length r = n)"
    unfolding L'_def by (rule mat_set_shape [OF sh assms(3)])
  ultimately show ?thesis
    unfolding chol_inv_def L'_def v_def by blast
qed

lemma chol_inv_row_prefix:
  assumes "chol_inv m n L i 0" and "i < n" and "j \<le> Suc i"
  shows "chol_inv m n (foldl (\<lambda>L' j. mat_set L' i j (cholesky_entry m L' i j)) L [0..<j]) i j"
  using assms(3)
proof (induction j)
  case 0
  then show ?case using assms(1) by simp
next
  case (Suc j)
  then have "chol_inv m n (foldl (\<lambda>L' j. mat_set L' i j (cholesky_entry m L' i j)) L [0..<j]) i j"
    by simp
  moreover have "j \<le> i" using Suc.prems by simp
  ultimately show ?case using chol_inv_step [OF _ _ assms(2)] by simp
qed

lemma chol_inv_row:
  assumes "chol_inv m n L i 0" and "i < n"
  shows "chol_inv m n (cholesky_row m L i) (Suc i) 0"
proof -
  have A: "chol_inv m n (cholesky_row m L i) i (Suc i)"
    unfolding cholesky_row_def by (rule chol_inv_row_prefix [OF assms]) simp
  have "mat_get (cholesky_row m L i) a b = cholesky_entry m (cholesky_row m L i) a b"
    if "b \<le> a" "a < Suc i" for a b
  proof -
    from that have "a < i \<or> (a = i \<and> b < Suc i)" by auto
    with A that(1) show ?thesis unfolding chol_inv_def by blast
  qed
  with A show ?thesis
    unfolding chol_inv_def by simp
qed

lemma chol_inv_rows:
  assumes "chol_inv m n L 0 0" and "i \<le> n"
  shows "chol_inv m n (foldl (cholesky_row m) L [0..<i]) i 0"
  using assms(2)
proof (induction i)
  case 0
  then show ?case using assms(1) by simp
next
  case (Suc i)
  then have "chol_inv m n (foldl (cholesky_row m) L [0..<i]) i 0" by simp
  moreover have "i < n" using Suc.prems by simp
  ultimately show ?case using chol_inv_row by simp
qed






subsection \<open>Assets of one sector\<close>















subsection \<open>The portfolio simulation returns\<close>

lemma cholesky_length: "length (choleskyDecomposition m) = length m"
proof -
  have "chol_inv m (length m) (replicate (length m) (replicate (length m) (Num 0))) 0 0"
    by (simp add: chol_inv_def)
  then have "chol_inv m (length m) (choleskyDecomposition m) (length m) 0"
    unfolding choleskyDecomposition_def Let_def by (rule chol_inv_rows) simp
  then show ?thesis by (simp add: chol_inv_def)
qed

lemma draw_normals_total:
  assumes "0 \<notin> set g" and "2 * n \<le> length g"
  shows "\<exists>zs. draw_normals n g = Some (zs, drop (2 * n) g)"
  using assms
proof (induction n arbitrary: g)
  case 0
  then show ?case by simp
next
  case (Suc n)
  from randomNormal_total [of g] Suc.prems obtain z where z: "randomNormal g = Some (z, drop 2 g)"
    by auto
  have "2 * n \<le> length (drop 2 g)" using Suc.prems(2) by simp
  with Suc.IH [OF drop_zero_free [OF Suc.prems(1)]] obtain zs where
    "draw_normals n (drop 2 g) = Some (zs, drop (2 * n) (drop 2 g))" by blast
  with z show ?case by (simp add: add.commute)
qed

lemma generateCorrelatedRandoms_total:
  assumes "0 \<notin> set g" and "2 * length m \<le> length g"
  shows "\<exists>rs. generateCorrelatedRandoms (length m) m g = Inr (rs, drop (2 * length m) g)"
proof -
  from draw_normals_total [OF assms] obtain zs where
    "draw_normals (length m) g = Some (zs, drop (2 * length m) g)" by blast
  then show ?thesis
    by (simp add: generateCorrelatedRandoms_def Let_def cholesky_length)
qed

lemma portfolio_days_total:
  assumes "0 \<notin> set g" and "2 * length as * k \<le> length g" and "length cm = length as"
  shows "\<exists>r. portfolio_days as cm day k cap path g = Inr (r, drop (2 * length as * k) g)"
  using assms(1,2)
proof (induction k arbitrary: day cap path g)
  case 0
  then show ?case by simp
next
  case (Suc k)
  have "2 * length cm \<le> length g" using Suc.prems(2) assms(3) by (simp add: algebra_simps)
  from generateCorrelatedRandoms_total [OF Suc.prems(1) this] assms(3) obtain rs where
    rs: "generateCorrelatedRandoms (length as) cm g = Inr (rs, drop (2 * length as) g)" by auto
  obtain cap' pv where st: "foldl (asset_step day rs) (cap, Num 0) (zip as [0..<length as]) = (cap', pv)"
    by (cases "foldl (asset_step day rs) (cap, Num 0) (zip as [0..<length as])")
  have "2 * length as * k \<le> length (drop (2 * length as) g)"
    using Suc.prems(2) by (simp add: algebra_simps)
  with Suc.IH [OF drop_zero_free [OF Suc.prems(1)]] obtain r where
    "portfolio_days as cm (Suc day) k cap' (path @ [pv]) (drop (2 * length as) g)
       = Inr (r, drop (2 * length as * k) (drop (2 * length as) g))" by blast
  with rs st show ?case by (simp add: algebra_simps)
qed

lemma portfolio_paths_total:
  assumes "0 \<notin> set g" and "2 * length as * T * n \<le> length g" and "length cm = length as"
  shows "\<exists>r. portfolio_paths as cm v0 T n ps fv ap g = Inr (r, drop (2 * length as * T * n) g)"
  using assms(1,2)
proof (induction n arbitrary: ps fv ap g)
  case 0
  then show ?case by simp
next
  case (Suc n)
  define cap0 where "cap0 = foldl (\<lambda>m asset. m(ticker asset \<mapsto> [assetPrice asset])) Map.empty as"
  have "2 * length as * T \<le> length g" using Suc.prems(2) by (simp add: algebra_simps)
  from portfolio_days_total [OF Suc.prems(1) this assms(3)] obtain r where
    r: "portfolio_days as cm 1 T cap0 [v0] g = Inr (r, drop (2 * length as * T) g)" by blast
  obtain cap' path where rp: "r = (cap', path)" by (cases r)
  have "2 * length as * T * n \<le> length (drop (2 * length as * T) g)"
    using Suc.prems(2) by (simp add: algebra_simps)
  with Suc.IH [OF drop_zero_free [OF Suc.prems(1)]] obtain r' where
    "portfolio_paths as cm v0 T n (ps @ [path]) (fv @ [last path])
       (foldl (\<lambda>m asset. m(ticker asset \<mapsto> lookup_path m (ticker asset) @ [lookup_path cap' (ticker asset)]))
              ap as)
       (drop (2 * length as * T) g)
     = Inr (r', drop (2 * length as * T * n) (drop (2 * length as * T) g))" by blast
  with r rp show ?case by (cases r') (simp add: Let_def cap0_def algebra_simps)
qed

lemma runPortfolioSimulation_total:
  assumes "0 \<notin> set g"
    and "2 * length (assets params) * nat (pf_timeHorizon params) * nat (pf_numSimulations params) \<le> length g"
  shows "\<exists>res g'. runPortfolioSimulation params g = Inr (res, g')"
proof -
  have "length (calculateCorrelationMatrix (assets params)) = length (assets params)"
    by (simp add: calculateCorrelationMatrix_def)
  from portfolio_paths_total [OF assms this] obtain r where
    "portfolio_paths (assets params) (calculateCorrelationMatrix (assets params))
       (portfolio_value (assets params)) (nat (pf_timeHorizon params)) (nat (pf_numSimulations params))
       [] [] (foldl (\<lambda>m asset. m(ticker asset \<mapsto> [])) Map.empty (assets params)) g
     = Inr (r, drop (2 * length (assets params) * nat (pf_timeHorizon params)
                       * nat (pf_numSimulations params)) g)" by blast
  then show ?thesis
    by (cases r) (simp add: runPortfolioSimulation_def Let_def)
qed

section \<open>A pivot rounded below zero\<close>





section \<open>No error is signalled\<close>




section \<open>Properties of the statistics and of the entry points\<close>

lemma foldl_jadd_Num: "foldl jadd (Num a) (map Num ys) = Num (a + sum_list ys)"
  by (induction ys arbitrary: a) (simp_all add: add.assoc)

lemma js_sum_Num: "js_sum (map Num ys) = Num (sum_list ys)"
  by (simp add: js_sum_def foldl_jadd_Num)

lemma simulate_result_shape:
  assumes "runMonteCarloSimulation params g = Some (res, g')"
  shows "finalPrices res = js_sort (map last (paths res))
         \<and> statistics res = summary_statistics (finalPrices res) (currentPrice params)"
proof -
  from assms obtain ps fs where
    s: "simulate_paths (currentPrice params)
          (jmul (jsub (expectedReturn params) (jmul (jmul (Num 0.5) (volatility params)) (volatility params)))
                (jdiv (Num 1) (Num 252)))
          (jmul (volatility params) (jsqrt (jdiv (Num 1) (Num 252))))
          (nat (timeHorizon params)) (nat (numSimulations params)) [] [] g = Some ((ps, fs), g')"
    and res: "res = \<lparr>paths = ps, finalPrices = js_sort fs,
                     statistics = summary_statistics (js_sort fs) (currentPrice params)\<rparr>"
    by (auto simp: runMonteCarloSimulation_def Let_def split: option.splits)
  from simulate_paths_last [OF s] res show ?thesis by simp
qed

lemma simulate_result_shape_enhanced:
  assumes "runMonteCarloSimulation_enhanced params g = Some (res, g')"
  shows "finalPrices res = js_sort (map last (paths res))
         \<and> statistics res = summary_statistics (finalPrices res) (currentPrice params)"
proof -
  from assms obtain ps fs where
    s: "simulate_paths_enhanced (currentPrice params)
          (jmul (jsub (expectedReturn params) (jmul (jmul (Num 0.5) (volatility params)) (volatility params)))
                (jdiv (Num 1) (Num 252)))
          (jmul (volatility params) (jsqrt (jdiv (Num 1) (Num 252))))
          (nat (timeHorizon params)) (nat (numSimulations params)) [] [] g = Some ((ps, fs), g')"
    and res: "res = \<lparr>paths = ps, finalPrices = js_sort fs,
                     statistics = summary_statistics (js_sort fs) (currentPrice params)\<rparr>"
    by (auto simp: runMonteCarloSimulation_enhanced_def Let_def split: option.splits)
  from simulate_paths_enhanced_last [OF s] res show ?thesis by simp
qed

lemma portfolio_result_shape:
  assumes "runPortfolioSimulation params g = Inr (res, g')"
  shows "\<exists>ps ap. res = portfolio_results ps (finalValues res) (initialValue res) ap"
proof -
  from assms obtain ps fv ap v0 where r: "res = portfolio_results ps fv v0 ap"
    by (auto simp: runPortfolioSimulation_def Let_def split: sum.splits)
  have "res = portfolio_results ps (finalValues res) (initialValue res) ap"
    unfolding r by (simp add: portfolio_results_def Let_def)
  then show ?thesis by blast
qed

lemma simulate_paths_no_days:
  "simulate_paths c drift diffusion 0 n ps fs g = Some ((ps @ replicate n [c], fs @ replicate n c), g)"
  by (induction n arbitrary: ps fs) (simp_all add: replicate_app_Cons_same)

lemma simulate_paths_enhanced_no_days:
  "simulate_paths_enhanced c drift diffusion 0 n ps fs g
     = Some ((ps @ replicate n [c], fs @ replicate n c), g)"
  by (induction n arbitrary: ps fs) (simp_all add: replicate_app_Cons_same)

lemma runMonteCarloSimulation_no_days:
  assumes "timeHorizon params \<le> 0"
  shows "runMonteCarloSimulation params g
    = Some (\<lparr>paths = replicate (nat (numSimulations params)) [currentPrice params],
              finalPrices = replicate (nat (numSimulations params)) (currentPrice params),
              statistics = summary_statistics (replicate (nat (numSimulations params)) (currentPrice params))
                             (currentPrice params)\<rparr>, g)"
  using assms
  by (simp add: runMonteCarloSimulation_def Let_def simulate_paths_no_days js_sort_replicate)

lemma runMonteCarloSimulation_enhanced_no_days:
  assumes "timeHorizon params \<le> 0"
  shows "runMonteCarloSimulation_enhanced params g
    = Some (\<lparr>paths = replicate (nat (numSimulations params)) [currentPrice params],
              finalPrices = replicate (nat (numSimulations params)) (currentPrice params),
              statistics = summary_statistics (replicate (nat (numSimulations params)) (currentPrice params))
                             (currentPrice params)\<rparr>, g)"
  using assms
  by (simp add: runMonteCarloSimulation_enhanced_def Let_def simulate_paths_enhanced_no_days js_sort_replicate)

lemma portfolio_paths_no_days:
  "\<exists>ap'. portfolio_paths assetData correlations v0 0 n ps fv ap g
     = Inr ((ps @ replicate n [v0], fv @ replicate n v0, ap'), g)"
proof (induction n arbitrary: ps fv ap)
  case 0
  then show ?case by simp
next
  case (Suc n)
  define ap1 where "ap1 = foldl (\<lambda>m asset. m(ticker asset \<mapsto>
      lookup_path m (ticker asset)
        @ [lookup_path (foldl (\<lambda>m asset. m(ticker asset \<mapsto> [assetPrice asset])) Map.empty assetData)
             (ticker asset)])) ap assetData"
  from Suc [of "ps @ [[v0]]" "fv @ [v0]" ap1] obtain ap' where
    "portfolio_paths assetData correlations v0 0 n (ps @ [[v0]]) (fv @ [v0]) ap1 g
       = Inr (((ps @ [[v0]]) @ replicate n [v0], (fv @ [v0]) @ replicate n v0, ap'), g)"
    by blast
  then show ?case
    by (simp add: Let_def ap1_def replicate_app_Cons_same)
qed

lemma runPortfolioSimulation_no_days:
  assumes "pf_timeHorizon params \<le> 0"
  shows "\<exists>res. runPortfolioSimulation params g = Inr (res, g)
           \<and> pf_paths res = replicate (nat (pf_numSimulations params)) [portfolio_value (assets params)]
           \<and> finalValues res = replicate (nat (pf_numSimulations params)) (portfolio_value (assets params))
           \<and> initialValue res = portfolio_value (assets params)"
proof -
  obtain ap' where
    "portfolio_paths (assets params) (calculateCorrelationMatrix (assets params))
        (portfolio_value (assets params)) 0 (nat (pf_numSimulations params)) [] []
        (foldl (\<lambda>m asset. m(ticker asset \<mapsto> [])) Map.empty (assets params)) g
     = Inr (([] @ replicate (nat (pf_numSimulations params)) [portfolio_value (assets params)],
             [] @ replicate (nat (pf_numSimulations params)) (portfolio_value (assets params)), ap'), g)"
    using portfolio_paths_no_days by blast
  then show ?thesis using assms
    by (simp add: runPortfolioSimulation_def Let_def portfolio_results_def)
qed

lemma single_index:
  assumes "0 \<le> p \<and> p \<le> 1 - 1 / 2 ^ 53"
  shows "js_index [Num x] (jfloor (dmul (js_length [Num x]) (Num p))) = Some (Num x)"
proof -
  have "nat \<lfloor>double_of (real 1 * p)\<rfloor> < 1"
    using assms by (intro double_index_less(2)) simp_all
  then have z: "nat \<lfloor>double_of p\<rfloor> = 0" by simp
  have "js_index (map Num [x]) (jfloor (dmul (js_length (map Num [x])) (Num p)))
          = Some (Num ([x] ! nat \<lfloor>double_of (real (length [x]) * p)\<rfloor>))"
    using assms by (intro js_index_double(1)) simp_all
  then show ?thesis using z by simp
qed

lemma summary_single: "summary_statistics [Num x] (Num x)
   = \<lparr>averageEndingPrice = Num x, probabilityOfGain = Num 0, percentile5 = Some (Num x),
      percentile95 = Some (Num x), maxPrice = Num x, minPrice = Num x\<rparr>"
  unfolding summary_statistics_def js_lit_values
    single_index [OF literal_bounds(1)] single_index [OF literal_bounds(2)]
  by (simp add: js_sum_def js_length_def js_max_def js_min_def)

subsection \<open>Percentiles and value at risk\<close>

lemma percentile_index_literal:
  assumes "0 < n" and "n < 2 ^ 32"
  shows "percentile_index n (double_of 0.05) < n" and "percentile_index n (double_of 0.95) < n"
    and "percentile_index n (double_of 0.01) < n"
  unfolding percentile_index_def
  using double_index_less(2) [OF _ _ assms] literal_bounds by blast+

lemma floor_two:
  "\<lfloor>double_of (2 * double_of 0.05)\<rfloor> = 0" "\<lfloor>double_of (2 * double_of 0.95)\<rfloor> = 1"
  "\<lfloor>double_of (2 * double_of 0.01)\<rfloor> = 0"
  unfolding literal_values by (rule double_of_floor; simp add: powr_minus powr_numeral)+

lemma percentile_index_two:
  "percentile_index 2 (double_of 0.05) = 0" "percentile_index 2 (double_of 0.95) = 1"
  "percentile_index 2 (double_of 0.01) = 0"
  unfolding percentile_index_def of_nat_numeral floor_two by simp_all

text \<open>
  The literal \<open>0.58\<close> is the double \<open>5224175567749775 / 2^53\<close>, just below \<open>0.58\<close>; its product
  with 50 rounds to the double just below 29, so that the index is 28 and not 29.
\<close>

lemma literal_058:
  "double_of 0.58 = 5224175567749775 / 9007199254740992"
  "double_of (5224175567749775 / 9007199254740992) = 5224175567749775 / 9007199254740992"
  "double_of (50 * (5224175567749775 / 9007199254740992)) = 8162774324609023 / 281474976710656"
  using double_of_normal [of "- 1" "0.58"]
    double_of_normal [of "- 1" "5224175567749775 / 9007199254740992"]
    double_of_normal [of 4 "50 * (5224175567749775 / 9007199254740992)"]
  by (simp_all add: powr_minus powr_numeral round_half_even_def Let_def)

lemma percentile_index_058: "percentile_index 50 (double_of 0.58) = 28"
  unfolding percentile_index_def literal_058(1) of_nat_numeral literal_058(3) by simp

text \<open>
  C4. For finite final values \<open>xs\<close>, \<open>N = length xs\<close> with \<open>0 < N < 2^32\<close>, and the index
  \<open>floor (N * p)\<close> as the program computes it, on doubles: \<open>runMonteCarloSimulation\<close> (basic
  or enhanced) returns as \<open>percentile5\<close> and \<open>percentile95\<close> the elements at index
  \<open>floor (N * 0.05)\<close> and \<open>floor (N * 0.95)\<close> of the ascending-sorted values;
  \<open>calculateRiskMetrics\<close> (basic or enhanced) returns as value at risk \<open>currentPrice\<close> minus the
  sorted element at index \<open>floor (N * confidence)\<close>, for every double \<open>confidence\<close> in \<open>[0, 1)\<close>;
  \<open>runPortfolioSimulation\<close> returns the sorted elements at index \<open>floor (0.05 * N)\<close> and
  \<open>floor (0.95 * N)\<close> as percentiles, and \<open>initialValue\<close> minus the sorted elements at index
  \<open>floor (0.05 * N)\<close> and \<open>floor (0.01 * N)\<close> as \<open>var95\<close> and \<open>var99\<close>. Each index lies within
  the array, and no interpolation takes place.
\<close>

theorem nearest_rank_percentiles:
  assumes "xs \<noteq> []" and "length xs < 2 ^ 32"
  shows "(\<forall>c. percentile5 (summary_statistics (js_sort (map Num xs)) c)
                = Some (Num (sort xs ! percentile_index (length xs) (double_of 0.05)))
              \<and> percentile95 (summary_statistics (js_sort (map Num xs)) c)
                = Some (Num (sort xs ! percentile_index (length xs) (double_of 0.95))))
       \<and> (\<forall>params g res g'.
            (runMonteCarloSimulation params g = Some (res, g')
               \<or> runMonteCarloSimulation_enhanced params g = Some (res, g'))
            \<and> map last (paths res) = map Num xs \<longrightarrow>
              percentile5 (statistics res)
                = Some (Num (sort xs ! percentile_index (length xs) (double_of 0.05)))
              \<and> percentile95 (statistics res)
                = Some (Num (sort xs ! percentile_index (length xs) (double_of 0.95))))
       \<and> (\<forall>c confidence. 0 \<le> confidence \<and> confidence < 1 \<and> double_of confidence = confidence \<longrightarrow>
              percentile_index (length xs) confidence < length xs
              \<and> valueAtRisk (calculateRiskMetrics (map Num xs) (Num c) (Num confidence))
                  = Num (c - sort xs ! percentile_index (length xs) confidence)
              \<and> valueAtRisk (calculateRiskMetrics_enhanced (map Num xs) (Num c) (Num confidence))
                  = Num (c - sort xs ! percentile_index (length xs) confidence))
       \<and> (\<forall>ps v0 ap.
              pf_percentile5 (pf_statistics (portfolio_results ps (map Num xs) (Num v0) ap))
                = Some (Num (sort xs ! percentile_index (length xs) (double_of 0.05)))
              \<and> pf_percentile95 (pf_statistics (portfolio_results ps (map Num xs) (Num v0) ap))
                = Some (Num (sort xs ! percentile_index (length xs) (double_of 0.95)))
              \<and> var95 (riskMetrics (portfolio_results ps (map Num xs) (Num v0) ap))
                = Num (v0 - sort xs ! percentile_index (length xs) (double_of 0.05))
              \<and> var99 (riskMetrics (portfolio_results ps (map Num xs) (Num v0) ap))
                = Num (v0 - sort xs ! percentile_index (length xs) (double_of 0.01)))
       \<and> (\<forall>params g res g' v0.
            runPortfolioSimulation params g = Inr (res, g') \<and> finalValues res = map Num xs
              \<and> initialValue res = Num v0 \<longrightarrow>
              pf_percentile5 (pf_statistics res)
                = Some (Num (sort xs ! percentile_index (length xs) (double_of 0.05)))
              \<and> pf_percentile95 (pf_statistics res)
                = Some (Num (sort xs ! percentile_index (length xs) (double_of 0.95)))
              \<and> var95 (riskMetrics res)
                = Num (v0 - sort xs ! percentile_index (length xs) (double_of 0.05))
              \<and> var99 (riskMetrics res)
                = Num (v0 - sort xs ! percentile_index (length xs) (double_of 0.01)))
       \<and> percentile_index (length xs) (double_of 0.05) < length xs
       \<and> percentile_index (length xs) (double_of 0.95) < length xs
       \<and> percentile_index (length xs) (double_of 0.01) < length xs"
proof -
  have n: "0 < length xs" using assms(1) by simp
  have ne: "sort xs \<noteq> []" using assms(1) by (metis length_sort length_0_conv)
  have ls: "length (sort xs) < 2 ^ 32" using assms(2) by simp
  have idx: "js_index (map Num (sort xs)) (jfloor (dmul (js_length (map Num (sort xs))) (Num p)))
               = Some (Num (sort xs ! percentile_index (length xs) p))"
    and idx': "js_index (map Num (sort xs)) (jfloor (dmul (Num p) (js_length (map Num xs))))
               = Some (Num (sort xs ! percentile_index (length xs) p))"
    if "0 \<le> p \<and> p \<le> 1 - 1 / 2 ^ 53" for p
    using js_index_double [OF _ _ ne ls, of p] that
    by (simp_all add: percentile_index_def js_length_def)
  have st: "percentile5 (summary_statistics (map Num (sort xs)) c)
                = Some (Num (sort xs ! percentile_index (length xs) (double_of 0.05)))
              \<and> percentile95 (summary_statistics (map Num (sort xs)) c)
                = Some (Num (sort xs ! percentile_index (length xs) (double_of 0.95)))" for c
    unfolding summary_statistics_def js_lit_values
    using idx [OF literal_bounds(1)] idx [OF literal_bounds(2)] by simp
  have a1: "percentile5 (summary_statistics (js_sort (map Num xs)) c)
                = Some (Num (sort xs ! percentile_index (length xs) (double_of 0.05)))
              \<and> percentile95 (summary_statistics (js_sort (map Num xs)) c)
                = Some (Num (sort xs ! percentile_index (length xs) (double_of 0.95)))" for c
    unfolding js_sort_Num by (rule st)
  have a2: "percentile5 (statistics res)
                = Some (Num (sort xs ! percentile_index (length xs) (double_of 0.05)))
              \<and> percentile95 (statistics res)
                = Some (Num (sort xs ! percentile_index (length xs) (double_of 0.95)))"
    if "(runMonteCarloSimulation params g = Some (res, g')
               \<or> runMonteCarloSimulation_enhanced params g = Some (res, g'))
            \<and> map last (paths res) = map Num xs"
    for params g res g'
  proof -
    from that simulate_result_shape [of params g res g'] simulate_result_shape_enhanced [of params g res g']
    have "statistics res = summary_statistics (map Num (sort xs)) (currentPrice params)"
      by (auto simp: js_sort_Num)
    then show ?thesis using st by simp
  qed
  have b: "percentile_index (length xs) confidence < length xs
              \<and> valueAtRisk (calculateRiskMetrics (map Num xs) (Num c) (Num confidence))
                  = Num (c - sort xs ! percentile_index (length xs) confidence)
              \<and> valueAtRisk (calculateRiskMetrics_enhanced (map Num xs) (Num c) (Num confidence))
                  = Num (c - sort xs ! percentile_index (length xs) confidence)"
    if "0 \<le> confidence \<and> confidence < 1 \<and> double_of confidence = confidence" for c confidence
  proof -
    from that double_below_one [of confidence]
    have p: "0 \<le> confidence \<and> confidence \<le> 1 - 1 / 2 ^ 53" by simp
    have "percentile_index (length xs) confidence < length xs"
      unfolding percentile_index_def using double_index_less(2) [OF _ _ n assms(2)] p by blast
    then show ?thesis
      using idx [OF p]
      by (simp add: calculateRiskMetrics_def calculateRiskMetrics_enhanced_def Let_def js_sort_Num jsub_def)
  qed
  have c1: "pf_percentile5 (pf_statistics (portfolio_results ps (map Num xs) (Num v0) ap))
                = Some (Num (sort xs ! percentile_index (length xs) (double_of 0.05)))
              \<and> pf_percentile95 (pf_statistics (portfolio_results ps (map Num xs) (Num v0) ap))
                = Some (Num (sort xs ! percentile_index (length xs) (double_of 0.95)))
              \<and> var95 (riskMetrics (portfolio_results ps (map Num xs) (Num v0) ap))
                = Num (v0 - sort xs ! percentile_index (length xs) (double_of 0.05))
              \<and> var99 (riskMetrics (portfolio_results ps (map Num xs) (Num v0) ap))
                = Num (v0 - sort xs ! percentile_index (length xs) (double_of 0.01))" for ps v0 ap
    unfolding portfolio_results_def Let_def js_lit_values js_sort_Num
    using idx' [OF literal_bounds(1)] idx' [OF literal_bounds(2)] idx' [OF literal_bounds(3)]
    by (simp add: jsub_def)
  have c2: "pf_percentile5 (pf_statistics res)
                = Some (Num (sort xs ! percentile_index (length xs) (double_of 0.05)))
              \<and> pf_percentile95 (pf_statistics res)
                = Some (Num (sort xs ! percentile_index (length xs) (double_of 0.95)))
              \<and> var95 (riskMetrics res)
                = Num (v0 - sort xs ! percentile_index (length xs) (double_of 0.05))
              \<and> var99 (riskMetrics res)
                = Num (v0 - sort xs ! percentile_index (length xs) (double_of 0.01))"
    if "runPortfolioSimulation params g = Inr (res, g') \<and> finalValues res = map Num xs
              \<and> initialValue res = Num v0"
    for params g res g' v0
  proof -
    from that portfolio_result_shape [of params g res g'] obtain ps ap where
      "res = portfolio_results ps (map Num xs) (Num v0) ap" by auto
    then show ?thesis using c1 by simp
  qed
  note r = percentile_index_literal [OF n assms(2)]
  from a1 a2 b c1 c2 r show ?thesis by blast
qed

lemma sorted_fifty_prices: "sort fifty_prices = fifty_prices"
  unfolding fifty_prices_def by (rule sorted_sort_id) (simp add: sorted_map)

lemma single_asset_cholesky: "choleskyDecomposition [[Num 1]] = [[Num 1]]"
  by (simp add: choleskyDecomposition_def cholesky_row_def cholesky_entry_def mat_get_def row_get_def
        mat_set_def dsqrt_def dsub_def jsub_def round_double_1)

theorem nearest_rank_percentiles_witness:
  "(case runMonteCarloSimulation reorder_example [1/2, 1/4, 1/2, 1/2] of
      None \<Rightarrow> False
    | Some (res, g') \<Rightarrow>
        jlt (last (paths res ! 1)) (last (paths res ! 0))
        \<and> percentile5 (statistics res) = Some (last (paths res ! 1))
        \<and> percentile95 (statistics res) = Some (last (paths res ! 0)))
   \<and> (case runMonteCarloSimulation_enhanced reorder_example [1/2, 1/4, 1/2, 1/2, 1/2, 1/2] of
      None \<Rightarrow> False
    | Some (res, g') \<Rightarrow>
        jlt (last (paths res ! 1)) (last (paths res ! 0))
        \<and> percentile5 (statistics res) = Some (last (paths res ! 1))
        \<and> percentile95 (statistics res) = Some (last (paths res ! 0)))
   \<and> js_lit 0.58 = Num (double_of 0.58) \<and> double_of (double_of 0.58) = double_of 0.58
   \<and> percentile_index 50 (double_of 0.58) = 28
   \<and> valueAtRisk (calculateRiskMetrics (map Num fifty_prices) (Num 100) (js_lit 0.58)) = Num 71
   \<and> valueAtRisk (calculateRiskMetrics [Num 30, Num 10, Num 20] (Num 100) (Num 0.5)) = Num 80
   \<and> (case runPortfolioSimulation two_runs_portfolio [1/2, 1/4, 1/2, 1/2] of
         Inl e \<Rightarrow> False
       | Inr (res, g') \<Rightarrow>
           jlt (finalValues res ! 1) (finalValues res ! 0)
           \<and> pf_percentile5 (pf_statistics res) = Some (finalValues res ! 1)
           \<and> pf_percentile95 (pf_statistics res) = Some (finalValues res ! 0)
           \<and> var95 (riskMetrics res) = jsub (initialValue res) (finalValues res ! 1)
           \<and> var99 (riskMetrics res) = jsub (initialValue res) (finalValues res ! 1))"
proof -
  obtain r where r: "r < 0" "randomNormal (1/2 # 1/2 # []) = Some (Num r, [])"
    using negative_shock by blast
  obtain r' where r': "r' < 0" "randomNormal (1/2 # 1/2 # [1/2]) = Some (Num r', [1/2])"
    using negative_shock by blast
  define lo where "lo = 100 * exp (sqrt (1 / 252) * r)"
  define lo' where "lo' = 100 * exp (sqrt (1 / 252) * r')"
  have "sqrt (1 / 252) * r < 0" using r(1) by (simp add: mult_pos_neg)
  then have lo: "lo < 100" by (simp add: lo_def)
  have "sqrt (1 / 252) * r' < 0" using r'(1) by (simp add: mult_pos_neg)
  then have lo': "lo' < 100" by (simp add: lo'_def)
  have two: "[100, lo] \<noteq> []" "length [100, lo] < 2 ^ 32" "[100, lo'] \<noteq> []" "length [100, lo'] < 2 ^ 32"
    by simp_all
  text \<open>The basic run.\<close>
  have d1: "simulate_days (Num 0) (Num (sqrt (1 / 252))) (Suc 0) (Num 100) [Num 100] [1/2, 1/4, 1/2, 1/2]
      = Some (([Num 100, Num 100], Num 100), [1/2, 1/2])"
    by (simp add: jump_shock Let_def)
  have d2: "simulate_days (Num 0) (Num (sqrt (1 / 252))) (Suc 0) (Num 100) [Num 100] [1/2, 1/2]
      = Some (([Num 100, Num lo], Num lo), [])"
    by (simp add: r(2) Let_def lo_def)
  have s: "simulate_paths (Num 100) (Num 0) (Num (sqrt (1 / 252))) (Suc 0) 2 [] []
      [1/2, 1/4, 1/2, 1/2] = Some (([[Num 100, Num 100], [Num 100, Num lo]], [Num 100, Num lo]), [])"
    by (simp add: numeral_2_eq_2 d1 d2 del: simulate_days.simps)
  define R where "R = \<lparr>paths = [[Num 100, Num 100], [Num 100, Num lo]],
      finalPrices = js_sort [Num 100, Num lo],
      statistics = summary_statistics (js_sort [Num 100, Num lo]) (Num 100)\<rparr>"
  have run: "runMonteCarloSimulation reorder_example [1/2, 1/4, 1/2, 1/2] = Some (R, [])"
    by (simp add: runMonteCarloSimulation_def reorder_example_def jsub_def Let_def s R_def
             del: simulate_paths.simps)
  have lst: "map last (paths R) = map Num [100, lo]" by (simp add: R_def)
  from nearest_rank_percentiles [OF two(1,2)] run lst
  have "percentile5 (statistics R)
          = Some (Num (sort [100, lo] ! percentile_index (length [100, lo]) (double_of 0.05)))
        \<and> percentile95 (statistics R)
          = Some (Num (sort [100, lo] ! percentile_index (length [100, lo]) (double_of 0.95)))"
    by blast
  then have "percentile5 (statistics R) = Some (Num lo) \<and> percentile95 (statistics R) = Some (Num 100)"
    using lo percentile_index_two by (simp add: numeral_2_eq_2)
  then have a: "case runMonteCarloSimulation reorder_example [1/2, 1/4, 1/2, 1/2] of
      None \<Rightarrow> False
    | Some (res, g') \<Rightarrow>
        jlt (last (paths res ! 1)) (last (paths res ! 0))
        \<and> percentile5 (statistics res) = Some (last (paths res ! 1))
        \<and> percentile95 (statistics res) = Some (last (paths res ! 0))"
    unfolding run using lo by (simp add: R_def)
  text \<open>The enhanced run: neither day has a jump.\<close>
  have c1: "enhanced_priceChange (Num 0) (Num (sqrt (1 / 252))) [1/2, 1/4, 1/2, 1/2, 1/2, 1/2]
      = Some (Num 0, [1/2, 1/2, 1/2])"
    by (simp add: enhanced_priceChange_def jump_shock Let_def)
  have c2: "enhanced_priceChange (Num 0) (Num (sqrt (1 / 252))) [1/2, 1/2, 1/2]
      = Some (Num (sqrt (1 / 252) * r'), [])"
    by (simp add: enhanced_priceChange_def r'(2) Let_def)
  have e1: "simulate_days_enhanced (Num 0) (Num (sqrt (1 / 252))) (Suc 0) (Num 100) [Num 100]
      [1/2, 1/4, 1/2, 1/2, 1/2, 1/2] = Some (([Num 100, Num 100], Num 100), [1/2, 1/2, 1/2])"
    by (simp add: c1 Let_def)
  have e2: "simulate_days_enhanced (Num 0) (Num (sqrt (1 / 252))) (Suc 0) (Num 100) [Num 100]
      [1/2, 1/2, 1/2] = Some (([Num 100, Num lo'], Num lo'), [])"
    by (simp add: c2 Let_def lo'_def)
  have se: "simulate_paths_enhanced (Num 100) (Num 0) (Num (sqrt (1 / 252))) (Suc 0) 2 [] []
      [1/2, 1/4, 1/2, 1/2, 1/2, 1/2]
      = Some (([[Num 100, Num 100], [Num 100, Num lo']], [Num 100, Num lo']), [])"
    by (simp add: numeral_2_eq_2 e1 e2 del: simulate_days_enhanced.simps)
  define R' where "R' = \<lparr>paths = [[Num 100, Num 100], [Num 100, Num lo']],
      finalPrices = js_sort [Num 100, Num lo'],
      statistics = summary_statistics (js_sort [Num 100, Num lo']) (Num 100)\<rparr>"
  have rune: "runMonteCarloSimulation_enhanced reorder_example [1/2, 1/4, 1/2, 1/2, 1/2, 1/2]
      = Some (R', [])"
    by (simp add: runMonteCarloSimulation_enhanced_def reorder_example_def jsub_def Let_def se R'_def
             del: simulate_paths_enhanced.simps)
  have lst': "map last (paths R') = map Num [100, lo']" by (simp add: R'_def)
  from nearest_rank_percentiles [OF two(3,4)] rune lst'
  have "percentile5 (statistics R')
          = Some (Num (sort [100, lo'] ! percentile_index (length [100, lo']) (double_of 0.05)))
        \<and> percentile95 (statistics R')
          = Some (Num (sort [100, lo'] ! percentile_index (length [100, lo']) (double_of 0.95)))"
    by blast
  then have "percentile5 (statistics R') = Some (Num lo') \<and> percentile95 (statistics R') = Some (Num 100)"
    using lo' percentile_index_two by (simp add: numeral_2_eq_2)
  then have b: "case runMonteCarloSimulation_enhanced reorder_example [1/2, 1/4, 1/2, 1/2, 1/2, 1/2] of
      None \<Rightarrow> False
    | Some (res, g') \<Rightarrow>
        jlt (last (paths res ! 1)) (last (paths res ! 0))
        \<and> percentile5 (statistics res) = Some (last (paths res ! 1))
        \<and> percentile95 (statistics res) = Some (last (paths res ! 0))"
    unfolding rune using lo' by (simp add: R'_def)
  text \<open>The value at risk of fifty prices at the confidence \<open>0.58\<close>.\<close>
  have l: "js_lit 0.58 = Num (double_of 0.58)" by (rule js_lit_finite) simp_all
  have i: "double_of (double_of 0.58) = double_of 0.58" unfolding literal_058(1) by (rule literal_058(2))
  have f: "fifty_prices \<noteq> []" "length fifty_prices < 2 ^ 32" "length fifty_prices = 50"
    by (simp_all add: fifty_prices_def)
  have q: "0 \<le> double_of 0.58 \<and> double_of 0.58 < 1 \<and> double_of (double_of 0.58) = double_of 0.58"
    using i unfolding literal_058(1) by simp
  from nearest_rank_percentiles [OF f(1,2)] q
  have "valueAtRisk (calculateRiskMetrics (map Num fifty_prices) (Num 100) (Num (double_of 0.58)))
          = Num (100 - sort fifty_prices ! percentile_index (length fifty_prices) (double_of 0.58))"
    by blast
  also have "\<dots> = Num (100 - fifty_prices ! 28)"
    unfolding sorted_fifty_prices f(3) percentile_index_058 ..
  also have "\<dots> = Num 71" by (simp add: fifty_prices_def)
  finally have v: "valueAtRisk (calculateRiskMetrics (map Num fifty_prices) (Num 100) (js_lit 0.58)) = Num 71"
    unfolding l .
  have three: "[30, 10, 20 :: real] \<noteq> []" "length [30, 10, 20 :: real] < 2 ^ 32" by simp_all
  have h: "double_of (1 / 2) = 1 / 2" "percentile_index 3 (1 / 2) = 1"
  proof -
    show "double_of (1 / 2) = 1 / 2"
      using double_of_normal [of "- 1" "1 / 2"]
      by (simp add: powr_minus powr_numeral round_half_even_def Let_def)
    have t: "double_of (3 / 2) = 3 / 2"
      using double_of_normal [of 0 "3 / 2"]
      by (simp add: powr_minus powr_numeral round_half_even_def Let_def)
    have e: "real 3 * (1 / 2) = 3 / 2" by simp
    show "percentile_index 3 (1 / 2) = 1" unfolding percentile_index_def e t by simp
  qed
  from nearest_rank_percentiles [OF three] h(1)
  have "valueAtRisk (calculateRiskMetrics (map Num [30, 10, 20]) (Num 100) (Num (1 / 2)))
          = Num (100 - sort [30, 10, 20] ! percentile_index (length [30, 10, 20 :: real]) (1 / 2))"
    by (auto simp del: list.map)
  then have w: "valueAtRisk (calculateRiskMetrics [Num 30, Num 10, Num 20] (Num 100) (Num 0.5)) = Num 80"
    using h(2) by (simp add: numeral_3_eq_3)
  text \<open>The portfolio run: one asset, one day, two simulations.\<close>
  define v0 :: real where "v0 = 175.25"
  define d where "d = (0.12 - 0.5 * (0.25 * 0.25)) * (1 / 252 :: real)"
  define hi where "hi = v0 * exp d"
  define lw where "lw = v0 * exp (d + 0.25 * sqrt (1 / 252) * r)"
  have "0.25 * sqrt (1 / 252) * r < 0" using r(1) by (simp add: mult_pos_neg)
  then have lw: "lw < hi" by (simp add: lw_def hi_def v0_def)
  define a where "a = \<lparr>ticker = ''AAPL'', assetName = ''Apple'', weight = Num 1, assetPrice = Num v0,
                  assetReturn = Num 0.12, assetVolatility = Num 0.25\<rparr>"
  define cap0 where "cap0 = [''AAPL'' \<mapsto> [Num v0]]"
  have g1: "generateCorrelatedRandoms (Suc 0) [[Num 1]] [1/2, 1/4, 1/2, 1/2] = Inr ([Num 0], [1/2, 1/2])"
    by (simp add: generateCorrelatedRandoms_def single_asset_cholesky jump_shock Let_def
          mat_get_def row_get_def)
  have g2: "generateCorrelatedRandoms (Suc 0) [[Num 1]] [1/2, 1/2] = Inr ([Num r], [])"
    by (simp add: generateCorrelatedRandoms_def single_asset_cholesky r(2) Let_def
          mat_get_def row_get_def)
  have p1: "\<exists>cap'. portfolio_days [a] [[Num 1]] (Suc 0) (Suc 0) cap0 [Num v0] [1/2, 1/4, 1/2, 1/2]
              = Inr ((cap', [Num v0, Num hi]), [1/2, 1/2])"
    by (simp add: g1 asset_step_def Let_def a_def cap0_def lookup_path_def row_get_def jsub_def
          numeral_2_eq_2 hi_def d_def)
  have p2: "\<exists>cap'. portfolio_days [a] [[Num 1]] (Suc 0) (Suc 0) cap0 [Num v0] [1/2, 1/2]
              = Inr ((cap', [Num v0, Num lw]), [])"
    by (simp add: g2 asset_step_def Let_def a_def cap0_def lookup_path_def row_get_def jsub_def
          numeral_2_eq_2 lw_def d_def)
  from p1 obtain cap1 where p1': "portfolio_days [a] [[Num 1]] (Suc 0) (Suc 0) cap0 [Num v0]
      [1/2, 1/4, 1/2, 1/2] = Inr ((cap1, [Num v0, Num hi]), [1/2, 1/2])" by blast
  from p2 obtain cap2 where p2': "portfolio_days [a] [[Num 1]] (Suc 0) (Suc 0) cap0 [Num v0]
      [1/2, 1/2] = Inr ((cap2, [Num v0, Num lw]), [])" by blast
  have c0: "[ticker a \<mapsto> [assetPrice a]] = cap0"
    by (simp add: a_def cap0_def)
  have pp: "\<exists>ap'. portfolio_paths [a] [[Num 1]] (Num v0) (Suc 0) (Suc (Suc 0)) [] [] ap [1/2, 1/4, 1/2, 1/2]
              = Inr (([[Num v0, Num hi], [Num v0, Num lw]], [Num hi, Num lw], ap'), [])" for ap
    by (simp add: numeral_2_eq_2 Let_def c0 p1' p2' del: portfolio_days.simps)
  have as: "assets two_runs_portfolio = [a]" by (simp add: two_runs_portfolio_def a_def v0_def)
  have cm: "calculateCorrelationMatrix [a] = [[Num 1]]"
    by (simp add: calculateCorrelationMatrix_def)
  have pv: "portfolio_value [a] = Num v0" by (simp add: portfolio_value_def a_def)
  from pp obtain ap' where pp': "portfolio_paths [a] [[Num 1]] (Num v0) (Suc 0) (Suc (Suc 0)) [] []
      [ticker a \<mapsto> []] [1/2, 1/4, 1/2, 1/2]
      = Inr (([[Num v0, Num hi], [Num v0, Num lw]], [Num hi, Num lw], ap'), [])" by blast
  define P where "P = portfolio_results [[Num v0, Num hi], [Num v0, Num lw]] [Num hi, Num lw]
      (Num v0) ap'"
  have prun: "runPortfolioSimulation two_runs_portfolio [1/2, 1/4, 1/2, 1/2] = Inr (P, [])"
    unfolding runPortfolioSimulation_def Let_def as cm pv
    by (simp add: two_runs_portfolio_def pp' P_def numeral_2_eq_2 del: portfolio_paths.simps)
  have pf: "finalValues P = map Num [hi, lw]" "initialValue P = Num v0"
    by (simp_all add: P_def portfolio_results_def Let_def)
  have two': "[hi, lw] \<noteq> []" "length [hi, lw] < 2 ^ 32" by simp_all
  from nearest_rank_percentiles [OF two'] prun pf
  have "pf_percentile5 (pf_statistics P)
                = Some (Num (sort [hi, lw] ! percentile_index (length [hi, lw]) (double_of 0.05)))
              \<and> pf_percentile95 (pf_statistics P)
                = Some (Num (sort [hi, lw] ! percentile_index (length [hi, lw]) (double_of 0.95)))
              \<and> var95 (riskMetrics P)
                = Num (v0 - sort [hi, lw] ! percentile_index (length [hi, lw]) (double_of 0.05))
              \<and> var99 (riskMetrics P)
                = Num (v0 - sort [hi, lw] ! percentile_index (length [hi, lw]) (double_of 0.01))"
    by blast
  then have "pf_percentile5 (pf_statistics P) = Some (Num lw)
      \<and> pf_percentile95 (pf_statistics P) = Some (Num hi)
      \<and> var95 (riskMetrics P) = Num (v0 - lw) \<and> var99 (riskMetrics P) = Num (v0 - lw)"
    using lw percentile_index_two by (simp add: numeral_2_eq_2)
  then have c: "case runPortfolioSimulation two_runs_portfolio [1/2, 1/4, 1/2, 1/2] of
         Inl e \<Rightarrow> False
       | Inr (res, g') \<Rightarrow>
           jlt (finalValues res ! 1) (finalValues res ! 0)
           \<and> pf_percentile5 (pf_statistics res) = Some (finalValues res ! 1)
           \<and> pf_percentile95 (pf_statistics res) = Some (finalValues res ! 0)
           \<and> var95 (riskMetrics res) = jsub (initialValue res) (finalValues res ! 1)
           \<and> var99 (riskMetrics res) = jsub (initialValue res) (finalValues res ! 1)"
    unfolding prun using lw pf by (simp add: jsub_def)
  from a b l i percentile_index_058 v w c show ?thesis by blast
qed

subsection \<open>Parameter validation\<close>

text \<open>
  C6 (as stated). \<open>runMonteCarloSimulation\<close> with \<open>currentPrice = -5\<close> and \<open>timeHorizon = 0\<close>
  rejects nothing: it returns a complete result, with the one-point path \<open>[-5]\<close> and the
  statistics of the final price \<open>-5\<close>.
\<close>

theorem no_parameter_validation_counterexample:
  "runMonteCarloSimulation invalid_example []
     = Some (\<lparr>paths = [[Num (- 5)]], finalPrices = [Num (- 5)],
               statistics = \<lparr>averageEndingPrice = Num (- 5), probabilityOfGain = Num 0,
                              percentile5 = Some (Num (- 5)), percentile95 = Some (Num (- 5)),
                              maxPrice = Num (- 5), minPrice = Num (- 5)\<rparr>\<rparr>, [])"
  using runMonteCarloSimulation_no_days [of invalid_example "[]"]
  by (simp add: invalid_example_def summary_single)

text \<open>
  C6 (amended). Neither entry point validates its parameters, and neither has an error to
  reject with. For \<open>timeHorizon \<le> 0\<close> \<open>runMonteCarloSimulation\<close> returns, for any \<open>currentPrice\<close> and
  without drawing, \<open>numSimulations\<close> one-point paths \<open>[currentPrice]\<close> with their statistics, and
  \<open>runPortfolioSimulation\<close> returns \<open>numSimulations\<close> one-point paths \<open>[initialValue]\<close>; for any
  \<open>currentPrice\<close>, also \<open>\<le> 0\<close>, \<open>runMonteCarloSimulation\<close> returns a result whenever the tape holds
  two non-zero draws per simulated day, and \<open>runPortfolioSimulation\<close> returns a result, never an
  error, whenever the tape holds two non-zero draws per asset and simulated day.
\<close>

theorem no_parameter_validation:
  "(timeHorizon params \<le> 0 \<longrightarrow>
      runMonteCarloSimulation params g
        = Some (\<lparr>paths = replicate (nat (numSimulations params)) [currentPrice params],
                  finalPrices = replicate (nat (numSimulations params)) (currentPrice params),
                  statistics = summary_statistics
                    (replicate (nat (numSimulations params)) (currentPrice params)) (currentPrice params)\<rparr>, g))
   \<and> (0 \<notin> set g \<and> 2 * nat (timeHorizon params) * nat (numSimulations params) \<le> length g \<longrightarrow>
        runMonteCarloSimulation params g \<noteq> None)
   \<and> (pf_timeHorizon pparams \<le> 0 \<longrightarrow>
        (\<exists>res. runPortfolioSimulation pparams g = Inr (res, g)
           \<and> pf_paths res = replicate (nat (pf_numSimulations pparams)) [portfolio_value (assets pparams)]
           \<and> finalValues res = replicate (nat (pf_numSimulations pparams)) (portfolio_value (assets pparams))))
   \<and> (0 \<notin> set g \<and> 2 * length (assets pparams) * nat (pf_timeHorizon pparams)
                          * nat (pf_numSimulations pparams) \<le> length g \<longrightarrow>
        (\<exists>res g'. runPortfolioSimulation pparams g = Inr (res, g')))"
proof (intro conjI impI)
  assume "timeHorizon params \<le> 0"
  then show "runMonteCarloSimulation params g
        = Some (\<lparr>paths = replicate (nat (numSimulations params)) [currentPrice params],
                  finalPrices = replicate (nat (numSimulations params)) (currentPrice params),
                  statistics = summary_statistics
                    (replicate (nat (numSimulations params)) (currentPrice params)) (currentPrice params)\<rparr>, g)"
    by (rule runMonteCarloSimulation_no_days)
next
  assume "0 \<notin> set g \<and> 2 * nat (timeHorizon params) * nat (numSimulations params) \<le> length g"
  then show "runMonteCarloSimulation params g \<noteq> None"
    using runMonteCarloSimulation_total [of g params] by auto
next
  assume "pf_timeHorizon pparams \<le> 0"
  from runPortfolioSimulation_no_days [OF this, of g]
  show "\<exists>res. runPortfolioSimulation pparams g = Inr (res, g)
           \<and> pf_paths res = replicate (nat (pf_numSimulations pparams)) [portfolio_value (assets pparams)]
           \<and> finalValues res = replicate (nat (pf_numSimulations pparams)) (portfolio_value (assets pparams))"
    by blast
next
  assume "0 \<notin> set g \<and> 2 * length (assets pparams) * nat (pf_timeHorizon pparams)
                          * nat (pf_numSimulations pparams) \<le> length g"
  then show "\<exists>res g'. runPortfolioSimulation pparams g = Inr (res, g')"
    using runPortfolioSimulation_total [of g pparams] by blast
qed

theorem no_parameter_validation_witness:
  "map_option (paths \<circ> fst) (runMonteCarloSimulation no_days_example [1/2]) = Some [[Num 100], [Num 100]]
   \<and> runMonteCarloSimulation negative_price_example [1/2, 1/2] \<noteq> None
   \<and> (case runPortfolioSimulation no_days_portfolio [1/2] of
         Inl e \<Rightarrow> False
       | Inr (res, g') \<Rightarrow> g' = [1/2] \<and> finalValues res = [Num 175.25, Num 175.25])
   \<and> (case runPortfolioSimulation tech_portfolio (replicate 6 (1/2)) of
         Inl e \<Rightarrow> False
       | Inr (res, g') \<Rightarrow> True)"
proof -
  have a: "map_option (paths \<circ> fst) (runMonteCarloSimulation no_days_example [1/2]) = Some [[Num 100], [Num 100]]"
    using no_parameter_validation [of no_days_example "[1/2]"]
    by (simp add: no_days_example_def numeral_2_eq_2)
  have b: "runMonteCarloSimulation negative_price_example [1/2, 1/2] \<noteq> None"
    using no_parameter_validation [of negative_price_example "[1/2, 1/2]"]
    by (simp add: negative_price_example_def)
  have v: "portfolio_value (assets no_days_portfolio) = Num 175.25"
    by (simp add: portfolio_value_def no_days_portfolio_def)
  have h: "pf_timeHorizon no_days_portfolio \<le> 0" by (simp add: no_days_portfolio_def)
  from no_parameter_validation [of no_days_example "[1/2]" no_days_portfolio] h
  obtain res where r: "runPortfolioSimulation no_days_portfolio [1/2] = Inr (res, [1/2])"
    "finalValues res = replicate (nat (pf_numSimulations no_days_portfolio))
                         (portfolio_value (assets no_days_portfolio))"
    by blast
  have "finalValues res = [Num 175.25, Num 175.25]"
    unfolding r(2) v by (simp add: no_days_portfolio_def numeral_2_eq_2)
  with r(1) have c: "case runPortfolioSimulation no_days_portfolio [1/2] of
         Inl e \<Rightarrow> False
       | Inr (res, g') \<Rightarrow> g' = [1/2] \<and> finalValues res = [Num 175.25, Num 175.25]"
    by simp
  have z: "0 \<notin> set (replicate 6 (1/2 :: real))" by simp
  have n: "2 * length (assets tech_portfolio) * nat (pf_timeHorizon tech_portfolio)
             * nat (pf_numSimulations tech_portfolio) \<le> length (replicate 6 (1/2 :: real))"
    by (simp add: tech_portfolio_def three_tech_assets_def)
  from no_parameter_validation [of no_days_example "replicate 6 (1/2)" tech_portfolio] z n
  obtain res' g' where "runPortfolioSimulation tech_portfolio (replicate 6 (1/2)) = Inr (res', g')"
    by blast
  then have d: "case runPortfolioSimulation tech_portfolio (replicate 6 (1/2)) of
         Inl e \<Rightarrow> False
       | Inr (res, g') \<Rightarrow> True"
    by simp
  from a b c d show ?thesis by blast
qed

subsection \<open>Expected shortfall\<close>

lemma default_confidence_index: "jfloor (dmul (Num 2) (js_lit 0.05)) = Num 0"
proof -
  have "jfloor (dmul (Num 2) (Num (double_of 0.05))) = Num (of_int \<lfloor>double_of (2 * double_of 0.05)\<rfloor>)"
    unfolding literal_values by (rule index_product) simp_all
  then show ?thesis unfolding js_lit_values floor_two by simp
qed

text \<open>
  C5. \<open>calculateRiskMetrics\<close> sorts a copy of the final prices for the value at risk, but takes
  the slice named \<open>worstReturns\<close> from the returns in the order supplied. For the final prices
  \<open>[200, 50]\<close>, \<open>currentPrice = 100\<close> and the default confidence \<open>0.05\<close> the index is
  \<open>floor (2 * 0.05) = 0\<close>: the value at risk is \<open>100 - 50\<close>, taken from the smallest price, and
  the expected shortfall is the first return supplied, that of the price 200, which is 1 and
  not the smallest return \<open>-1/2\<close>. The same prices in the order \<open>[50, 200]\<close> give \<open>-1/2\<close>. The
  enhanced version behaves in the same way.
\<close>

theorem expected_shortfall_input_order:
  "valueAtRisk (calculateRiskMetrics [Num 200, Num 50] (Num 100) (js_lit 0.05)) = Num 50
   \<and> expectedShortfall (calculateRiskMetrics [Num 200, Num 50] (Num 100) (js_lit 0.05)) = Num 1
   \<and> expectedShortfall (calculateRiskMetrics [Num 50, Num 200] (Num 100) (js_lit 0.05)) = Num (- (1/2))
   \<and> valueAtRisk (calculateRiskMetrics_enhanced [Num 200, Num 50] (Num 100) (js_lit 0.05)) = Num 50
   \<and> expectedShortfall (calculateRiskMetrics_enhanced [Num 200, Num 50] (Num 100) (js_lit 0.05)) = Num 1
   \<and> expectedShortfall (calculateRiskMetrics_enhanced [Num 50, Num 200] (Num 100) (js_lit 0.05))
       = Num (- (1/2))"
proof -
  have l: "js_length (js_sort [Num 200, Num 50]) = Num 2" "js_length (js_sort [Num 50, Num 200]) = Num 2"
    by (simp_all add: js_length_def js_sort_def jsub_def)
  show ?thesis
    unfolding calculateRiskMetrics_def calculateRiskMetrics_enhanced_def Let_def l default_confidence_index
    by (simp add: price_returns_def js_length_def js_sort_def jsub_def js_sum_def)
qed

text \<open>
  \<open>runPortfolioSimulation\<close> takes its slice from the sorted final values, and computes another
  quantity: \<open>initialValue\<close> minus the mean of the \<open>floor (0.05 * N)\<close> smallest final values.
  For fewer than twenty final values the slice is empty and the result is \<open>NaN\<close>; here for two.
\<close>

lemma portfolio_shortfall_two_values:
  "pf_expectedShortfall (riskMetrics (portfolio_results ps [Num x, Num y] (Num v0) ap)) = NaN"
proof -
  have "dmul (js_lit 0.05) (Num 2) = dmul (Num 2) (js_lit 0.05)"
    unfolding js_lit_values by (simp add: dmul_def mult.commute)
  then have i: "jfloor (dmul (js_lit 0.05) (js_length [Num x, Num y])) = Num 0"
    using default_confidence_index by (simp add: js_length_def)
  show ?thesis
    unfolding portfolio_results_def Let_def i by (simp add: js_sum_def jsub_def)
qed

subsection \<open>Zero denominators\<close>

text \<open>
  C8. \<open>calculateRiskMetrics\<close> divides by the standard deviation of the returns without a guard.
  For the single final price 103 and \<open>currentPrice = 100\<close> the mean return is \<open>0.03\<close>, the
  standard deviation 0, and the Sharpe ratio \<open>(0.03 - 0.03) / 0\<close> is \<open>NaN\<close>.
\<close>

theorem sharpe_ratio_nan:
  "sharpeRatio (calculateRiskMetrics [Num 103] (Num 100) (Num 0.05)) = NaN"
  by (simp add: calculateRiskMetrics_def Let_def price_returns_def js_mean_def js_sum_def js_length_def
        sum_sq_dev_def jsub_def numeral_2_eq_2)

text \<open>
  With a mean return other than \<open>0.03\<close> the same division gives an infinity. The ratios of
  \<open>RiskManager\<close> are guarded: on a finite return series they are never \<open>NaN\<close>, and 0 when the
  denominator is 0.
\<close>

lemma sharpe_ratio_infinite:
  "sharpeRatio (calculateRiskMetrics [Num 100, Num 100] (Num 100) (Num 0.05)) = NInf"
  by (simp add: calculateRiskMetrics_def Let_def price_returns_def js_mean_def js_sum_def js_length_def
        sum_sq_dev_def jsub_def numeral_2_eq_2)

lemma guarded_ratio_finite:
  assumes "a \<in> range Num"
  shows "(if jlt (Num 0) v then jdiv a v else Num 0) \<noteq> NaN"
  using assms by (cases v) auto

lemma calculateSharpeRatio_defined:
  "calculateSharpeRatio (map Num rs) (Num rf) (Num periods) \<noteq> NaN"
proof (cases "rs = []")
  case True
  then show ?thesis
    by (simp add: calculateSharpeRatio_def calculateVolatility_def Let_def js_mean_def js_sum_def
          js_length_def sum_sq_dev_def jsub_def)
next
  case False
  then have n: "real (length rs) \<noteq> 0" by simp
  have m: "js_mean (map Num rs) = Num (sum_list rs / real (length rs))"
    using n by (simp add: js_mean_def js_sum_Num js_length_def)
  have "jsub (jmul (js_mean (map Num rs)) (Num periods)) (Num rf) \<in> range Num"
    by (simp add: m jsub_def)
  then show ?thesis
    unfolding calculateSharpeRatio_def Let_def by (rule guarded_ratio_finite)
qed

lemma calculateSharpeRatio_constant_series:
  "calculateSharpeRatio [Num r, Num r] (Num 0.02) (Num 252) = Num 0"
  by (simp add: calculateSharpeRatio_def calculateVolatility_def Let_def js_mean_def js_sum_def
        js_length_def sum_sq_dev_def jsub_def numeral_2_eq_2)

lemma calculateSortino_defined:
  "calculateSortino (map Num rs) (Num target) (Num periods) \<noteq> NaN"
proof (cases "rs = []")
  case True
  then show ?thesis by (simp add: calculateSortino_def)
next
  case False
  then have n: "real (length rs) \<noteq> 0" by simp
  have m: "js_mean (map Num rs) = Num (sum_list rs / real (length rs))"
    using n by (simp add: js_mean_def js_sum_Num js_length_def)
  have "jsub (jmul (js_mean (map Num rs)) (Num periods)) (Num target) \<in> range Num"
    by (simp add: m jsub_def)
  then show ?thesis
    unfolding calculateSortino_def Let_def using guarded_ratio_finite by auto
qed

section \<open>Properties of the options pricer\<close>

text \<open>
  C2. At or after expiry (\<open>timeToExpiry \<le> 0\<close>, including \<open>-Infinity\<close>) and for finite spot
  and strike, \<open>blackScholes\<close> returns exactly the intrinsic values
  \<open>max (spot - strike) 0\<close> and \<open>max (strike - spot) 0\<close>. Both are finite numbers: the branch
  returns before \<open>d1\<close> is formed, so no division takes place, whatever the volatility.
\<close>

theorem blackScholes_at_expiry:
  assumes "spot params = Num S" and "strike params = Num K"
    and "jle (timeToExpiry params) (Num 0)"
  shows "blackScholes params = \<lparr>call = Num (max (S - K) 0), put = Num (max (K - S) 0)\<rparr>"
  using assms by (simp add: blackScholes_def jsub_def max_def)

theorem blackScholes_at_expiry_witness:
  "jle (Num 0) (Num 0) \<and>
   blackScholes \<lparr>spot = Num 120, strike = Num 100, timeToExpiry = Num 0, riskFreeRate = Num 0.05,
                 opt_volatility = Num 0, dividendYield = None\<rparr>
     = \<lparr>call = Num 20, put = Num 0\<rparr>"
  using blackScholes_at_expiry [of "\<lparr>spot = Num 120, strike = Num 100, timeToExpiry = Num 0,
      riskFreeRate = Num 0.05, opt_volatility = Num 0, dividendYield = None\<rparr>" 120 100]
  by simp

text \<open>
  C9. At or after expiry \<open>calculateGreeks\<close> returns five zeros for a call and for a put,
  whatever the moneyness: an in-the-money option at expiry gets delta 0, not \<open>\<plusminus>1\<close>.
\<close>

theorem calculateGreeks_at_expiry:
  assumes "jle (timeToExpiry params) (Num 0)"
  shows "calculateGreeks params ot
           = \<lparr>delta = Num 0, gamma = Num 0, theta = Num 0, vega = Num 0, rho = Num 0\<rparr>"
  using assms by (simp add: calculateGreeks_def)

theorem calculateGreeks_at_expiry_witness:
  "jle (Num 0) (Num 0) \<and>
   delta (calculateGreeks \<lparr>spot = Num 120, strike = Num 100, timeToExpiry = Num 0,
      riskFreeRate = Num 0.05, opt_volatility = Num 0.2, dividendYield = None\<rparr> Call) = Num 0"
  using calculateGreeks_at_expiry [of "\<lparr>spot = Num 120, strike = Num 100, timeToExpiry = Num 0,
      riskFreeRate = Num 0.05, opt_volatility = Num 0.2, dividendYield = None\<rparr>" Call]
  by simp

subsection \<open>Put-call parity\<close>

lemma normCDF_Num: "normCDF (Num d) = Num (cdf_val d)"
proof -
  have "1 + 0.3275911 * (\<bar>d\<bar> / sqrt 2) > 0"
    by (intro add_pos_nonneg mult_nonneg_nonneg divide_nonneg_nonneg) simp_all
  then have nz: "1 + 0.3275911 * (\<bar>d\<bar> / sqrt 2) \<noteq> 0" by simp
  show ?thesis
    using nz by (simp add: normCDF_def Let_def jsub_def cdf_y_def cdf_poly_def cdf_val_def)
qed

lemma cdf_y_minus: "cdf_y (- d) = cdf_y d"
  by (simp add: cdf_y_def)

lemma cdf_val_sym: "d \<noteq> 0 \<Longrightarrow> cdf_val d + cdf_val (- d) = 1"
  by (simp add: cdf_val_def cdf_y_minus field_simps)

lemma cdf_y_0: "cdf_y 0 = 1 / 10^9"
  by (simp add: cdf_y_def cdf_poly_def)

lemma cdf_val_0: "cdf_val 0 = (1 + 1 / 10^9) / 2"
  by (simp add: cdf_val_def cdf_y_0)

lemma cdf_poly_t1: "cdf_poly (1 / 1.3275911) \<le> 1/2" "0 \<le> cdf_poly (1 / 1.3275911)"
  by (simp_all add: cdf_poly_def)

lemma bs_d1_Num:
  assumes "spot params = Num S" "strike params = Num K" "timeToExpiry params = Num T"
    "riskFreeRate params = Num r" "opt_volatility params = Num v" "yield_or_default params = Num q"
    "0 < S" "0 < K" "0 < T" "0 < v"
  shows "bs_d1 params = Num ((ln (S / K) + (r - q + 0.5 * v * v) * T) / (v * sqrt T))"
proof -
  have "0 < S / K" using assms(7,8) by (rule divide_pos_pos)
  then have a: "\<not> S / K < 0" "S / K \<noteq> 0" by linarith+
  have b: "v * sqrt T \<noteq> 0" using assms(9,10) by simp
  have "K \<noteq> 0" using assms(8) by simp
  then have 1: "jdiv (Num S) (Num K) = Num (S / K)" by simp
  have 2: "jlog (Num (S / K)) = Num (ln (S / K))" using a by simp
  have 3: "jsqrt (Num T) = Num (sqrt T)" using assms(9) by simp
  have 4: "jdiv (Num x) (Num (v * sqrt T)) = Num (x / (v * sqrt T))" for x
    using b by simp
  show ?thesis
    unfolding bs_d1_def assms(1-6) 1 2 3 jsub_def jneg.simps jmul.simps jadd.simps 4 by simp
qed

lemma bs_d2_Num:
  assumes "spot params = Num S" "strike params = Num K" "timeToExpiry params = Num T"
    "riskFreeRate params = Num r" "opt_volatility params = Num v" "yield_or_default params = Num q"
    "0 < S" "0 < K" "0 < T" "0 < v"
  shows "bs_d2 params = Num ((ln (S / K) + (r - q + 0.5 * v * v) * T) / (v * sqrt T) - v * sqrt T)"
  using assms by (simp add: bs_d2_def bs_d1_Num [OF assms] jsub_def)

lemma cdf_y_sqrt2: "cdf_y (sqrt 2) = 1 - cdf_poly (1 / 1.3275911) * exp (- 1)"
  by (simp add: cdf_y_def)

lemma cdf_val_sqrt2: "cdf_val (sqrt 2) = 1 - cdf_poly (1 / 1.3275911) * exp (- 1) / 2"
  by (simp add: cdf_val_def cdf_y_sqrt2)

lemma cdf_val_msqrt2: "cdf_val (- sqrt 2) = cdf_poly (1 / 1.3275911) * exp (- 1) / 2"
  by (simp add: cdf_val_def cdf_y_sqrt2 cdf_y_minus)

lemma sqrt2_aux: "4 / (2 * sqrt 2) = sqrt 2"
  by (simp add: field_simps)

lemma exp_m1_bounds: "exp (- 1 :: real) \<le> 1" "1 / 3 \<le> exp (- 1 :: real)"
proof -
  show "exp (- 1 :: real) \<le> 1" by simp
  have "inverse 3 \<le> inverse (exp (1::real))"
    by (rule le_imp_inverse_le [OF exp_le]) simp
  then show "1 / 3 \<le> exp (- 1 :: real)"
    by (simp add: exp_minus inverse_eq_divide)
qed

lemma parity_example_d1: "bs_d1 parity_example = Num (sqrt 2)"
  using bs_d1_Num [of parity_example 1 1 2 0 2 0]
  by (simp add: parity_example_def yield_or_default_def sqrt2_aux)

lemma parity_example_d2: "bs_d2 parity_example = Num (- sqrt 2)"
  by (simp add: bs_d2_def parity_example_d1 jsub_def) (simp add: parity_example_def)

lemma poly_exp_le: "cdf_poly (1 / 1.3275911) * exp (- 1) \<le> 1"
proof -
  have "cdf_poly (1 / 1.3275911) * exp (- 1) \<le> (1/2) * 1"
    by (intro mult_mono cdf_poly_t1 exp_m1_bounds) simp_all
  then show ?thesis by simp
qed

lemma parity_example_call: "callPrice parity_example = Num (1 - cdf_poly (1 / 1.3275911) * exp (- 1))"
  by (simp add: callPrice_def parity_example_d1 parity_example_d2 normCDF_Num cdf_val_sqrt2 cdf_val_msqrt2 jsub_def)
     (simp add: parity_example_def yield_or_default_def)

lemma parity_example_put: "putPrice parity_example = Num (1 - cdf_poly (1 / 1.3275911) * exp (- 1))"
  by (simp add: putPrice_def parity_example_d1 parity_example_d2 normCDF_Num cdf_val_sqrt2 cdf_val_msqrt2 jsub_def)
     (simp add: parity_example_def yield_or_default_def)

lemma parity_failure_d1: "bs_d1 parity_failure = Num 0"
  using bs_d1_Num [of parity_failure 1000000 1000000 2 0 1 "1/2"]
  by (simp add: parity_failure_def yield_or_default_def)

lemma parity_failure_d2: "bs_d2 parity_failure = Num (- sqrt 2)"
  by (simp add: bs_d2_def parity_failure_d1 jsub_def) (simp add: parity_failure_def)

lemma parity_failure_call:
  "callPrice parity_failure
     = Num (500000 * exp (- 1) * (1 + 1 / 10^9 - cdf_poly (1 / 1.3275911)))"
  by (simp add: callPrice_def parity_failure_d1 parity_failure_d2 normCDF_Num cdf_val_0 cdf_val_msqrt2 jsub_def)
     (simp add: parity_failure_def yield_or_default_def algebra_simps)

lemma parity_failure_put:
  "putPrice parity_failure
     = Num (1000000 - 500000 * exp (- 1) * (1 + 1 / 10^9 + cdf_poly (1 / 1.3275911)))"
  by (simp add: putPrice_def parity_failure_d1 parity_failure_d2 normCDF_Num cdf_val_0 cdf_val_sqrt2 jsub_def)
     (simp add: parity_failure_def yield_or_default_def algebra_simps)

lemma parity_failure_call_nonneg:
  "0 \<le> 500000 * exp (- 1) * (1 + 1 / 10^9 - cdf_poly (1 / 1.3275911))"
  using cdf_poly_t1 by (intro mult_nonneg_nonneg) simp_all

lemma parity_failure_put_nonneg:
  "0 \<le> 1000000 - 500000 * exp (- 1) * (1 + 1 / 10^9 + cdf_poly (1 / 1.3275911))"
proof -
  have "exp (- 1) * (1 + 1 / 10^9 + cdf_poly (1 / 1.3275911)) \<le> 1 * (2::real)"
    using cdf_poly_t1 by (intro mult_mono exp_m1_bounds) simp_all
  then show ?thesis by simp
qed

text \<open>
  C3 (as stated). With spot = strike = 1000000, two years to expiry, rate 0, volatility 1 and
  dividend yield 0.5, \<open>d1\<close> is exactly 0; \<open>normCDF 0\<close> is \<open>(1 + 10^-9) / 2\<close> for both signs, so
  the call and put returned differ from parity by \<open>exp (-1) / 1000\<close>, more than \<open>10^-6\<close>.
\<close>

theorem put_call_parity_counterexample:
  "jlt (Num (1 / 10^6))
       (jabs (jsub (jsub (call (blackScholes parity_failure)) (put (blackScholes parity_failure)))
                   (Num (1000000 * exp (- (1/2) * 2) - 1000000 * exp (- 0 * 2)))))"
proof -
  have "call (blackScholes parity_failure)
          = Num (500000 * exp (- 1) * (1 + 1 / 10^9 - cdf_poly (1 / 1.3275911)))"
    using parity_failure_call_nonneg
    by (simp add: blackScholes_def parity_failure_call) (simp add: parity_failure_def)
  moreover have "put (blackScholes parity_failure)
          = Num (1000000 - 500000 * exp (- 1) * (1 + 1 / 10^9 + cdf_poly (1 / 1.3275911)))"
    using parity_failure_put_nonneg
    by (simp add: blackScholes_def parity_failure_put) (simp add: parity_failure_def)
  moreover have "1 / 10^6 < \<bar>500000 * exp (- 1) * (1 + 1 / 10^9 - cdf_poly (1 / 1.3275911))
       - (1000000 - 500000 * exp (- 1) * (1 + 1 / 10^9 + cdf_poly (1 / 1.3275911)))
       - (1000000 * exp (- 1) - 1000000)\<bar>"
  proof -
    have "500000 * exp (- 1) * (1 + 1 / 10^9 - cdf_poly (1 / 1.3275911))
       - (1000000 - 500000 * exp (- 1) * (1 + 1 / 10^9 + cdf_poly (1 / 1.3275911)))
       - (1000000 * exp (- 1) - 1000000) = exp (- 1) / (1000::real)"
      by (simp add: algebra_simps)
    moreover have "1 / 10^6 < exp (- 1) / (1000::real)"
      using exp_m1_bounds(2) by simp
    ultimately show ?thesis by simp
  qed
  ultimately show ?thesis by (simp add: jsub_def)
qed

text \<open>
  C3 (amended). For finite parameters with positive spot, strike, time to expiry and
  volatility, when neither \<open>d1\<close> nor \<open>d2\<close> is 0 and neither price is clamped at 0, the
  call and put returned satisfy put-call parity exactly (in exact arithmetic):
  \<open>call - put = spot * exp (- q * T) - strike * exp (- r * T)\<close>.
\<close>

theorem put_call_parity:
  assumes "spot params = Num S" "strike params = Num K" "timeToExpiry params = Num T"
    "riskFreeRate params = Num r" "opt_volatility params = Num v" "yield_or_default params = Num q"
    "0 < S" "0 < K" "0 < T" "0 < v"
    "bs_d1 params \<noteq> Num 0" "bs_d2 params \<noteq> Num 0"
    "jle (Num 0) (callPrice params)" "jle (Num 0) (putPrice params)"
  shows "jsub (call (blackScholes params)) (put (blackScholes params))
           = Num (S * exp (- q * T) - K * exp (- r * T))"
proof -
  define d1 where "d1 = (ln (S / K) + (r - q + 0.5 * v * v) * T) / (v * sqrt T)"
  define d2 where "d2 = d1 - v * sqrt T"
  have D1: "bs_d1 params = Num d1"
    unfolding d1_def by (rule bs_d1_Num [OF assms(1-10)])
  have D2: "bs_d2 params = Num d2"
    unfolding d2_def d1_def by (rule bs_d2_Num [OF assms(1-10)])
  have nz1: "d1 \<noteq> 0" using assms(11) D1 by simp
  have nz2: "d2 \<noteq> 0" using assms(12) D2 by simp
  define c where "c = S * exp (- q * T) * cdf_val d1 - K * exp (- r * T) * cdf_val d2"
  define p where "p = K * exp (- r * T) * cdf_val (- d2) - S * exp (- q * T) * cdf_val (- d1)"
  have C: "callPrice params = Num c"
    using assms(1-6) by (simp add: callPrice_def D1 D2 normCDF_Num jsub_def c_def)
  have P: "putPrice params = Num p"
    using assms(1-6) by (simp add: putPrice_def D1 D2 normCDF_Num jsub_def p_def)
  have c0: "0 \<le> c" using assms(13) C by simp
  have p0: "0 \<le> p" using assms(14) P by simp
  have "\<not> jle (timeToExpiry params) (Num 0)" using assms(3,9) by simp
  then have "jsub (call (blackScholes params)) (put (blackScholes params)) = Num (c - p)"
    using c0 p0 by (simp add: blackScholes_def C P jsub_def)
  moreover have "c - p = S * exp (- q * T) * (cdf_val d1 + cdf_val (- d1))
                        - K * exp (- r * T) * (cdf_val d2 + cdf_val (- d2))"
    by (simp add: c_def p_def algebra_simps)
  ultimately show ?thesis
    by (simp add: cdf_val_sym [OF nz1] cdf_val_sym [OF nz2])
qed

theorem put_call_parity_witness:
  "bs_d1 parity_example \<noteq> Num 0 \<and> bs_d2 parity_example \<noteq> Num 0 \<and>
   jle (Num 0) (callPrice parity_example) \<and> jle (Num 0) (putPrice parity_example) \<and>
   jsub (call (blackScholes parity_example)) (put (blackScholes parity_example)) = Num 0"
proof -
  have h1: "bs_d1 parity_example \<noteq> Num 0" by (simp add: parity_example_d1)
  have h2: "bs_d2 parity_example \<noteq> Num 0" by (simp add: parity_example_d2)
  have h3: "jle (Num 0) (callPrice parity_example)"
    using poly_exp_le by (simp add: parity_example_call)
  have h4: "jle (Num 0) (putPrice parity_example)"
    using poly_exp_le by (simp add: parity_example_put)
  have "jsub (call (blackScholes parity_example)) (put (blackScholes parity_example))
          = Num (1 * exp (- 0 * 2) - 1 * exp (- 0 * 2))"
    by (rule put_call_parity [of parity_example 1 1 2 0 2 0, OF _ _ _ _ _ _ _ _ _ _ h1 h2 h3 h4])
       (simp_all add: parity_example_def yield_or_default_def)
  then show ?thesis using h1 h2 h3 h4 by simp
qed

end
